(* ===== verification/Prelude.thy ===== *)
theory Prelude
  imports Main "HOL-Library.Word"
begin

text \<open>
  Shared vocabulary of the development: bytes, the ways a C++ operation can fail, a bind for
  fallible results, checked vector accesses, and the generic list lemmas the components use.

  A C++ operation that can fail returns \<open>fault + 'a\<close>. \<open>Inl\<close> holds an exception that leaves
  the function (\<open>Thrown\<close>), an operation the language leaves undefined (a read past the end of a
  vector, a signed overflow, a null pointer), a failed library assertion, or \<open>std::terminate\<close>. Nothing in the driver catches
  these inside the data path, so no state is kept behind them: the process does not go on.
\<close>

section \<open>Types\<close>

type_synonym byte = "8 word"
type_synonym bytes = "byte list"

datatype cpp_exception = Invalid_argument | Out_of_range | Library_error

datatype fault =
    Thrown cpp_exception
  | Out_of_bounds
  | Signed_overflow
  | Assertion_failed
  | Null_dereference
  | Terminated

type_synonym 'a res = "fault + 'a"

section \<open>Collections of rewrite rules\<close>

named_theorems res_simps \<open>evaluation of fallible results\<close>
named_theorems text_simps \<open>printing and reading of numbers\<close>
named_theorems wave_simps \<open>the wave configuration once it is loaded\<close>
named_theorems step_inv \<open>an operation keeps its component's invariant\<close>

section \<open>Sequencing of fallible results\<close>

definition bind_res :: "'a res \<Rightarrow> ('a \<Rightarrow> 'b res) \<Rightarrow> 'b res" where
  "bind_res r f = (case r of Inl e \<Rightarrow> Inl e | Inr x \<Rightarrow> f x)"

lemma bind_res_Inl [simp, res_simps]: "bind_res (Inl e) f = Inl e"
  by (simp add: bind_res_def)

lemma bind_res_Inr [simp, res_simps]: "bind_res (Inr x) f = f x"
  by (simp add: bind_res_def)

lemma bind_res_assoc: "bind_res (bind_res r f) g = bind_res r (\<lambda>x. bind_res (f x) g)"
  by (cases r) (simp_all add: bind_res_def)

lemma bind_res_cong [fundef_cong]:
  "r = r' \<Longrightarrow> (\<And>x. r' = Inr x \<Longrightarrow> f x = g x) \<Longrightarrow> bind_res r f = bind_res r' g"
  by (cases r') (auto simp: bind_res_def)

lemma bind_res_eq_Inr:
  "bind_res r f = Inr y \<longleftrightarrow> (\<exists>x. r = Inr x \<and> f x = Inr y)"
  by (cases r) auto

lemma bind_res_eq_Inl:
  "bind_res r f = Inl e \<longleftrightarrow> r = Inl e \<or> (\<exists>x. r = Inr x \<and> f x = Inl e)"
  by (cases r) auto

section \<open>Checked accesses to a vector\<close>

text \<open>\<open>v[i]\<close> on a \<open>std::vector\<close>: undefined when \<open>i\<close> is not below the size.\<close>

definition at :: "'a list \<Rightarrow> nat \<Rightarrow> 'a res" where
  "at xs i = (if i < length xs then Inr (xs ! i) else Inl Out_of_bounds)"

text \<open>\<open>std::vector(v.begin() + i, v.end())\<close>: undefined when \<open>i\<close> is past the end.\<close>

definition vec_from :: "'a list \<Rightarrow> nat \<Rightarrow> 'a list res" where
  "vec_from xs i = (if i \<le> length xs then Inr (drop i xs) else Inl Out_of_bounds)"

lemma at_in [simp, res_simps]: "i < length xs \<Longrightarrow> at xs i = Inr (xs ! i)"
  by (simp add: at_def)

lemma at_out [simp, res_simps]: "length xs \<le> i \<Longrightarrow> at xs i = Inl Out_of_bounds"
  by (simp add: at_def)

lemma vec_from_in [simp, res_simps]: "i \<le> length xs \<Longrightarrow> vec_from xs i = Inr (drop i xs)"
  by (simp add: vec_from_def)

lemma vec_from_out [simp, res_simps]: "length xs < i \<Longrightarrow> vec_from xs i = Inl Out_of_bounds"
  by (simp add: vec_from_def)

section \<open>Generic lemmas\<close>

lemma find_append:
  "find P (xs @ ys) = (case find P xs of Some x \<Rightarrow> Some x | None \<Rightarrow> find P ys)"
  by (induction xs) auto

lemma find_upt_first:
  assumes "lo \<le> i" "i < hi" "P i" "\<And>j. lo \<le> j \<Longrightarrow> j < i \<Longrightarrow> \<not> P j"
  shows "find P [lo..<hi] = Some i"
proof -
  have "[lo..<hi] = [lo..<i] @ i # [Suc i..<hi]"
    using assms(1,2) by (metis le_add_diff_inverse less_or_eq_imp_le upt_add_eq_append upt_conv_Cons)
  moreover have "find P [lo..<i] = None"
    using assms(4) by (auto simp: find_None_iff)
  ultimately show ?thesis using assms(3) by (simp add: find_append)
qed

end
