(* ===== verification/Cpp_Std.thy ===== *)
theory Cpp_Std
  imports Prelude
begin

text \<open>
  The parts of the C++ standard library the driver computes with: \<open>std::to_string\<close> on integers,
  \<open>std::stoi(s, nullptr, 16)\<close>, the stream manipulators \<open>std::hex\<close>, \<open>std::setw(2)\<close> and
  \<open>std::setfill('0')\<close> applied to one byte, the combination of two bytes into a 16-bit number
  with \<open><<\<close> and \<open>|\<close>, and the conversion of an \<open>int\<close> to \<open>unsigned short\<close>. Each comes with
  the facts the components use: printing is injective and read back by the matching reader,
  every reader stays inside its range.
\<close>

unbundle bit_operations_syntax

section \<open>Digits\<close>

definition digit_char :: "nat \<Rightarrow> char" where
  "digit_char d = ''0123456789abcdef'' ! d"

definition digit_val :: "char \<Rightarrow> nat option" where
  "digit_val c =
     (let n = (of_char c :: nat) in
      if 48 \<le> n \<and> n \<le> 57 then Some (n - 48)
      else if 97 \<le> n \<and> n \<le> 102 then Some (n - 87)
      else if 65 \<le> n \<and> n \<le> 70 then Some (n - 55)
      else None)"

definition is_xdigit :: "char \<Rightarrow> bool" where
  "is_xdigit c \<longleftrightarrow> digit_val c \<noteq> None"

lemma less_16_cases:
  "d < (16::nat) \<Longrightarrow> d \<in> {0,1,2,3,4,5,6,7,8,9,10,11,12,13,14,15}"
  by simp arith

lemma digit_val_digit_char [simp, text_simps]: "d < 16 \<Longrightarrow> digit_val (digit_char d) = Some d"
  by (drule less_16_cases) (auto simp: digit_char_def digit_val_def)

lemma is_xdigit_digit_char [simp, text_simps]: "d < 16 \<Longrightarrow> is_xdigit (digit_char d)"
  by (simp add: is_xdigit_def)

lemma digit_char_not_sign:
  "d < 16 \<Longrightarrow> digit_char d \<noteq> CHR ''-'' \<and> digit_char d \<noteq> CHR ''+'' \<and> digit_char d \<noteq> CHR ''x''
     \<and> digit_char d \<noteq> CHR ''X'' \<and> digit_char d \<noteq> CHR 0x0A"
  by (drule less_16_cases) (auto simp: digit_char_def)

function digits :: "nat \<Rightarrow> nat \<Rightarrow> nat list" where
  "digits b n = (if n < b \<or> b < 2 then [n] else digits b (n div b) @ [n mod b])"
  by pat_completeness auto
termination
  by (relation "measure snd") (auto intro!: div_less_dividend)

declare digits.simps [simp del]

definition digits_value :: "nat \<Rightarrow> nat list \<Rightarrow> nat" where
  "digits_value b ds = foldl (\<lambda>a d. b * a + d) 0 ds"

lemma digits_value_snoc: "digits_value b (ds @ [d]) = b * digits_value b ds + d"
  by (simp add: digits_value_def)

lemma digits_not_Nil [simp]: "digits b n \<noteq> []"
  by (subst digits.simps) simp

lemma digits_bound: "2 \<le> b \<Longrightarrow> d \<in> set (digits b n) \<Longrightarrow> d < b"
proof (induction b n rule: digits.induct)
  case (1 b n)
  show ?case
  proof (cases "n < b")
    case True
    with 1(3) show ?thesis by (simp add: digits.simps [of b n])
  next
    case False
    with 1 show ?thesis by (auto simp: digits.simps [of b n])
  qed
qed

lemma digits_value_digits [simp, text_simps]: "2 \<le> b \<Longrightarrow> digits_value b (digits b n) = n"
proof (induction b n rule: digits.induct)
  case (1 b n)
  show ?case
  proof (cases "n < b")
    case True
    then show ?thesis by (simp add: digits.simps [of b n] digits_value_def)
  next
    case False
    with 1 show ?thesis by (simp add: digits.simps [of b n] digits_value_snoc)
  qed
qed

lemma digits_value_bound:
  assumes "\<And>d. d \<in> set ds \<Longrightarrow> d < b"
  shows "digits_value b ds < b ^ length ds"
  using assms
proof (induction ds rule: rev_induct)
  case Nil
  then show ?case by (simp add: digits_value_def)
next
  case (snoc d ds)
  then have "digits_value b ds + 1 \<le> b ^ length ds" and "d < b"
    by (simp_all add: Suc_leI)
  then have "b * (digits_value b ds + 1) \<le> b * b ^ length ds"
    by (intro mult_le_mono2)
  with \<open>d < b\<close> show ?case by (simp add: digits_value_snoc algebra_simps)
qed

lemma length_digits: "2 \<le> b \<Longrightarrow> n < b ^ Suc k \<Longrightarrow> length (digits b n) \<le> Suc k"
proof (induction k arbitrary: n)
  case 0
  then show ?case by (simp add: digits.simps [of b n])
next
  case (Suc k)
  show ?case
  proof (cases "n < b")
    case True
    then show ?thesis by (simp add: digits.simps [of b n])
  next
    case False
    have "n div b < b ^ Suc k"
      using Suc.prems by (simp add: less_mult_imp_div_less mult.commute)
    with Suc False show ?thesis by (simp add: digits.simps [of b n])
  qed
qed

section \<open>Printing integers\<close>

text \<open>\<open>std::to_string\<close>: decimal, no leading zeros, a minus sign for negative numbers.\<close>

definition to_string :: "int \<Rightarrow> string" where
  "to_string i =
     (if i < 0 then CHR ''-'' # map digit_char (digits 10 (nat (- i)))
      else map digit_char (digits 10 (nat i)))"

definition chars_value :: "nat \<Rightarrow> string \<Rightarrow> nat" where
  "chars_value b s = digits_value b (map (\<lambda>c. case digit_val c of Some d \<Rightarrow> d | None \<Rightarrow> 0) s)"

lemma chars_value_digit_chars:
  "(\<And>d. d \<in> set ds \<Longrightarrow> d < 16) \<Longrightarrow> chars_value b (map digit_char ds) = digits_value b ds"
  unfolding chars_value_def by (rule arg_cong [where f = "digits_value b"]) (induction ds; simp)

lemma chars_value_digits:
  "chars_value 10 (map digit_char (digits 10 n)) = n"
  using digits_bound [of 10] by (subst chars_value_digit_chars) force+

lemma hd_digit_chars: "hd (map digit_char (digits 10 n)) \<noteq> CHR ''-''"
proof -
  have "hd (digits 10 n) \<in> set (digits 10 n)" by simp
  then have "hd (digits 10 n) < 16" using digits_bound [of 10] by fastforce
  then show ?thesis using digit_char_not_sign by (simp add: hd_map)
qed

lemma to_string_inject [simp, text_simps]: "to_string i = to_string j \<longleftrightarrow> i = j"
proof
  assume eq: "to_string i = to_string j"
  have sgn: "(i < 0) = (j < 0)"
    using eq hd_digit_chars [of "nat i"] hd_digit_chars [of "nat j"]
    by (auto simp: to_string_def split: if_splits)
  then have "map digit_char (digits 10 (nat \<bar>i\<bar>)) = map digit_char (digits 10 (nat \<bar>j\<bar>))"
    using eq by (auto simp: to_string_def split: if_splits)
  then have "nat \<bar>i\<bar> = nat \<bar>j\<bar>" by (metis chars_value_digits)
  with sgn show "i = j" by auto
qed simp

lemma to_string_not_Nil [simp]: "to_string i \<noteq> []"
  by (simp add: to_string_def)

lemma to_string_no_newline: "CHR 0x0A \<notin> set (to_string i)"
proof -
  have "CHR 0x0A \<notin> set (map digit_char (digits 10 n))" for n
  proof
    assume "CHR 0x0A \<in> set (map digit_char (digits 10 n))"
    then obtain d where "d \<in> set (digits 10 n)" and d: "digit_char d = CHR 0x0A" by auto
    then have "d < 16" using digits_bound [of 10 d n] by simp
    then show False using d digit_char_not_sign by blast
  qed
  then show ?thesis by (auto simp: to_string_def)
qed

section \<open>Bytes as hexadecimal text\<close>

text \<open>
  \<open>std::hex << std::setfill('0') << std::setw(2) << static_cast<unsigned>(b)\<close>: the digits of
  the byte to base 16, padded on the left with zeros to two characters.
\<close>

definition hex_byte :: "byte \<Rightarrow> string" where
  "hex_byte b =
     (let s = map digit_char (digits 16 (unat b)) in replicate (2 - length s) CHR ''0'' @ s)"

text \<open>The reader of such text, for the round trips.\<close>

fun unhex :: "string \<Rightarrow> bytes option" where
  "unhex [] = Some []"
| "unhex [c] = None"
| "unhex (c # d # s) =
     (case (digit_val c, digit_val d, unhex s) of
        (Some x, Some y, Some r) \<Rightarrow> Some (of_nat (16 * x + y) # r)
      | _ \<Rightarrow> None)"

lemma unat_byte_less: "unat (b :: byte) < 256"
  using unsigned_less [of b] by simp

lemma uint_byte_bounds: "0 \<le> uint (b :: byte)" "uint b < 256"
  using uint_lt2p [of b] by simp_all

lemma numeral_plus_uint [simp]: "numeral n + uint (b :: byte) \<noteq> 0"
  using uint_byte_bounds(1) [of b] zero_less_numeral [of n, where ?'a = int] by linarith

lemma hex_byte_eq:
  "hex_byte b = [digit_char (unat b div 16), digit_char (unat b mod 16)]"
proof (cases "unat b < 16")
  case True
  have "digit_char 0 = CHR ''0''" by (simp add: digit_char_def)
  with True show ?thesis by (simp add: hex_byte_def digits.simps [of 16 "unat b"])
next
  case False
  moreover have "unat b div 16 < 16"
    using unat_byte_less [of b] by (simp add: less_mult_imp_div_less)
  ultimately show ?thesis
    by (simp add: hex_byte_def digits.simps [of 16 "unat b"] digits.simps [of 16 "unat b div 16"])
qed

lemma unhex_hex_byte: "unhex (hex_byte b @ s) = map_option (Cons b) (unhex s)"
proof -
  have "unat b div 16 < 16" and "unat b mod 16 < 16"
    using unat_byte_less [of b] by (simp_all add: less_mult_imp_div_less)
  moreover have "of_nat (16 * (unat b div 16) + unat b mod 16) = b" by simp
  ultimately show ?thesis by (simp add: hex_byte_eq split: option.split)
qed

lemma hex_byte_no_newline: "CHR 0x0A \<notin> set (hex_byte b)"
proof -
  have "unat b div 16 < 16" and "unat b mod 16 < 16"
    using unat_byte_less [of b] by (simp_all add: less_mult_imp_div_less)
  then show ?thesis
    using digit_char_not_sign [of "unat b div 16"] digit_char_not_sign [of "unat b mod 16"]
    by (auto simp: hex_byte_eq)
qed

section \<open>Two bytes as a number\<close>

text \<open>
  \<open>(static_cast<uint16_t>(a) << 8) | static_cast<uint16_t>(b)\<close>: the operands are promoted to
  \<open>int\<close>, so no bit is lost.
\<close>

definition be16 :: "byte \<Rightarrow> byte \<Rightarrow> int" where
  "be16 a b = (push_bit 8 (uint a) OR uint b)"

lemma be16_eq [code]: "be16 a b = 256 * uint a + uint b"
proof -
  have "push_bit 8 (uint a) AND uint b = 0"
  proof (rule bit_eqI)
    fix n
    have "uint b = take_bit 8 (uint b)"
      using uint_byte_bounds [of b] by (simp add: take_bit_eq_mod)
    then have "\<not> bit (uint b) n" if "8 \<le> n"
      using that by (metis bit_take_bit_iff not_less)
    then show "bit (push_bit 8 (uint a) AND uint b) n = bit (0::int) n"
      by (auto simp: bit_and_iff bit_push_bit_iff_int)
  qed
  then have "push_bit 8 (uint a) OR uint b = push_bit 8 (uint a) + uint b"
    by (simp add: disjunctive_add_eq_or)
  then show ?thesis by (simp add: be16_def push_bit_eq_mult)
qed

lemma be16_bounds: "0 \<le> be16 a b" "be16 a b < 65536"
  using uint_byte_bounds [of a] uint_byte_bounds [of b] by (simp_all add: be16_eq)

lemma be16_div_mod: "be16 a b div 256 = uint a" "be16 a b mod 256 = uint b"
  using uint_byte_bounds [of b] by (simp_all add: be16_eq)

lemma be16_inject: "be16 a b = be16 c d \<longleftrightarrow> a = c \<and> b = d"
  by (metis be16_div_mod word_uint_eqI)

text \<open>\<open>static_cast<unsigned short>(i)\<close> keeps the low sixteen bits.\<close>

definition to_ushort :: "int \<Rightarrow> 16 word" where
  "to_ushort i = word_of_int i"

lemma uint_to_ushort: "uint (to_ushort i) = i mod 65536"
  by (simp add: to_ushort_def uint_word_of_int)

lemma to_ushort_be16: "uint (to_ushort (be16 a b)) = be16 a b"
  using be16_bounds [of a b] by (simp add: uint_to_ushort)

section \<open>Reading base 16\<close>

text \<open>
  \<open>std::stoi(s, nullptr, 16)\<close> is \<open>strtol\<close> with base 16 followed by a range check: leading
  white space, an optional sign and an optional \<open>0x\<close> are skipped, the longest run of
  hexadecimal digits is the number and the rest of the string is ignored. No digit raises
  \<open>std::invalid_argument\<close>, a value outside \<open>int\<close> raises \<open>std::out_of_range\<close>.
\<close>

definition is_space :: "char \<Rightarrow> bool" where
  "is_space c \<longleftrightarrow> (let n = (of_char c :: nat) in (9 \<le> n \<and> n \<le> 13) \<or> n = 32)"

definition strip_sign :: "string \<Rightarrow> bool \<times> string" where
  "strip_sign s =
     (case s of
        [] \<Rightarrow> (False, [])
      | c # r \<Rightarrow> if c = CHR ''-'' then (True, r) else if c = CHR ''+'' then (False, r) else (False, s))"

definition strip_0x :: "string \<Rightarrow> string" where
  "strip_0x s =
     (case s of
        c # d # e # r \<Rightarrow>
          if c = CHR ''0'' \<and> (d = CHR ''x'' \<or> d = CHR ''X'') \<and> is_xdigit e then e # r else s
      | _ \<Rightarrow> s)"

definition strtol16 :: "string \<Rightarrow> int option" where
  "strtol16 s =
     (let (neg, s1) = strip_sign (dropWhile is_space s);
          ds = takeWhile is_xdigit (strip_0x s1);
          v = int (chars_value 16 ds)
      in if ds = [] then None else Some (if neg then - v else v))"

definition stoi16 :: "string \<Rightarrow> int res" where
  "stoi16 s =
     (case strtol16 s of
        None \<Rightarrow> Inl (Thrown Invalid_argument)
      | Some v \<Rightarrow> if - (2 ^ 31) \<le> v \<and> v < 2 ^ 31 then Inr v else Inl (Thrown Out_of_range))"

lemma stoi16_range: "stoi16 s = Inr v \<Longrightarrow> - (2 ^ 31) \<le> v \<and> v < 2 ^ 31"
  by (auto simp: stoi16_def split: option.splits if_splits)

lemma is_xdigit_not_sign:
  assumes "is_xdigit c"
  shows "\<not> is_space c" "c \<noteq> CHR ''-''" "c \<noteq> CHR ''+''" "c \<noteq> CHR ''x''" "c \<noteq> CHR ''X''"
  using assms by (auto simp: is_xdigit_def digit_val_def is_space_def Let_def split: if_splits)

lemma digit_val_bound: "digit_val c = Some d \<Longrightarrow> d < 16"
  by (auto simp: digit_val_def Let_def split: if_splits)

lemma not_xdigit [simp]: "\<not> is_xdigit (CHR ''x'')" "\<not> is_xdigit (CHR ''X'')"
  by (auto dest: is_xdigit_not_sign)

lemma chars_value_bound: "chars_value 16 s < 16 ^ length s"
proof -
  let ?ds = "map (\<lambda>c. case digit_val c of Some d \<Rightarrow> d | None \<Rightarrow> 0) s"
  have "d < 16" if "d \<in> set ?ds" for d
    using that by (auto split: option.splits dest: digit_val_bound)
  then have "digits_value 16 ?ds < 16 ^ length ?ds"
    by (rule digits_value_bound)
  then show ?thesis by (simp add: chars_value_def)
qed

lemma stoi16_xdigits:
  assumes "s \<noteq> []" "list_all is_xdigit s" "length s \<le> 7"
  shows "stoi16 s = Inr (int (chars_value 16 s))"
proof -
  obtain c r where s: "s = c # r" using assms(1) by (cases s) auto
  have c: "is_xdigit c" and r: "list_all is_xdigit r" using assms(2) s by simp_all
  have "strip_0x s = s"
    using r by (auto simp: strip_0x_def s split: list.split)
  moreover have "takeWhile is_xdigit s = s"
    using assms(2) by (simp add: list_all_iff)
  ultimately have "strtol16 s = Some (int (chars_value 16 s))"
    using is_xdigit_not_sign(1-3) [OF c] by (simp add: strtol16_def strip_sign_def s)
  moreover have "chars_value 16 s < 16 ^ 7"
    using chars_value_bound [of s] power_increasing [OF assms(3), of "16::nat"] by simp
  ultimately show ?thesis by (simp add: stoi16_def)
qed

text \<open>
  The decimal digits of a 16-bit number read as base 16: never out of range, and the number
  they denote is not the number printed unless it has one digit.
\<close>

definition decimal_as_hex :: "nat \<Rightarrow> nat" where
  "decimal_as_hex n = digits_value 16 (digits 10 n)"

lemma stoi16_to_string:
  assumes "0 \<le> i" "i < 65536"
  shows "stoi16 (to_string i) = Inr (int (decimal_as_hex (nat i)))"
proof -
  let ?ds = "digits 10 (nat i)"
  have d: "d < 16" if "d \<in> set ?ds" for d
    using digits_bound [of 10 d "nat i"] that by simp
  have len: "length ?ds \<le> 7"
    using length_digits [of 10 "nat i" 6] assms by simp
  have "list_all is_xdigit (map digit_char ?ds)"
    using d by (simp add: list_all_iff)
  then have "stoi16 (map digit_char ?ds) = Inr (int (chars_value 16 (map digit_char ?ds)))"
    using len by (intro stoi16_xdigits) simp_all
  then show ?thesis
    using assms d by (simp add: to_string_def decimal_as_hex_def chars_value_digit_chars)
qed

end
