(* ===== verification/Wave_Config.thy ===== *)
theory Wave_Config
  imports Cpp_Std
begin

text \<open>
  The wave configuration file as the driver reads it. JSON documents are a datatype; the file
  system, rapidjson's parser and rapidjson's schema validator are parameters (the record
  \<open>world\<close>), since none of them is in the repository. The schema literal of
  \<open>BaseRadioClient::loadWaveConfigIds\<close> (\<open>Node::loadWaveConfig\<close> has the same text but for one
  description) is written out, with the shape it demands of a document. Here too is the state
  of \<open>BaseRadioClient\<close>, its loader \<open>loadWaveConfigIds\<close>, the setter of the path and the lookup
  \<open>psidForDsrcMsgId\<close>, and the document of \<open>etc/wave.json\<close>.
\<close>

section \<open>JSON documents and the outside world\<close>

datatype json =
    JNull
  | JBool bool
  | JNumber string
  | JString string
  | JArray "json list"
  | JObject "(string \<times> json) list"

text \<open>
  \<open>file_text w f\<close> is what the file \<open>f\<close> holds, \<open>None\<close> when it cannot be opened;
  \<open>json_parse w t\<close> is the document rapidjson builds from the text \<open>t\<close>, \<open>None\<close> for
  \<open>HasParseError()\<close>; \<open>schema_accepts w s d\<close> is \<open>d.Accept(SchemaValidator(SchemaDocument(s)))\<close>.
\<close>

record world =
  file_text :: "string \<Rightarrow> string option"
  json_parse :: "string \<Rightarrow> json option"
  schema_accepts :: "json \<Rightarrow> json \<Rightarrow> bool"

text \<open>
  \<open>std::ifstream::open\<close> does not throw unless exceptions were enabled on the stream, and the
  driver does not enable them: a file that cannot be opened reads as an empty text.
\<close>

definition read_stream :: "world \<Rightarrow> string \<Rightarrow> string" where
  "read_stream w f = (case file_text w f of None \<Rightarrow> [] | Some t \<Rightarrow> t)"

section \<open>The schema\<close>

definition wave_schema_ids :: string where
  \<open>wave_schema_ids =
   ''{\<newline>'' @
   '' "$schema":"http://json-schema.org/draft-06/schema",\<newline>'' @
   '' "title":"Wave Config Schema",\<newline>'' @
   '' "description":"A simple schema to describe DSRC/Wave messages",\<newline>'' @
   ''  "type": "array",\<newline>'' @
   ''  "items": {\<newline>'' @
   ''    "type": "object",\<newline>'' @
   ''    "properties": {\<newline>'' @
   ''      "name": {\<newline>'' @
   ''        "description": "message type - abbreviated name",\<newline>'' @
   ''        "type": "string"\<newline>'' @
   ''      },\<newline>'' @
   ''      "psid": {\<newline>'' @
   ''        "description": "psid assigned to message type in decimal",\<newline>'' @
   ''        "type": "string"\<newline>'' @
   ''      },\<newline>'' @
   ''      "dsrc_msg_id": {\<newline>'' @
   ''        "description": "J2735 DSRCmsgID assigned to message type in decimal",\<newline>'' @
   ''        "type": "string"\<newline>'' @
   ''      },\<newline>'' @
   ''      "channel": {\<newline>'' @
   ''        "description": "DSRC radio channel assigned to message type in decimal",\<newline>'' @
   ''        "type": "string"\<newline>'' @
   ''      },\<newline>'' @
   ''      "priority": {\<newline>'' @
   ''        "description": "WSM Priotiy to use assigned to message type in decimal",\<newline>'' @
   ''        "type":"string"\<newline>'' @
   ''      }\<newline>'' @
   ''    },\<newline>'' @
   ''    "required":["name","psid","dsrc_msg_id","channel","priority"]  }\<newline>'' @
   ''}\<newline>''\<close>

definition wave_props :: "string list" where
  "wave_props = [''name'', ''psid'', ''dsrc_msg_id'', ''channel'', ''priority'']"

fun is_json_string :: "json \<Rightarrow> bool" where
  "is_json_string (JString s) = True"
| "is_json_string _ = False"

text \<open>
  What the schema demands: an array of objects that have the five properties, every
  occurrence of which is a string.
\<close>

fun conforms_item :: "json \<Rightarrow> bool" where
  "conforms_item (JObject ms) \<longleftrightarrow>
     list_all (\<lambda>(k, v). List.member wave_props k \<longrightarrow> is_json_string v) ms \<and>
     list_all (List.member (map fst ms)) wave_props"
| "conforms_item _ \<longleftrightarrow> False"

fun conforms_wave_schema :: "json \<Rightarrow> bool" where
  "conforms_wave_schema (JArray its) \<longleftrightarrow> list_all conforms_item its"
| "conforms_wave_schema _ \<longleftrightarrow> False"

text \<open>
  The documented behaviour of the validator the loaders rely on: a document it accepts for
  the schema text \<open>t\<close> has the shape \<open>t\<close> demands.
\<close>

definition validator_sound :: "world \<Rightarrow> string \<Rightarrow> bool" where
  "validator_sound w t \<longleftrightarrow>
     (\<forall>sd d. json_parse w t = Some sd \<and> schema_accepts w sd d \<longrightarrow> conforms_wave_schema d)"

section \<open>Access to a document\<close>

text \<open>
  \<open>entry[k].GetString()\<close> converted to \<open>std::string\<close>: rapidjson asserts that the member
  exists and is a string, \<open>operator[]\<close> finds the first member of the name, and the conversion
  from \<open>const char*\<close> stops at a NUL character.
\<close>

definition c_str :: "string \<Rightarrow> string" where
  "c_str s = takeWhile (\<lambda>c. c \<noteq> CHR 0x00) s"

definition get_string :: "json \<Rightarrow> string \<Rightarrow> string res" where
  "get_string d k =
     (case d of
        JObject ms \<Rightarrow>
          (case map_of ms k of
             Some (JString s) \<Rightarrow> Inr (c_str s)
           | _ \<Rightarrow> Inl Assertion_failed)
      | _ \<Rightarrow> Inl Assertion_failed)"

text \<open>The same field as a total function, for the statements about accepted documents.\<close>

definition field_text :: "json \<Rightarrow> string \<Rightarrow> string" where
  "field_text d k = (case get_string d k of Inr s \<Rightarrow> s | Inl e \<Rightarrow> [])"

lemma get_string_conforms:
  assumes "conforms_item d" "k \<in> set wave_props"
  shows "get_string d k = Inr (field_text d k)"
proof (cases d)
  case (JObject ms)
  from assms JObject have "k \<in> set (map fst ms)" by (auto simp: list_all_iff)
  then obtain v where v: "map_of ms k = Some v"
    by (metis image_set map_of_eq_None_iff option.exhaust)
  then have "(k, v) \<in> set ms" by (rule map_of_SomeD)
  with assms JObject have "is_json_string v" by (auto simp: list_all_iff)
  then obtain s where "v = JString s" by (cases v) auto
  with v JObject show ?thesis by (simp add: get_string_def field_text_def)
qed (use assms in auto)

section \<open>State of the base class\<close>

record base_client =
  wave_cfg_dsrc_msg_ids :: "string list"
  wave_cfg_psids :: "string list"
  wave_file_path :: string

definition base_init :: base_client where
  "base_init = \<lparr>wave_cfg_dsrc_msg_ids = [], wave_cfg_psids = [], wave_file_path = []\<rparr>"

definition set_wave_file_path :: "string \<Rightarrow> 'a base_client_scheme \<Rightarrow> 'a base_client_scheme" where
  "set_wave_file_path path c = c\<lparr>wave_file_path := path\<rparr>"

text \<open>The loop over \<open>doc.GetArray()\<close>: both lists grow by one string per entry.\<close>

fun push_ids :: "json list \<Rightarrow> 'a base_client_scheme \<Rightarrow> 'a base_client_scheme res" where
  "push_ids [] c = Inr c"
| "push_ids (it # its) c =
     bind_res (get_string it ''dsrc_msg_id'') (\<lambda>d.
     bind_res (get_string it ''psid'') (\<lambda>p.
     push_ids its (c\<lparr>wave_cfg_dsrc_msg_ids := wave_cfg_dsrc_msg_ids c @ [d],
                     wave_cfg_psids := wave_cfg_psids c @ [p]\<rparr>)))"

definition loadWaveConfigIds ::
    "world \<Rightarrow> string \<Rightarrow> 'a base_client_scheme \<Rightarrow> 'a base_client_scheme res" where
  "loadWaveConfigIds w fileName c =
     (case json_parse w wave_schema_ids of
        None \<Rightarrow> Inr c
      | Some sd \<Rightarrow>
          (case json_parse w (read_stream w fileName) of
             None \<Rightarrow> Inr c
           | Some doc \<Rightarrow>
               if \<not> schema_accepts w sd doc then Inr c
               else (case doc of JArray its \<Rightarrow> push_ids its c | _ \<Rightarrow> Inl Assertion_failed)))"

text \<open>\<open>psidForDsrcMsgId\<close> compares the entries in order and reads the other list at the same index.\<close>

fun psid_lookup :: "string \<Rightarrow> string list \<Rightarrow> nat \<Rightarrow> string list \<Rightarrow> string res" where
  "psid_lookup m [] i ps = Inr []"
| "psid_lookup m (d # ds) i ps = (if d = m then at ps i else psid_lookup m ds (Suc i) ps)"

definition psidForDsrcMsgId :: "'a base_client_scheme \<Rightarrow> string \<Rightarrow> string res" where
  "psidForDsrcMsgId c m = psid_lookup m (wave_cfg_dsrc_msg_ids c) 0 (wave_cfg_psids c)"

section \<open>The deployed configuration, \<open>etc/wave.json\<close>\<close>

definition wave_entry :: "string \<Rightarrow> string \<Rightarrow> string \<Rightarrow> string \<Rightarrow> string \<Rightarrow> json" where
  "wave_entry n p d ch pr =
     JObject [(''name'', JString n), (''psid'', JString p), (''dsrc_msg_id'', JString d),
              (''channel'', JString ch), (''priority'', JString pr)]"

definition wave_json :: json where
  "wave_json = JArray
  [wave_entry ''BSM'' ''0020'' ''20'' ''183'' ''6'',
   wave_entry ''MAP'' ''0082'' ''18'' ''183'' ''3'',
   wave_entry ''SPAT'' ''0082'' ''19'' ''183'' ''3'',
   wave_entry ''TIM'' ''0083'' ''31'' ''183'' ''3'',
   wave_entry ''PSM'' ''0027'' ''32'' ''183'' ''6'',
   wave_entry ''SensorDataSharingMessage'' ''8010'' ''41'' ''183'' ''6'',
   wave_entry ''MobilityRequest'' ''BFEE'' ''240'' ''183'' ''6'',
   wave_entry ''MobilityResponse'' ''BFEE'' ''241'' ''183'' ''6'',
   wave_entry ''MobilityOperation'' ''BFEE'' ''243'' ''183'' ''6'',
   wave_entry ''MobilityPath'' ''BFEE'' ''242'' ''183'' ''6'',
   wave_entry ''TrafficControlRequest'' ''8003'' ''244'' ''183'' ''6'',
   wave_entry ''TrafficControlMessage'' ''8003'' ''245'' ''183'' ''6'',
   wave_entry ''EmergencyVehicleResponse'' ''8005'' ''246'' ''183'' ''6'',
   wave_entry ''EmergencyVehicleAck'' ''8005'' ''247'' ''183'' ''6'']"

section \<open>What loading does\<close>

text \<open>The entries a loader finds in a file: those of an accepted array, and none otherwise.\<close>

definition accepted_entries :: "world \<Rightarrow> string \<Rightarrow> string \<Rightarrow> json list" where
  "accepted_entries w t f =
     (case (json_parse w t, json_parse w (read_stream w f)) of
        (Some sd, Some (JArray its)) \<Rightarrow> if schema_accepts w sd (JArray its) then its else []
      | _ \<Rightarrow> [])"

definition append_entries :: "json list \<Rightarrow> 'a base_client_scheme \<Rightarrow> 'a base_client_scheme" where
  "append_entries its c =
     c\<lparr>wave_cfg_dsrc_msg_ids :=
          wave_cfg_dsrc_msg_ids c @ map (\<lambda>it. field_text it ''dsrc_msg_id'') its,
       wave_cfg_psids := wave_cfg_psids c @ map (\<lambda>it. field_text it ''psid'') its\<rparr>"

lemma append_entries_Nil [simp]: "append_entries [] c = c"
  by (simp add: append_entries_def)

lemma push_ids_conforms:
  "list_all conforms_item its \<Longrightarrow> push_ids its c = Inr (append_entries its c)"
proof (induction its arbitrary: c)
  case (Cons it its)
  have "get_string it k = Inr (field_text it k)" if "k \<in> set wave_props" for k
    using Cons.prems that by (simp add: get_string_conforms)
  then have "get_string it ''dsrc_msg_id'' = Inr (field_text it ''dsrc_msg_id'')"
    and "get_string it ''psid'' = Inr (field_text it ''psid'')"
    by (simp_all add: wave_props_def)
  with Cons show ?case by (simp add: append_entries_def)
qed simp

lemma loadWaveConfigIds_eq:
  assumes "validator_sound w wave_schema_ids"
  shows "loadWaveConfigIds w f c = Inr (append_entries (accepted_entries w wave_schema_ids f) c)"
proof (cases "json_parse w wave_schema_ids")
  case None
  then show ?thesis by (simp add: loadWaveConfigIds_def accepted_entries_def)
next
  case sd: (Some sd)
  show ?thesis
  proof (cases "json_parse w (read_stream w f)")
    case None
    with sd show ?thesis by (simp add: loadWaveConfigIds_def accepted_entries_def)
  next
    case (Some doc)
    show ?thesis
    proof (cases "schema_accepts w sd doc")
      case True
      with assms sd have "conforms_wave_schema doc" by (auto simp: validator_sound_def)
      then obtain its where "doc = JArray its" and "list_all conforms_item its"
        by (cases doc) auto
      with sd Some True show ?thesis
        by (simp add: loadWaveConfigIds_def accepted_entries_def push_ids_conforms)
    next
      case False
      with sd Some show ?thesis
        by (auto simp: loadWaveConfigIds_def accepted_entries_def split: json.split)
    qed
  qed
qed

section \<open>Invariant: the two lists run in parallel\<close>

definition wf_base :: "'a base_client_scheme \<Rightarrow> bool" where
  "wf_base c \<longleftrightarrow> length (wave_cfg_dsrc_msg_ids c) = length (wave_cfg_psids c)"

lemma wf_base_init [simp, step_inv]: "wf_base base_init"
  by (simp add: wf_base_def base_init_def)

lemma wf_base_set_path [simp, step_inv]: "wf_base (set_wave_file_path p c) = wf_base c"
  by (simp add: wf_base_def set_wave_file_path_def)

lemma wf_base_append [simp, step_inv]: "wf_base (append_entries its c) = wf_base c"
  by (simp add: wf_base_def append_entries_def)

lemma push_ids_wf: "push_ids its c = Inr c' \<Longrightarrow> wf_base c \<Longrightarrow> wf_base c'"
  by (induction its arbitrary: c) (auto simp: bind_res_eq_Inr wf_base_def)

lemma load_wf [step_inv]: "loadWaveConfigIds w f c = Inr c' \<Longrightarrow> wf_base c \<Longrightarrow> wf_base c'"
  by (auto simp: loadWaveConfigIds_def split: option.splits if_splits json.splits
        dest: push_ids_wf)

text \<open>The table the two lists represent, and the lookup as a map lookup.\<close>

definition psid_table :: "'a base_client_scheme \<Rightarrow> string \<rightharpoonup> string" where
  "psid_table c = map_of (zip (wave_cfg_dsrc_msg_ids c) (wave_cfg_psids c))"

lemma psid_lookup_eq:
  "i + length ds = length ps \<Longrightarrow>
   psid_lookup m ds i ps =
     Inr (case map_of (zip ds (drop i ps)) m of None \<Rightarrow> [] | Some p \<Rightarrow> p)"
proof (induction ds arbitrary: i)
  case (Cons d ds)
  then have "i < length ps" by simp
  then have "drop i ps = ps ! i # drop (Suc i) ps" by (simp add: Cons_nth_drop_Suc)
  with Cons \<open>i < length ps\<close> show ?case by simp
qed simp

lemma psidForDsrcMsgId_eq:
  "wf_base c \<Longrightarrow>
   psidForDsrcMsgId c m = Inr (case psid_table c m of None \<Rightarrow> [] | Some p \<Rightarrow> p)"
  by (simp add: psidForDsrcMsgId_def psid_table_def wf_base_def psid_lookup_eq)

section \<open>The deployed configuration loaded\<close>

definition deployed_ids :: "string list" where
  "deployed_ids = [''20'', ''18'', ''19'', ''31'', ''32'', ''41'', ''240'', ''241'', ''243'', ''242'',
     ''244'', ''245'', ''246'', ''247'']"

definition deployed_psids :: "string list" where
  "deployed_psids = [''0020'', ''0082'', ''0082'', ''0083'', ''0027'', ''8010'', ''BFEE'', ''BFEE'',
     ''BFEE'', ''BFEE'', ''8003'', ''8003'', ''8005'', ''8005'']"

lemma wave_json_conforms: "conforms_wave_schema wave_json"
  by (simp add: wave_json_def wave_entry_def wave_props_def)

lemma field_text_wave_entry [simp]:
  "field_text (wave_entry n p d ch pr) ''dsrc_msg_id'' = c_str d"
  "field_text (wave_entry n p d ch pr) ''psid'' = c_str p"
  "field_text (wave_entry n p d ch pr) ''name'' = c_str n"
  "field_text (wave_entry n p d ch pr) ''channel'' = c_str ch"
  "field_text (wave_entry n p d ch pr) ''priority'' = c_str pr"
  by (simp_all add: field_text_def get_string_def wave_entry_def)

text \<open>A world in which one file exists and holds the deployed document.\<close>

definition deployed_text :: string where
  "deployed_text = ''etc/wave.json''"

definition deployed_world :: "string \<Rightarrow> world" where
  "deployed_world path =
     \<lparr>file_text = (\<lambda>f. if f = path then Some deployed_text else None),
      json_parse = (\<lambda>t. if t = deployed_text then Some wave_json
                        else if t = [] then None else Some JNull),
      schema_accepts = (\<lambda>sd d. conforms_wave_schema d)\<rparr>"

lemma deployed_world_sound [simp]: "validator_sound (deployed_world path) t"
  by (simp add: validator_sound_def deployed_world_def)

lemma deployed_entries:
  "accepted_entries (deployed_world path) t path =
     (if t = [] then [] else case wave_json of JArray its \<Rightarrow> its | _ \<Rightarrow> [])"
proof -
  obtain its where its: "wave_json = JArray its"
    by (simp add: wave_json_def)
  have "read_stream (deployed_world path) path = deployed_text"
    by (simp add: read_stream_def deployed_world_def)
  then show ?thesis
    using wave_json_conforms
    by (simp add: accepted_entries_def deployed_world_def its deployed_text_def)
qed

lemma c_str_id: "CHR 0x00 \<notin> set s \<Longrightarrow> c_str s = s"
  by (auto simp: c_str_def takeWhile_eq_all_conv)

lemma append_deployed:
  "append_entries (accepted_entries (deployed_world path) wave_schema_ids path) c =
     c\<lparr>wave_cfg_dsrc_msg_ids := wave_cfg_dsrc_msg_ids c @ deployed_ids,
       wave_cfg_psids := wave_cfg_psids c @ deployed_psids\<rparr>"
  by (simp add: append_entries_def deployed_entries wave_schema_ids_def wave_json_def
        deployed_ids_def deployed_psids_def c_str_id)

lemma load_deployed:
  "loadWaveConfigIds (deployed_world path) path c =
     Inr (c\<lparr>wave_cfg_dsrc_msg_ids := wave_cfg_dsrc_msg_ids c @ deployed_ids,
            wave_cfg_psids := wave_cfg_psids c @ deployed_psids\<rparr>)"
  by (simp add: loadWaveConfigIds_eq append_deployed)

end
