(* ===== verification/Base_Radio_Client.thy ===== *)
theory Base_Radio_Client
  imports Wave_Config
begin

text \<open>
  \<open>BaseRadioClient\<close>: the checks on a received datagram and \<open>process\<close>, the scan that finds a
  J2735 MessageFrame in it (\<open>base_radio_client.cpp\<close>). Each operation takes the state
  \<open>base_client\<close> (or an extension of it: the UDP and the MQTT client are record extensions) and
  returns its result with the new state. \<open>process\<close> returns the list of \<open>onMessageReceived\<close>
  signals it emits, each with the message and its identifier.

  First come the operations as the source has them, then their evaluation once the
  configuration is loaded, then a description of the scan as "the first index at which a frame
  is acceptable" and the lemma that \<open>process\<close> computes it.
\<close>

type_synonym received = "bytes \<times> 16 word"

section \<open>Frame overheads\<close>

definition long_frame :: nat where "long_frame = 4"
definition short_frame :: nat where "short_frame = 3"

text \<open>The largest number of bytes \<open>process\<close> looks at from a candidate on.\<close>

definition max_message :: nat where "max_message = 16383"

lemmas frame_consts = long_frame_def short_frame_def max_message_def

section \<open>The checks\<close>

text \<open>
  \<open>isValidMsgSize\<close>: compares the length field of \<open>msg_vec\<close> with the number of bytes of \<open>entry\<close>
  behind the header. Both constructions of a vector from \<open>entry.begin() + k\<close> are undefined when
  \<open>k\<close> is past the end.
\<close>

definition isValidMsgSize :: "bytes \<Rightarrow> nat \<Rightarrow> bytes \<Rightarrow> bool res" where
  "isValidMsgSize msg_vec start_index entry =
     (if length msg_vec > 127 then
        bind_res (vec_from entry (start_index + long_frame)) (\<lambda>long_vec.
        bind_res (at msg_vec 2) (\<lambda>b2.
        bind_res (at msg_vec 3) (\<lambda>b3.
          Inr (be16 (b2 AND 0x7F) b3 = int (length long_vec)))))
      else if length msg_vec < 128 \<and> length msg_vec \<ge> 3 then
        bind_res (vec_from entry (start_index + short_frame)) (\<lambda>short_vec.
        bind_res (at msg_vec 2) (\<lambda>b2.
          Inr (uint b2 = int (length short_vec))))
      else Inr False)"

text \<open>\<open>(entry[i] << 8) | entry[i + 1]\<close>.\<close>

definition u16_at :: "bytes \<Rightarrow> nat \<Rightarrow> int res" where
  "u16_at entry i =
     bind_res (at entry i) (\<lambda>a. bind_res (at entry (i + 1)) (\<lambda>b. Inr (be16 a b)))"

text \<open>The loop of \<open>isPossiblePSID\<close>: an entry that is not a number throws.\<close>

fun psid_scan :: "string \<Rightarrow> string list \<Rightarrow> bool res" where
  "psid_scan m [] = Inr False"
| "psid_scan m (p # ps) =
     bind_res (stoi16 p) (\<lambda>v. if m = to_string v then Inr True else psid_scan m ps)"

definition isPossiblePSID ::
    "world \<Rightarrow> string \<Rightarrow> 'a base_client_scheme \<Rightarrow> (bool \<times> 'a base_client_scheme) res" where
  "isPossiblePSID w m c =
     (if wave_cfg_psids c = [] then
        (if wave_file_path c = [] then Inr (False, c)
         else bind_res (loadWaveConfigIds w (wave_file_path c) c) (\<lambda>c'.
              bind_res (psid_scan m (wave_cfg_psids c')) (\<lambda>b. Inr (b, c'))))
      else bind_res (psid_scan m (wave_cfg_psids c)) (\<lambda>b. Inr (b, c)))"

text \<open>
  The two nested loops of \<open>isValidMsgAssumingBSMPSID\<close>. The first argument is the number of
  iterations left; neither loop compares its index with the size of \<open>entry\<close>.
\<close>

fun bsm_id_scan :: "nat \<Rightarrow> nat \<Rightarrow> bytes \<Rightarrow> bool res" where
  "bsm_id_scan 0 j entry = Inr False"
| "bsm_id_scan (Suc n) j entry =
     bind_res (u16_at entry j) (\<lambda>possible_msg_id.
       if possible_msg_id = 20 then Inr True else bsm_id_scan n (j + 1) entry)"

fun element_id_scan :: "nat \<Rightarrow> nat \<Rightarrow> bytes \<Rightarrow> bool res" where
  "element_id_scan 0 i entry = Inr False"
| "element_id_scan (Suc n) i entry =
     bind_res (u16_at entry i) (\<lambda>element_id.
       if element_id = 896 then
         bind_res (bsm_id_scan 6 i entry) (\<lambda>found.
           if found then Inr True else element_id_scan n (i + 1) entry)
       else element_id_scan n (i + 1) entry)"

definition isValidMsgAssumingBSMPSID :: "nat \<Rightarrow> bytes \<Rightarrow> bool res" where
  "isValidMsgAssumingBSMPSID start_index entry = element_id_scan 6 start_index entry"

definition IsValidMsgID ::
    "world \<Rightarrow> string \<Rightarrow> 'a base_client_scheme \<Rightarrow> (bool \<times> 'a base_client_scheme) res" where
  "IsValidMsgID w m c =
     (if wave_cfg_dsrc_msg_ids c = [] then
        (if wave_file_path c = [] then Inr (False, c)
         else bind_res (loadWaveConfigIds w (wave_file_path c) c) (\<lambda>c'.
              Inr (list_ex (\<lambda>d. m = d) (wave_cfg_dsrc_msg_ids c'), c')))
      else Inr (list_ex (\<lambda>d. m = d) (wave_cfg_dsrc_msg_ids c), c))"

section \<open>The scan\<close>

text \<open>
  The \<open>for\<close> loop of \<open>process\<close> from index \<open>i\<close> on; \<open>break\<close> returns, \<open>continue\<close> goes on at \<open>i + 1\<close>. The subtraction in
  the bound is that of natural numbers; in the code it is that of \<open>size_t\<close> and wraps below three bytes, where
  \<open>process\<close> does not get to the loop. \<open>Scan_Loop\<close> proves \<open>process\<close> equal to the loop on 64-bit words.
\<close>

function process_loop ::
    "world \<Rightarrow> bytes \<Rightarrow> nat \<Rightarrow> 'a base_client_scheme \<Rightarrow> (received list \<times> 'a base_client_scheme) res"
where
  "process_loop w entry i c =
     (if i < length entry - 3 then
        bind_res (u16_at entry i) (\<lambda>msg_id.
        bind_res (IsValidMsgID w (to_string msg_id) c) (\<lambda>(valid, c1).
          if \<not> valid then process_loop w entry (i + 1) c1
          else if i + short_frame \<ge> length entry then Inr ([], c1)
          else
            bind_res (vec_from entry i) (\<lambda>msg_vec.
              if length msg_vec > max_message then Inr ([], c1)
              else
                bind_res (isValidMsgSize msg_vec i entry) (\<lambda>size_ok.
                  if \<not> size_ok then process_loop w entry (i + 1) c1
                  else
                    bind_res (isPossiblePSID w (to_string msg_id) c1) (\<lambda>(possible, c2).
                    bind_res (if \<not> possible then Inr True
                              else bind_res (isValidMsgAssumingBSMPSID i entry) (\<lambda>b. Inr (\<not> b)))
                      (\<lambda>shouldProcess.
                        if shouldProcess then Inr ([(msg_vec, to_ushort msg_id)], c2)
                        else process_loop w entry (i + 1) c2))))))
      else Inr ([], c))"
  by pat_completeness auto
termination
  by (relation "measure (\<lambda>(w, entry, i, c). length entry - i)") auto

declare process_loop.simps [simp del]

definition process ::
    "world \<Rightarrow> bytes \<Rightarrow> 'a base_client_scheme \<Rightarrow> (received list \<times> 'a base_client_scheme) res" where
  "process w entry c =
     (if entry = [] \<or> length entry < 3 then Inr ([], c) else process_loop w entry 0 c)"

section \<open>Evaluation of the checks\<close>

definition u16 :: "bytes \<Rightarrow> nat \<Rightarrow> int" where
  "u16 entry i = be16 (entry ! i) (entry ! (i + 1))"

lemma u16_at_in [simp, res_simps]: "i + 1 < length entry \<Longrightarrow> u16_at entry i = Inr (u16 entry i)"
  by (simp add: u16_at_def u16_def)

lemma u16_at_out [simp, res_simps]: "length entry \<le> i + 1 \<Longrightarrow> u16_at entry i = Inl Out_of_bounds"
  by (cases "i < length entry") (simp_all add: u16_at_def)

text \<open>The length field agrees with the bytes that are there.\<close>

definition size_ok :: "bytes \<Rightarrow> bool" where
  "size_ok m \<longleftrightarrow>
     (if length m > 127 then be16 (m ! 2 AND 0x7F) (m ! 3) = int (length m) - 4
      else uint (m ! 2) = int (length m) - 3)"

lemma isValidMsgSize_drop [wave_simps]:
  assumes "i + 4 \<le> length entry"
  shows "isValidMsgSize (drop i entry) i entry = Inr (size_ok (drop i entry))"
  using assms by (auto simp: isValidMsgSize_def size_ok_def frame_consts)

lemma bsm_id_scan_eq:
  "j + n < length entry \<Longrightarrow>
   bsm_id_scan n j entry = Inr (list_ex (\<lambda>k. u16 entry k = 20) [j..<j + n])"
  by (induction n arbitrary: j) (simp_all add: upt_conv_Cons del: upt_Suc)

definition bsm_hidden :: "bytes \<Rightarrow> nat \<Rightarrow> bool" where
  "bsm_hidden entry i \<longleftrightarrow>
     list_ex (\<lambda>k. u16 entry k = 896 \<and> list_ex (\<lambda>l. u16 entry l = 20) [k..<k + 6]) [i..<i + 6]"

lemma element_id_scan_eq:
  "i + n + 5 < length entry \<Longrightarrow>
   element_id_scan n i entry =
     Inr (list_ex (\<lambda>k. u16 entry k = 896 \<and> list_ex (\<lambda>l. u16 entry l = 20) [k..<k + 6]) [i..<i + n])"
  by (induction n arbitrary: i) (simp_all add: bsm_id_scan_eq upt_conv_Cons del: upt_Suc)

lemma isValidMsgAssumingBSMPSID_eq [wave_simps]:
  "i + 11 < length entry \<Longrightarrow> isValidMsgAssumingBSMPSID i entry = Inr (bsm_hidden entry i)"
  by (simp add: isValidMsgAssumingBSMPSID_def bsm_hidden_def element_id_scan_eq)

section \<open>Evaluation once the configuration is loaded\<close>

definition loaded :: "'a base_client_scheme \<Rightarrow> bool" where
  "loaded c \<longleftrightarrow> wave_cfg_dsrc_msg_ids c \<noteq> [] \<and> wf_base c"

text \<open>The numbers the configured PSIDs denote, when every one of them is a number.\<close>

definition psids_denote :: "'a base_client_scheme \<Rightarrow> int list \<Rightarrow> bool" where
  "psids_denote c vs \<longleftrightarrow> map stoi16 (wave_cfg_psids c) = map Inr vs"

lemma loaded_psids: "loaded c \<Longrightarrow> wave_cfg_psids c \<noteq> []"
  by (auto simp: loaded_def wf_base_def)

lemma IsValidMsgID_loaded [wave_simps]:
  "loaded c \<Longrightarrow> IsValidMsgID w m c = Inr (m \<in> set (wave_cfg_dsrc_msg_ids c), c)"
  by (auto simp: IsValidMsgID_def loaded_def list_ex_iff)

lemma psid_scan_eq:
  "map stoi16 ps = map Inr vs \<Longrightarrow> psid_scan (to_string n) ps = Inr (n \<in> set vs)"
  by (induction ps arbitrary: vs) (auto simp: Cons_eq_map_conv)

lemma isPossiblePSID_loaded [wave_simps]:
  "loaded c \<Longrightarrow> psids_denote c vs \<Longrightarrow> isPossiblePSID w (to_string n) c = Inr (n \<in> set vs, c)"
  using loaded_psids [of c]
  by (simp add: isPossiblePSID_def psids_denote_def psid_scan_eq)

section \<open>The scan as a search for the first acceptable index\<close>

definition valid_id :: "'a base_client_scheme \<Rightarrow> bytes \<Rightarrow> nat \<Rightarrow> bool" where
  "valid_id c entry i \<longleftrightarrow> to_string (u16 entry i) \<in> set (wave_cfg_dsrc_msg_ids c)"

definition frame_here :: "'a base_client_scheme \<Rightarrow> int list \<Rightarrow> bytes \<Rightarrow> nat \<Rightarrow> bool" where
  "frame_here c vs entry i \<longleftrightarrow>
     valid_id c entry i \<and> size_ok (drop i entry) \<and>
     \<not> (u16 entry i \<in> set vs \<and> bsm_hidden entry i)"

definition first_frame_from ::
    "'a base_client_scheme \<Rightarrow> int list \<Rightarrow> bytes \<Rightarrow> nat \<Rightarrow> received list" where
  "first_frame_from c vs entry i =
     (if list_ex (valid_id c entry) [i..<length entry - max_message] then []
      else (case find (frame_here c vs entry) [i..<length entry - 3] of
              None \<Rightarrow> []
            | Some k \<Rightarrow> [(drop k entry, to_ushort (u16 entry k))]))"

text \<open>
  Enough bytes follow every candidate whose identifier is also a PSID: the window that
  \<open>isValidMsgAssumingBSMPSID\<close> reads, twelve bytes, fits.
\<close>

definition psid_window :: "'a base_client_scheme \<Rightarrow> int list \<Rightarrow> bytes \<Rightarrow> bool" where
  "psid_window c vs entry \<longleftrightarrow>
     list_all (\<lambda>i. valid_id c entry i \<and> size_ok (drop i entry) \<and> u16 entry i \<in> set vs
                   \<longrightarrow> i + 11 < length entry) [0..<length entry - 3]"

lemma first_frame_from_skip:
  assumes "i < length entry - 3" "\<not> frame_here c vs entry i" "i < length entry - max_message \<Longrightarrow> \<not> valid_id c entry i"
  shows "first_frame_from c vs entry i = first_frame_from c vs entry (Suc i)"
  using assms
  by (cases "i < length entry - max_message") (simp_all add: first_frame_from_def upt_conv_Cons)

lemma first_frame_from_hit:
  assumes "i < length entry - 3" "frame_here c vs entry i" "length entry - max_message \<le> i"
  shows "first_frame_from c vs entry i = [(drop i entry, to_ushort (u16 entry i))]"
  using assms by (simp add: first_frame_from_def upt_conv_Cons)

lemma first_frame_from_stop:
  assumes "i < length entry - max_message" "valid_id c entry i"
  shows "first_frame_from c vs entry i = []"
  using assms by (simp add: first_frame_from_def upt_conv_Cons)

text \<open>One turn of the loop with a loaded configuration, by what is found at its index.\<close>

lemma process_turn_other:
  assumes "loaded c" "i < length entry - 3" "\<not> valid_id c entry i"
  shows "process_loop w entry i c = process_loop w entry (i + 1) c"
  using assms by (simp add: process_loop.simps [of w entry i c] IsValidMsgID_loaded valid_id_def)

lemma process_turn_big:
  assumes "loaded c" "i < length entry - 3" "valid_id c entry i" "i < length entry - max_message"
  shows "process_loop w entry i c = Inr ([], c)"
proof -
  have "16383 < length entry - i" using assms(4) by (simp add: max_message_def)
  with assms show ?thesis
    by (simp add: process_loop.simps [of w entry i c] IsValidMsgID_loaded valid_id_def frame_consts)
qed

lemma process_turn_fit:
  assumes "loaded c" "psids_denote c vs" "psid_window c vs entry"
    and "i < length entry - 3" "valid_id c entry i" "length entry - max_message \<le> i"
  shows "process_loop w entry i c =
    (if frame_here c vs entry i then Inr ([(drop i entry, to_ushort (u16 entry i))], c)
     else process_loop w entry (i + 1) c)"
proof -
  have room: "i + 11 < length entry" if "size_ok (drop i entry)" "u16 entry i \<in> set vs"
    using assms(3-5) that by (simp add: psid_window_def list_all_iff)
  have le: "length entry - i \<le> 16383" and ge: "\<not> length entry \<le> i + 3"
    using assms(4,6) by (simp_all add: max_message_def)
  have "process_loop w entry i c =
      (if size_ok (drop i entry) \<and> \<not> (u16 entry i \<in> set vs \<and> bsm_hidden entry i)
       then Inr ([(drop i entry, to_ushort (u16 entry i))], c) else process_loop w entry (i + 1) c)"
    using assms(1,2,4,5) room le ge
    by (simp add: process_loop.simps [of w entry i c] wave_simps valid_id_def frame_consts)
  with assms(5) show ?thesis by (simp add: frame_here_def)
qed

lemma process_loop_first:
  assumes "loaded c" "psids_denote c vs" "psid_window c vs entry"
  shows "process_loop w entry i c = Inr (first_frame_from c vs entry i, c)"
proof (induction "length entry - i" arbitrary: i rule: less_induct)
  case less
  show ?case
  proof (cases "i < length entry - 3")
    case False
    then show ?thesis
      by (simp add: process_loop.simps [of w entry i c] first_frame_from_def max_message_def)
  next
    case True
    then have next_i: "process_loop w entry (i + 1) c = Inr (first_frame_from c vs entry (Suc i), c)"
      using less by simp
    consider (other) "\<not> valid_id c entry i"
      | (big) "valid_id c entry i" "i < length entry - max_message"
      | (fit) "valid_id c entry i" "length entry - max_message \<le> i"
      by linarith
    then show ?thesis
    proof cases
      case other
      then have "first_frame_from c vs entry i = first_frame_from c vs entry (Suc i)"
        using True by (intro first_frame_from_skip) (simp_all add: frame_here_def)
      with process_turn_other [OF assms(1) True other] next_i show ?thesis by simp
    next
      case big
      then have "first_frame_from c vs entry i = []" by (intro first_frame_from_stop)
      with process_turn_big [OF assms(1) True big] show ?thesis by simp
    next
      case fit
      note body = process_turn_fit [OF assms True fit]
      show ?thesis
      proof (cases "frame_here c vs entry i")
        case hit: True
        with fit True body show ?thesis by (simp add: first_frame_from_hit)
      next
        case miss: False
        then have "first_frame_from c vs entry i = first_frame_from c vs entry (Suc i)"
          using True fit by (intro first_frame_from_skip) simp_all
        with miss body next_i show ?thesis by simp
      qed
    qed
  qed
qed

lemma process_first:
  assumes "loaded c" "psids_denote c vs" "psid_window c vs entry"
  shows "process w entry c = Inr (first_frame_from c vs entry 0, c)"
proof (cases "length entry < 3")
  case True
  then have "first_frame_from c vs entry 0 = []"
    by (simp add: first_frame_from_def max_message_def)
  with True show ?thesis by (auto simp: process_def)
next
  case False
  with assms show ?thesis by (auto simp: process_def process_loop_first)
qed

section \<open>What holds for every outcome of the scan\<close>

text \<open>How the operations may change the state: the lists only grow, in parallel.\<close>

definition base_ext :: "'a base_client_scheme \<Rightarrow> 'a base_client_scheme \<Rightarrow> bool" where
  "base_ext c c' \<longleftrightarrow>
     set (wave_cfg_dsrc_msg_ids c) \<subseteq> set (wave_cfg_dsrc_msg_ids c') \<and>
     wave_file_path c' = wave_file_path c \<and> base_client.more c' = base_client.more c \<and>
     (wf_base c \<longrightarrow> wf_base c')"

lemma base_ext_refl [simp, intro]: "base_ext c c"
  by (simp add: base_ext_def)

lemma base_ext_trans: "base_ext a b \<Longrightarrow> base_ext b c \<Longrightarrow> base_ext a c"
  by (auto simp: base_ext_def)

lemma push_ids_ext: "push_ids its c = Inr c' \<Longrightarrow> base_ext c c'"
proof (induction its arbitrary: c)
  case (Cons it its)
  then obtain d p where
    "push_ids its (c\<lparr>wave_cfg_dsrc_msg_ids := wave_cfg_dsrc_msg_ids c @ [d],
                     wave_cfg_psids := wave_cfg_psids c @ [p]\<rparr>) = Inr c'"
    by (auto simp: bind_res_eq_Inr)
  from Cons.IH [OF this] show ?case by (simp add: base_ext_def wf_base_def)
qed simp

lemma load_ext: "loadWaveConfigIds w f c = Inr c' \<Longrightarrow> base_ext c c'"
  by (auto simp: loadWaveConfigIds_def split: option.splits if_splits json.splits
        dest: push_ids_ext)

lemma IsValidMsgID_result:
  "IsValidMsgID w m c = Inr (b, c') \<Longrightarrow>
   base_ext c c' \<and> b = (m \<in> set (wave_cfg_dsrc_msg_ids c'))"
  by (auto simp: IsValidMsgID_def bind_res_eq_Inr list_ex_iff load_ext split: if_splits)

lemma isPossiblePSID_result: "isPossiblePSID w m c = Inr (b, c') \<Longrightarrow> base_ext c c'"
  by (auto simp: isPossiblePSID_def bind_res_eq_Inr load_ext split: if_splits)

text \<open>What a delivered message is known to be.\<close>

definition delivered_from :: "'a base_client_scheme \<Rightarrow> bytes \<Rightarrow> received \<Rightarrow> nat \<Rightarrow> bool" where
  "delivered_from c entry r k \<longleftrightarrow>
     k + 3 < length entry \<and> r = (drop k entry, to_ushort (u16 entry k)) \<and>
     to_string (u16 entry k) \<in> set (wave_cfg_dsrc_msg_ids c) \<and>
     size_ok (drop k entry) \<and> length (drop k entry) \<le> max_message"

lemma process_loop_outcome:
  "process_loop w entry i c = Inr (rs, c') \<Longrightarrow>
   base_ext c c' \<and> (rs = [] \<or> (\<exists>r k. rs = [r] \<and> delivered_from c' entry r k))"
proof (induction "length entry - i" arbitrary: i c rule: less_induct)
  case less
  show ?case
  proof (cases "i < length entry - 3")
    case False
    with less.prems show ?thesis by (simp add: process_loop.simps [of w entry i c])
  next
    case True
    then have IH: "process_loop w entry (i + 1) d = Inr (rs, c') \<Longrightarrow>
        base_ext d c' \<and> (rs = [] \<or> (\<exists>r k. rs = [r] \<and> delivered_from c' entry r k))" for d
      using less.hyps [of "i + 1" d] by simp
    from True less.prems obtain b c1 where v: "IsValidMsgID w (to_string (u16 entry i)) c = Inr (b, c1)"
      by (auto simp: process_loop.simps [of w entry i c] bind_res_eq_Inr)
    note v' = IsValidMsgID_result [OF v]
    show ?thesis
    proof (cases "b \<and> length entry - i \<le> max_message \<and> size_ok (drop i entry)")
      case no: False
      with True less.prems v IH [of c1] v' show ?thesis
        by (auto simp: process_loop.simps [of w entry i c] isValidMsgSize_drop short_frame_def
              split: if_splits intro: base_ext_trans)
    next
      case yes: True
      with True less.prems v obtain pos c2 where p: "isPossiblePSID w (to_string (u16 entry i)) c1 = Inr (pos, c2)"
        by (auto simp: process_loop.simps [of w entry i c] isValidMsgSize_drop bind_res_eq_Inr
              frame_consts split: if_splits)
      note p' = isPossiblePSID_result [OF p]
      have ext: "base_ext c c2" using v' p' by (blast intro: base_ext_trans)
      have here: "delivered_from c2 entry (drop i entry, to_ushort (u16 entry i)) i"
        using True yes v' p' by (auto simp: delivered_from_def base_ext_def)
      have "(rs, c') = ([(drop i entry, to_ushort (u16 entry i))], c2)
          \<or> process_loop w entry (i + 1) c2 = Inr (rs, c')"
        using True yes v p less.prems
        by (auto simp: process_loop.simps [of w entry i c] isValidMsgSize_drop bind_res_eq_Inr
              frame_consts split: if_splits)
      with IH [of c2] ext here show ?thesis by (auto intro: base_ext_trans)
    qed
  qed
qed

lemma process_outcome:
  "process w entry c = Inr (rs, c') \<Longrightarrow>
   base_ext c c' \<and> (rs = [] \<or> (\<exists>r k. rs = [r] \<and> delivered_from c' entry r k))"
  using process_loop_outcome [of w entry 0 c rs c'] by (auto simp: process_def split: if_splits)

lemma process_wf [step_inv]: "process w entry c = Inr (rs, c') \<Longrightarrow> wf_base c \<Longrightarrow> wf_base c'"
  by (drule process_outcome) (simp add: base_ext_def)

section \<open>Loading on first use\<close>

text \<open>
  The configuration is read when the first candidate is examined. With an accepted, non-empty
  file the scan behaves as if it had been loaded before; with none nothing is ever delivered.
\<close>

lemma IsValidMsgID_lazy:
  assumes "validator_sound w wave_schema_ids" "wave_cfg_dsrc_msg_ids c = []" "wave_file_path c \<noteq> []"
  shows "IsValidMsgID w m c =
    (let c' = append_entries (accepted_entries w wave_schema_ids (wave_file_path c)) c
     in Inr (m \<in> set (wave_cfg_dsrc_msg_ids c'), c'))"
  using assms by (auto simp: IsValidMsgID_def loadWaveConfigIds_eq list_ex_iff Let_def)

lemma process_loop_lazy:
  assumes "validator_sound w wave_schema_ids" "wave_cfg_dsrc_msg_ids c = []" "wave_cfg_psids c = []"
    "wave_file_path c \<noteq> []" "its = accepted_entries w wave_schema_ids (wave_file_path c)"
    "its \<noteq> []" "i + 3 < length entry"
  shows "process_loop w entry i c = process_loop w entry i (append_entries its c)"
proof -
  let ?c = "append_entries its c"
  have "loaded ?c"
    using assms by (simp add: loaded_def wf_base_def append_entries_def)
  then have "IsValidMsgID w m c = IsValidMsgID w m ?c" for m
    using assms by (simp add: IsValidMsgID_loaded IsValidMsgID_lazy Let_def)
  then show ?thesis
    using assms(7) by (simp add: process_loop.simps [of w entry i c] process_loop.simps [of w entry i ?c])
qed

lemma process_lazy:
  assumes "validator_sound w wave_schema_ids" "wave_cfg_dsrc_msg_ids c = []" "wave_cfg_psids c = []"
    "wave_file_path c \<noteq> []" "its = accepted_entries w wave_schema_ids (wave_file_path c)"
    "its \<noteq> []" "4 \<le> length entry"
  shows "process w entry c = process w entry (append_entries its c)"
  using process_loop_lazy [OF assms(1-6), of 0 entry] assms(7) by (auto simp: process_def)

lemma process_loop_unconfigured:
  assumes "\<And>m. IsValidMsgID w m c = Inr (False, c)"
  shows "process_loop w entry i c = Inr ([], c)"
proof (induction "length entry - i" arbitrary: i rule: less_induct)
  case less
  then show ?case
    by (cases "i < length entry - 3") (simp_all add: process_loop.simps [of w entry i c] assms)
qed

lemma process_unconfigured:
  assumes "validator_sound w wave_schema_ids" "wave_cfg_dsrc_msg_ids c = []"
    "wave_file_path c = [] \<or> accepted_entries w wave_schema_ids (wave_file_path c) = []"
  shows "process w entry c = Inr ([], c)"
proof -
  have "IsValidMsgID w m c = Inr (False, c)" for m
    using assms by (cases "wave_file_path c = []") (simp_all add: IsValidMsgID_def loadWaveConfigIds_eq)
  then show ?thesis by (simp add: process_def process_loop_unconfigured)
qed

end
