(* ===== verification/Message_Frame.thy ===== *)
theory Message_Frame
  imports Base_Radio_Client
begin

text \<open>
  What \<open>BaseRadioClient\<close> looks for: a J2735 MessageFrame, that is a two-byte DSRCmsgID, a
  length determinant (one byte up to 127, two bytes with the top bit set from 128 on) and a
  payload of that length. This theory states the encoding and relates the driver's length check
  to it; the specification is independent of the code.
\<close>

section \<open>The encoding\<close>

definition length_determinant :: "nat \<Rightarrow> bytes" where
  "length_determinant n =
     (if n < 128 then [word_of_nat n]
      else [word_of_nat (128 + n div 256), word_of_nat (n mod 256)])"

definition message_frame :: "byte \<Rightarrow> byte \<Rightarrow> bytes \<Rightarrow> bytes" where
  "message_frame hi lo p = [hi, lo] @ length_determinant (length p) @ p"

text \<open>A determinant as the driver reads it: in the two-byte form the top bit is dropped unseen.\<close>

fun denotes_length :: "bytes \<Rightarrow> nat \<Rightarrow> bool" where
  "denotes_length [b] n \<longleftrightarrow> uint b = int n"
| "denotes_length [a, b] n \<longleftrightarrow> be16 (a AND 0x7F) b = int n"
| "denotes_length _ n \<longleftrightarrow> False"

section \<open>The driver's length check on encoded frames\<close>

lemma length_message_frame:
  "length (message_frame hi lo p) = (if length p < 128 then 3 else 4) + length p"
  by (simp add: message_frame_def length_determinant_def)

lemma uint_word_of_nat_byte: "n < 256 \<Longrightarrow> uint (word_of_nat n :: byte) = int n"
  by (simp add: uint_nat unsigned_of_nat take_bit_eq_mod)

lemma and_7F: "uint (b AND 0x7F :: byte) = uint b mod 128"
proof -
  have "uint (b AND 0x7F) = uint b AND 127"
    by (simp add: unsigned_and_eq)
  also have "\<dots> = take_bit 7 (uint b)"
    by (simp add: take_bit_eq_mask mask_eq_exp_minus_1)
  finally show ?thesis by (simp add: take_bit_eq_mod)
qed

lemma size_ok_short_frame:
  assumes "length p \<le> 124"
  shows "size_ok (message_frame hi lo p)"
  using assms
  by (simp add: size_ok_def length_message_frame)
     (simp add: message_frame_def length_determinant_def uint_word_of_nat_byte)

lemma size_ok_long_frame:
  assumes "128 \<le> length p" "length p < 16384"
  shows "size_ok (message_frame hi lo p)"
proof -
  have q: "length p div 256 < 64" using assms(2) by (simp add: less_mult_imp_div_less)
  then have "uint (word_of_nat (128 + length p div 256) :: byte) = int (128 + length p div 256)"
    by (intro uint_word_of_nat_byte) simp
  moreover have "int (128 + length p div 256) mod 128 = int (length p div 256)"
    using q by (simp add: mod_pos_pos_trivial)
  ultimately have "uint (word_of_nat (128 + length p div 256) :: byte) mod 128 = int (length p div 256)"
    by simp
  moreover have "uint (word_of_nat (length p mod 256) :: byte) = int (length p mod 256)"
    by (simp add: uint_word_of_nat_byte)
  moreover have "256 * int (length p div 256) + int (length p mod 256) = int (length p)"
    using arg_cong [OF mult_div_mod_eq [of 256 "length p"], of int]
    by (simp only: of_nat_add of_nat_mult of_nat_numeral)
  ultimately show ?thesis
    using assms
    by (simp add: size_ok_def length_message_frame)
       (simp add: message_frame_def length_determinant_def be16_eq and_7F)
qed

lemma size_not_ok_frame:
  assumes "125 \<le> length p" "length p \<le> 127"
  shows "\<not> size_ok (message_frame hi lo p)"
proof -
  have "uint (word_of_nat (length p) :: byte) mod 128 = int (length p)"
    using assms by (simp add: uint_word_of_nat_byte)
  then have "be16 (word_of_nat (length p) AND 0x7F) (p ! 0) = 256 * int (length p) + uint (p ! 0)"
    by (simp add: be16_eq and_7F)
  moreover have "0 \<le> uint (p ! 0)" by (rule uint_byte_bounds)
  ultimately have "be16 (word_of_nat (length p) AND 0x7F) (p ! 0) > int (length p)"
    using assms by linarith
  with assms show ?thesis
    by (simp add: size_ok_def length_message_frame)
       (simp add: message_frame_def length_determinant_def)
qed

text \<open>Conversely, whatever the check accepts is a header, a determinant and that many bytes.\<close>

lemma size_ok_split:
  assumes "size_ok m" "4 \<le> length m"
  shows "\<exists>det p. m = [m ! 0, m ! 1] @ det @ p \<and> denotes_length det (length p)"
proof -
  obtain a b x y r where m: "m = a # b # x # y # r"
    using assms(2) by (auto simp: Suc_le_length_iff numeral_eq_Suc)
  show ?thesis
  proof (cases "length m > 127")
    case True
    with assms(1) m have "denotes_length [x, y] (length r)"
      by (simp add: size_ok_def numeral_2_eq_2 numeral_3_eq_3)
    with m show ?thesis by (intro exI [of _ "[x, y]"] exI [of _ r]) simp
  next
    case False
    with assms(1) m have "denotes_length [x] (length (y # r))"
      by (simp add: size_ok_def numeral_2_eq_2)
    with m show ?thesis by (intro exI [of _ "[x]"] exI [of _ "y # r"]) simp
  qed
qed

end
