(* ===== verification/Inbound_Scan.thy ===== *)
theory Inbound_Scan
  imports Message_Frame
begin

text \<open>
  The properties of the inbound path of \<open>BaseRadioClient\<close>: what \<open>process\<close> delivers, when it
  fails, what it silently drops, and how it behaves with the deployed configuration
  \<open>etc/wave.json\<close>.
\<close>

section \<open>The deployed configuration\<close>

definition deployed_client :: "string \<Rightarrow> base_client" where
  "deployed_client path =
     \<lparr>wave_cfg_dsrc_msg_ids = deployed_ids, wave_cfg_psids = deployed_psids, wave_file_path = path\<rparr>"

definition deployed_vals :: "int list" where
  "deployed_vals = [32, 130, 130, 131, 39, 32784, 49134, 49134, 49134, 49134, 32771, 32771, 32773, 32773]"

lemma deployed_client_fields [simp]:
  "wave_cfg_dsrc_msg_ids (deployed_client path) = deployed_ids"
  "wave_cfg_psids (deployed_client path) = deployed_psids"
  "wave_file_path (deployed_client path) = path"
  by (simp_all add: deployed_client_def)

lemma loaded_deployed [simp]: "loaded (deployed_client path)"
  by (simp add: loaded_def wf_base_def deployed_ids_def deployed_psids_def)

lemma deployed_psids_denote [simp]: "psids_denote (deployed_client path) deployed_vals"
proof -
  have "map stoi16 deployed_psids = map Inr deployed_vals"
    by (simp add: deployed_psids_def deployed_vals_def stoi16_xdigits is_xdigit_def digit_val_def
          chars_value_def digits_value_def)
  then show ?thesis by (simp add: psids_denote_def)
qed

text \<open>The deployed identifiers as numbers: a configured string is the print of one of them.\<close>

definition deployed_id_numbers :: "int list" where
  "deployed_id_numbers = [20, 18, 19, 31, 32, 41, 240, 241, 243, 242, 244, 245, 246, 247]"

lemma deployed_ids_print: "deployed_ids = map to_string deployed_id_numbers"
  by code_simp

lemma valid_id_deployed:
  "valid_id (deployed_client path) entry i \<longleftrightarrow> u16 entry i \<in> set deployed_id_numbers"
  by (auto simp: valid_id_def deployed_ids_print)

lemma deployed_ambiguous:
  "n \<in> set deployed_id_numbers \<Longrightarrow> n \<in> set deployed_vals \<longleftrightarrow> n = 32"
  by (auto simp: deployed_id_numbers_def deployed_vals_def)

section \<open>The scan finds the first acceptable frame\<close>

text \<open>
  C1: \<open>process\<close> is a search. With a loaded configuration whose PSIDs are numbers, and enough
  bytes behind every candidate whose identifier is also a PSID, the scan does not fail, does not
  change the configuration, and delivers exactly the suffix of the datagram that starts at the
  first index where the identifier is configured, the length field fits and the bytes are not
  the header of an encapsulated BSM; it delivers nothing when there is no such index, or when
  some configured identifier is followed by more than 16383 bytes.
\<close>

theorem process_refines_search:
  assumes "loaded c" "psids_denote c vs" "psid_window c vs entry"
  shows "process w entry c =
    Inr (if list_ex (valid_id c entry) [0..<length entry - 16383] then []
         else (case find (frame_here c vs entry) [0..<length entry - 3] of
                 None \<Rightarrow> []
               | Some k \<Rightarrow> [(drop k entry, to_ushort (u16 entry k))]), c)"
  using assms by (simp add: process_first first_frame_from_def max_message_def)

text \<open>
  A BSM of four bytes behind a WSMP header whose first two bytes are the BSM's PSID 0x0020,
  which is also the DSRCmsgID of a PSM: the shape of the datagram in the unit test
  \<open>testIsValidMsgSize\<close>, shortened.
\<close>

definition wsmp_bsm :: bytes where
  "wsmp_bsm = [0, 32, 9, 3, 128, 0, 20, 4, 1, 2, 3, 4]"

lemmas deployed_eval = valid_id_deployed deployed_id_numbers_def deployed_vals_def frame_here_def
  bsm_hidden_def size_ok_def u16_def be16_eq upt_rec

lemma wsmp_bsm_window: "psid_window (deployed_client path) deployed_vals wsmp_bsm"
  by (simp add: psid_window_def wsmp_bsm_def deployed_eval)

lemma wsmp_bsm_first:
  "find (frame_here (deployed_client path) deployed_vals wsmp_bsm) [0..<length wsmp_bsm - 3] = Some 5"
  by (simp add: wsmp_bsm_def deployed_eval)

lemma wsmp_bsm_delivered: "drop 5 wsmp_bsm = [0, 20, 4, 1, 2, 3, 4]" "to_ushort (u16 wsmp_bsm 5) = 20"
  by (simp_all add: wsmp_bsm_def u16_def be16_eq to_ushort_def)

lemma wsmp_bsm_short: "length wsmp_bsm - 16383 = 0"
  by (simp add: wsmp_bsm_def)

lemma process_wsmp_bsm:
  "process w wsmp_bsm (deployed_client path) = Inr ([([0, 20, 4, 1, 2, 3, 4], 20)], deployed_client path)"
  using process_first [OF loaded_deployed deployed_psids_denote wsmp_bsm_window]
  by (simp add: first_frame_from_def max_message_def wsmp_bsm_first wsmp_bsm_delivered wsmp_bsm_short
        del: find.simps)

theorem process_refines_search_witness:
  "process (deployed_world ''w'') wsmp_bsm (deployed_client ''w'') =
     Inr ([([0, 20, 4, 1, 2, 3, 4], 20)], deployed_client ''w'')"
  using process_refines_search [OF loaded_deployed deployed_psids_denote wsmp_bsm_window,
      of "deployed_world ''w''" "''w''"]
  by (simp add: wsmp_bsm_first wsmp_bsm_delivered wsmp_bsm_short del: find.simps)

section \<open>Delivery of encoded frames\<close>

lemma drop_prefix_frame [simp]: "drop (length pre) (pre @ m) = m"
  by simp

lemma u16_prefix_frame [simp]: "u16 (pre @ message_frame hi lo p) (length pre) = be16 hi lo"
  by (simp add: u16_def message_frame_def nth_append)

lemma frame_fits: "length p \<le> 124 \<or> 128 \<le> length p \<Longrightarrow> length p < 16384 \<Longrightarrow> size_ok (message_frame hi lo p)"
  by (auto intro: size_ok_short_frame size_ok_long_frame)

text \<open>
  C10: completeness. A MessageFrame with a configured identifier that is no PSID and a payload of
  1 to 124 bytes, or of 128 bytes and more, at the end of a datagram of at most 16383 bytes is
  delivered unchanged with its identifier, whatever comes before it, as long as no earlier
  index is itself acceptable.
\<close>

theorem process_delivers_frame:
  assumes frame: "frame = message_frame hi lo p"
    and "loaded c" "psids_denote c vs" "psid_window c vs (pre @ frame)"
    and "to_string (be16 hi lo) \<in> set (wave_cfg_dsrc_msg_ids c)" "be16 hi lo \<notin> set vs"
    and "1 \<le> length p" "length p \<le> 124 \<or> 128 \<le> length p" "length (pre @ frame) \<le> 16383"
    and "\<not> list_ex (frame_here c vs (pre @ frame)) [0..<length pre]"
  shows "process w (pre @ frame) c = Inr ([(frame, to_ushort (be16 hi lo))], c)"
proof -
  have len: "length p < 16384" using assms(9) by (simp add: frame length_message_frame)
  have here: "frame_here c vs (pre @ frame) (length pre)"
    using assms(5,6,8) len frame_fits
    by (simp add: frame_here_def valid_id_def frame)
  have "length pre < length (pre @ frame) - 3"
    using assms(7) by (cases p) (simp_all add: frame length_message_frame)
  then have "find (frame_here c vs (pre @ frame)) [0..<length (pre @ frame) - 3] = Some (length pre)"
    using here assms(10) by (intro find_upt_first) (auto simp: list_ex_iff)
  then show ?thesis
    using assms(2-4,9)
    by (simp add: process_first first_frame_from_def max_message_def frame del: length_append)
qed

theorem process_delivers_frame_witness:
  "process (deployed_world ''w'') ([7, 0] @ message_frame 0 18 [1, 2, 3]) (deployed_client ''w'') =
     Inr ([(message_frame 0 18 [1, 2, 3], to_ushort 18)], deployed_client ''w'')"
proof -
  let ?e = "[7, 0] @ message_frame 0 18 [1, 2, 3]"
  have e: "message_frame 0 18 [1, 2, 3] = [0, 18, 3, 1, 2, 3]"
    by (simp add: message_frame_def length_determinant_def)
  have "psid_window (deployed_client ''w'') deployed_vals ?e"
    by (simp add: e psid_window_def deployed_eval)
  moreover have "\<not> list_ex (frame_here (deployed_client ''w'') deployed_vals ?e) [0..<length [7::byte, 0]]"
    by (simp add: e deployed_eval)
  moreover have "to_string (be16 0 18) \<in> set deployed_ids" "be16 0 18 \<notin> set deployed_vals"
    by (simp_all add: deployed_ids_print deployed_id_numbers_def deployed_vals_def be16_eq)
  ultimately show ?thesis
    using process_delivers_frame [OF refl, of "deployed_client ''w''" deployed_vals "[7, 0]" 0 18 "[1, 2, 3]"
        "deployed_world ''w''"]
    by (simp add: e be16_eq)
qed

text \<open>
  C9: soundness, for every configuration and every datagram. Whenever \<open>process\<close> returns, it has
  emitted at most one signal; the message is a suffix of the datagram of 4 to 16383 bytes that
  consists of two identifier bytes, a length determinant and exactly the number of bytes the
  determinant denotes, its identifier is the number sent with the signal and is configured.
\<close>

theorem process_sound:
  assumes "process w entry c = Inr (rs, c')"
  shows "rs = [] \<or>
    (\<exists>pre hi lo det p. rs = [([hi, lo] @ det @ p, to_ushort (be16 hi lo))] \<and>
       entry = pre @ [hi, lo] @ det @ p \<and> denotes_length det (length p) \<and>
       4 \<le> length ([hi, lo] @ det @ p) \<and> length ([hi, lo] @ det @ p) \<le> 16383 \<and>
       to_string (be16 hi lo) \<in> set (wave_cfg_dsrc_msg_ids c'))"
proof (cases "rs = []")
  case False
  with process_outcome [OF assms] obtain r k where rs: "rs = [r]" and r: "delivered_from c' entry r k"
    by auto
  let ?m = "drop k entry"
  from r have m: "size_ok ?m" "4 \<le> length ?m" "length ?m \<le> 16383"
    by (auto simp: delivered_from_def max_message_def)
  then obtain det p where split: "?m = [?m ! 0, ?m ! 1] @ det @ p" "denotes_length det (length p)"
    using size_ok_split by blast
  have "entry = take k entry @ ?m" by simp
  moreover have "u16 entry k = be16 (?m ! 0) (?m ! 1)"
    using r by (simp add: delivered_from_def u16_def)
  ultimately show ?thesis
    using rs r m split unfolding delivered_from_def by metis
qed simp

theorem process_sound_witness:
  "\<exists>pre hi lo det p. [([0, 20, 4, 1, 2, 3, 4], 20)] = [([hi, lo] @ det @ p, to_ushort (be16 hi lo))] \<and>
     wsmp_bsm = pre @ [hi, lo] @ det @ p \<and> denotes_length det (length p) \<and>
     4 \<le> length ([hi, lo] @ det @ p) \<and> length ([hi, lo] @ det @ p) \<le> 16383 \<and>
     to_string (be16 hi lo) \<in> set (wave_cfg_dsrc_msg_ids (deployed_client ''w''))"
  using process_sound [OF process_wsmp_bsm, of "''w''"] by (simp only: list.distinct simp_thms)

section \<open>The length check against the encoding\<close>

text \<open>
  C18: for a MessageFrame that ends a datagram, \<open>isValidMsgSize\<close> never reads out of bounds, and it
  answers true exactly when the payload has not 125, 126 or 127 bytes: those payloads have a
  one-byte determinant, but the whole frame has more than 127 bytes and the code takes the
  determinant to have two.
\<close>

theorem isValidMsgSize_message_frame:
  assumes "1 \<le> length p" "length p < 16384"
  shows "isValidMsgSize (message_frame hi lo p) (length pre) (pre @ message_frame hi lo p) =
    Inr (\<not> (125 \<le> length p \<and> length p \<le> 127))"
proof -
  have "length pre + 4 \<le> length (pre @ message_frame hi lo p)"
    using assms(1) by (cases p) (simp_all add: length_message_frame)
  then have "isValidMsgSize (message_frame hi lo p) (length pre) (pre @ message_frame hi lo p) =
      Inr (size_ok (message_frame hi lo p))"
    using isValidMsgSize_drop [of "length pre" "pre @ message_frame hi lo p"] by simp
  moreover have "size_ok (message_frame hi lo p) \<longleftrightarrow> \<not> (125 \<le> length p \<and> length p \<le> 127)"
    using frame_fits [of p hi lo] size_not_ok_frame [of p hi lo] assms(2) by linarith
  ultimately show ?thesis by simp
qed

theorem isValidMsgSize_message_frame_witness:
  "isValidMsgSize (message_frame 0 20 (replicate 126 7)) (length [9 :: byte])
     ([9] @ message_frame 0 20 (replicate 126 7)) = Inr False"
  using isValidMsgSize_message_frame [of "replicate 126 7" 0 20 "[9]"] by simp

text \<open>
  C19: the consequence for reception. No datagram, configuration or world makes \<open>process\<close> deliver a
  MessageFrame whose payload has 125 to 127 bytes.
\<close>

theorem process_never_delivers_125_127:
  assumes "process w entry c = Inr (rs, c')" "125 \<le> length p" "length p \<le> 127"
  shows "(message_frame hi lo p, n) \<notin> set rs"
proof
  assume "(message_frame hi lo p, n) \<in> set rs"
  with process_outcome [OF assms(1)] have "size_ok (message_frame hi lo p)"
    by (auto simp: delivered_from_def)
  with size_not_ok_frame [OF assms(2,3)] show False by blast
qed

lemma process_frame_126:
  "process w (message_frame 0 20 (replicate 126 7)) (deployed_client path) = Inr ([], deployed_client path)"
proof -
  let ?e = "message_frame 0 20 (replicate 126 7)"
  have e: "?e = [0, 20, 126] @ replicate 126 7"
    by (simp add: message_frame_def length_determinant_def)
  have u: "u16 ?e i \<notin> set deployed_id_numbers" if "0 < i" "i < 126" for i
  proof -
    have "?e ! (i + 1) = 7 \<or> ?e ! (i + 1) = 126"
      using that by (cases "i = 1") (auto simp: e nth_append)
    then have "u16 ?e i mod 256 \<in> {7, 126}" by (auto simp: u16_def be16_div_mod)
    then show ?thesis by (auto simp: deployed_id_numbers_def)
  qed
  have no: "\<not> frame_here (deployed_client path) deployed_vals ?e i" if "i < 126" for i
    using u [of i] that size_not_ok_frame [of "replicate 126 7" 0 20]
    by (cases "i = 0") (simp_all add: frame_here_def valid_id_deployed)
  have "psid_window (deployed_client path) deployed_vals ?e"
    using u size_not_ok_frame [of "replicate 126 7" 0 20]
    by (auto simp: psid_window_def list_all_iff valid_id_deployed length_message_frame) (metis drop0 neq0_conv)
  moreover have "find (frame_here (deployed_client path) deployed_vals ?e) [0..<length ?e - 3] = None"
    using no by (auto simp: find_None_iff length_message_frame)
  ultimately show ?thesis
    by (simp add: process_first [OF loaded_deployed deployed_psids_denote] first_frame_from_def
          max_message_def length_message_frame)
qed

theorem process_never_delivers_125_127_witness:
  "(message_frame 0 20 (replicate 126 7), 20) \<notin> set ([] :: received list)"
  using process_never_delivers_125_127 [OF process_frame_126, of "replicate 126 7" 0 20 20] by simp

section \<open>Reads past the end of the datagram\<close>

lemma bsm_id_scan_past_end:
  "0 < n \<Longrightarrow> length e \<le> j + n \<Longrightarrow> (\<And>l. j \<le> l \<Longrightarrow> l + 1 < length e \<Longrightarrow> u16 e l \<noteq> 20) \<Longrightarrow>
   bsm_id_scan n j e = Inl Out_of_bounds"
proof (induction n arbitrary: j)
  case (Suc n)
  show ?case
  proof (cases "j + 1 < length e")
    case True
    with Suc.prems have "bsm_id_scan n (j + 1) e = Inl Out_of_bounds"
      by (intro Suc.IH) auto
    with True Suc.prems(3) [of j] show ?thesis by simp
  qed simp
qed simp

lemma element_id_scan_past_end:
  "0 < n \<Longrightarrow> n \<le> 6 \<Longrightarrow> length e \<le> i + n \<Longrightarrow>
   (\<And>k l. i \<le> k \<Longrightarrow> k \<le> l \<Longrightarrow> l + 1 < length e \<Longrightarrow> u16 e k = 896 \<Longrightarrow> u16 e l \<noteq> 20) \<Longrightarrow>
   element_id_scan n i e = Inl Out_of_bounds"
proof (induction n arbitrary: i)
  case (Suc n)
  show ?case
  proof (cases "i + 1 < length e")
    case True
    with Suc.prems(1-3) have next_i: "element_id_scan n (i + 1) e = Inl Out_of_bounds"
      by (intro Suc.IH Suc.prems(4)) auto
    have "bsm_id_scan 6 i e = Inl Out_of_bounds" if "u16 e i = 896"
      using Suc.prems that by (intro bsm_id_scan_past_end) auto
    with True next_i show ?thesis by auto
  qed simp
qed simp

lemma process_first_byte_fault:
  assumes "u16 e 0 = 32" "4 \<le> length e" "length e \<le> 16383" "size_ok e"
    "isValidMsgAssumingBSMPSID 0 e = Inl f"
  shows "process w e (deployed_client path) = Inl f"
proof -
  have "IsValidMsgID w (to_string 32) (deployed_client path) = Inr (True, deployed_client path)"
    by (simp add: IsValidMsgID_loaded deployed_ids_print deployed_id_numbers_def)
  moreover have "isPossiblePSID w (to_string 32) (deployed_client path) = Inr (True, deployed_client path)"
    by (simp add: isPossiblePSID_loaded [OF loaded_deployed deployed_psids_denote] deployed_vals_def)
  ultimately show ?thesis
    using assms isValidMsgSize_drop [of 0 e]
    by (auto simp: process_def process_loop.simps [of w e 0] frame_consts)
qed

lemma short_psm_fault:
  assumes "1 \<le> length p" "length p \<le> 3" "p \<noteq> [128, 0, 20]"
  shows "process w (message_frame 0 32 p) (deployed_client path) = Inl Out_of_bounds"
proof -
  let ?e = "message_frame 0 32 p"
  have e: "?e = [0, 32, word_of_nat (length p)] @ p"
    using assms(2) by (simp add: message_frame_def length_determinant_def)
  have size: "size_ok ?e" using assms(2) by (intro size_ok_short_frame) simp
  have "u16 ?e l \<noteq> 20" if "k \<le> l" "l + 1 < length ?e" "u16 ?e k = 896" for k l
  proof -
    consider x where "p = [x]" | x y where "p = [x, y]" | x y z where "p = [x, y, z]"
      using assms(1,2) by (cases p; cases "tl p"; cases "tl (tl p)") auto
    then show ?thesis
    proof cases
      case 1
      then have m: "?e = [0, 32, 1, x]" by (simp add: message_frame_def length_determinant_def)
      show ?thesis
        using that uint_byte_bounds [of x] unfolding m
        by (auto simp: u16_def be16_eq less_Suc_eq le_Suc_eq)
    next
      case 2
      then have m: "?e = [0, 32, 2, x, y]" by (simp add: message_frame_def length_determinant_def)
      show ?thesis
        using that uint_byte_bounds [of x] unfolding m
        by (auto simp: u16_def be16_eq less_Suc_eq le_Suc_eq)
    next
      case 3
      then have m: "?e = [0, 32, 3, x, y, z]" by (simp add: message_frame_def length_determinant_def)
      have "y = 0 \<and> z = 20" if "256 * uint y + uint z = 20"
        using be16_inject [of y z 0 20] that by (simp add: be16_eq)
      moreover have "x = 128" if "uint x = 128"
        using that by (intro word_uint_eqI) simp
      ultimately show ?thesis
        using that assms(3) 3 uint_byte_bounds [of x] unfolding m
        by (auto simp: u16_def be16_eq less_Suc_eq le_Suc_eq) presburger
    qed
  qed
  then have "isValidMsgAssumingBSMPSID 0 ?e = Inl Out_of_bounds"
    unfolding isValidMsgAssumingBSMPSID_def using assms(2)
    by (intro element_id_scan_past_end) (auto simp: length_message_frame)
  moreover have "u16 ?e 0 = 32" by (simp add: e u16_def be16_eq)
  ultimately show ?thesis
    using assms size by (intro process_first_byte_fault) (simp_all add: length_message_frame)
qed

text \<open>
  C20: with the deployed configuration, a PSM (DSRCmsgID 32, which is also the BSM's PSID 0x0020)
  with one, two or three bytes of payload makes \<open>process\<close> read past the end of the datagram,
  whatever the payload, except for the one payload in which the loops find a BSM in time:
  \<open>isValidMsgAssumingBSMPSID\<close> reads up to twelve bytes from the candidate on without a check.
\<close>

theorem process_short_psm_out_of_bounds:
  assumes "1 \<le> length p" "length p \<le> 3" "p \<noteq> [128, 0, 20]"
  shows "process w (message_frame 0 32 p) (deployed_client path) = Inl Out_of_bounds"
  using assms by (rule short_psm_fault)

theorem process_short_psm_out_of_bounds_witness:
  "process (deployed_world ''w'') (message_frame 0 32 [5]) (deployed_client ''w'') = Inl Out_of_bounds"
  using process_short_psm_out_of_bounds [of "[5]" "deployed_world ''w''" "''w''"] by simp

text \<open>
  With the deployed configuration that is the only way to fail. When every index with the
  identifier 32 and a fitting length field has at least twelve bytes from it on, \<open>process\<close> returns
  and leaves the configuration as it is.
\<close>

lemma process_deployed_no_fault:
  assumes "list_all (\<lambda>i. u16 entry i = 32 \<and> size_ok (drop i entry) \<longrightarrow> i + 12 \<le> length entry)
             [0..<length entry - 3]"
  shows "\<exists>rs. process w entry (deployed_client path) = Inr (rs, deployed_client path)"
proof -
  have "psid_window (deployed_client path) deployed_vals entry"
    using assms deployed_ambiguous
    by (auto simp: psid_window_def list_all_iff valid_id_deployed)
  then show ?thesis
    using process_first [OF loaded_deployed deployed_psids_denote] by blast
qed

section \<open>The configuration in the scan\<close>

text \<open>
  Reading the configuration on first use is transparent. For a datagram of at least four
  bytes, a client that has loaded nothing yet behaves as one that loaded the entries of the
  accepted file before.
\<close>

lemma process_loads_on_first_use:
  assumes "validator_sound w wave_schema_ids" "wave_cfg_dsrc_msg_ids c = []" "wave_cfg_psids c = []"
    and "wave_file_path c \<noteq> []" "accepted_entries w wave_schema_ids (wave_file_path c) \<noteq> []"
    and "4 \<le> length entry"
  shows "\<exists>c'. loadWaveConfigIds w (wave_file_path c) c = Inr c' \<and> process w entry c = process w entry c'"
  using process_lazy [OF assms(1-4) refl assms(5,6)] assms(1) by (simp add: loadWaveConfigIds_eq)

text \<open>
  Without an accepted file (no path set, the file is missing, is not JSON, or is refused by
  the schema) every datagram is dropped without a failure and the state stays as it is.
\<close>

lemma process_without_configuration:
  assumes "validator_sound w wave_schema_ids" "wave_cfg_dsrc_msg_ids c = []"
    and "wave_file_path c = [] \<or> accepted_entries w wave_schema_ids (wave_file_path c) = []"
  shows "process w entry c = Inr ([], c)"
  using assms by (rule process_unconfigured)

text \<open>
  One configured identifier far from the end silences a large datagram. If at some index the
  two bytes are a configured identifier and more than 16383 bytes follow from it on, nothing of
  the datagram is delivered, not even a well-formed frame at its end.
\<close>

lemma process_oversize_stops:
  assumes "loaded c" "psids_denote c vs" "psid_window c vs entry"
    and "valid_id c entry i" "i + 16383 < length entry"
  shows "process w entry c = Inr ([], c)"
proof -
  have "list_ex (valid_id c entry) [0..<length entry - max_message]"
    using assms(4,5) by (auto simp: list_ex_iff max_message_def)
  then show ?thesis
    using assms(1-3) by (simp add: process_first first_frame_from_def)
qed

text \<open>
  One configured PSID that is not a hexadecimal number stops reception. When the first PSID
  cannot be read, the first datagram with a configured identifier and a fitting length field at
  its front makes \<open>std::stoi\<close> throw out of \<open>process\<close>, which nothing on the receiving thread catches.
\<close>

lemma process_malformed_psid_throws:
  assumes "loaded c" "wave_cfg_psids c = p # ps" "strtol16 p = None"
    and "valid_id c entry 0" "4 \<le> length entry" "length entry \<le> 16383"
    and "isValidMsgSize entry 0 entry = Inr True"
  shows "process w entry c = Inl (Thrown Invalid_argument)"
proof -
  have "stoi16 p = Inl (Thrown Invalid_argument)" using assms(3) by (simp add: stoi16_def)
  then have "isPossiblePSID w m c = Inl (Thrown Invalid_argument)" for m
    using assms(2) by (simp add: isPossiblePSID_def)
  then show ?thesis
    using assms by (auto simp: process_def process_loop.simps [of w entry 0] IsValidMsgID_loaded valid_id_def frame_consts)
qed

section \<open>A datagram that starts with a frame\<close>

text \<open>A frame at the start of a datagram is delivered at once.\<close>

lemma loaded_lists:
  "wave_cfg_dsrc_msg_ids c = deployed_ids \<Longrightarrow> wave_cfg_psids c = deployed_psids \<Longrightarrow>
   loaded c \<and> psids_denote c deployed_vals"
  using loaded_deployed [of "[]"] deployed_psids_denote [of "[]"]
  by (simp add: loaded_def wf_base_def psids_denote_def)

lemma process_frame_at_start:
  assumes "loaded c" "psids_denote c vs" "to_string (be16 hi lo) \<in> set (wave_cfg_dsrc_msg_ids c)"
    "be16 hi lo \<notin> set vs" "1 \<le> length p" "length p \<le> 124 \<or> 128 \<le> length p" "length (message_frame hi lo p) \<le> 16383"
  shows "process w (message_frame hi lo p) c = Inr ([(message_frame hi lo p, to_ushort (be16 hi lo))], c)"
proof -
  let ?e = "message_frame hi lo p"
  have len: "4 \<le> length ?e" using assms(5) by (cases p) (simp_all add: length_message_frame)
  have size: "size_ok ?e" using assms(6,7) by (intro frame_fits) (auto simp: length_message_frame)
  have u: "u16 ?e 0 = be16 hi lo" using u16_prefix_frame [of "[]" hi lo p] by simp
  have "process_loop w ?e 0 c = Inr ([(?e, to_ushort (be16 hi lo))], c)"
    using assms(1-4,7) len size isValidMsgSize_drop [of 0 ?e]
    by (simp add: process_loop.simps [of w ?e 0 c] wave_simps u frame_consts)
  then show ?thesis using len by (auto simp: process_def)
qed

lemma deployed_start:
  assumes "wave_cfg_dsrc_msg_ids c = deployed_ids" "wave_cfg_psids c = deployed_psids"
    "be16 hi lo \<in> set deployed_id_numbers" "be16 hi lo \<noteq> 32"
    "1 \<le> length p" "length p \<le> 124 \<or> 128 \<le> length p" "length (message_frame hi lo p) \<le> 16383"
  shows "process w (message_frame hi lo p) c = Inr ([(message_frame hi lo p, to_ushort (be16 hi lo))], c)"
proof -
  have "to_string (be16 hi lo) \<in> set (wave_cfg_dsrc_msg_ids c)" using assms(1,3) by (auto simp: deployed_ids_print)
  moreover have "be16 hi lo \<notin> set deployed_vals" using assms(3,4) deployed_ambiguous by blast
  ultimately show ?thesis
    using process_frame_at_start loaded_lists [OF assms(1,2)] assms(5-7) by blast
qed

end
