(* ===== verification/Scan_Loop.thy ===== *)
theory Scan_Loop
  imports Inbound_Scan "HOL-Library.While_Combinator"
begin

text \<open>
  The \<open>for\<close> loop of \<open>BaseRadioClient::process\<close> in the shape it has in the code: a guard, a body that falls
  through, continues or breaks, and an index of type \<open>size_t\<close>, a 64-bit word, so that \<open>entry.size() - 3\<close>
  wraps below three bytes. Behind the check of the size at the top of \<open>process\<close> this is the recursion
  \<open>process_loop\<close> on natural numbers, it ends, and what it delivers is the first acceptable frame; without that
  check it runs past the end of a short datagram.
\<close>

section \<open>One turn of the loop\<close>

text \<open>
  The body at index \<open>i\<close>: \<open>None\<close> stands for reaching the next turn (by \<open>continue\<close> or the end of the body), \<open>Some\<close>
  for \<open>break\<close> with the signals emitted.
\<close>

definition scan_turn ::
    "world \<Rightarrow> bytes \<Rightarrow> nat \<Rightarrow> 'a base_client_scheme \<Rightarrow> ('a base_client_scheme \<times> received list option) res" where
  "scan_turn w entry i c =
     bind_res (u16_at entry i) (\<lambda>msg_id.
     bind_res (IsValidMsgID w (to_string msg_id) c) (\<lambda>(valid, c1).
       if \<not> valid then Inr (c1, None)
       else if i + short_frame \<ge> length entry then Inr (c1, Some [])
       else
         bind_res (vec_from entry i) (\<lambda>msg_vec.
           if length msg_vec > max_message then Inr (c1, Some [])
           else
             bind_res (isValidMsgSize msg_vec i entry) (\<lambda>size_ok.
               if \<not> size_ok then Inr (c1, None)
               else
                 bind_res (isPossiblePSID w (to_string msg_id) c1) (\<lambda>(possible, c2).
                 bind_res (if \<not> possible then Inr True
                           else bind_res (isValidMsgAssumingBSMPSID i entry) (\<lambda>b. Inr (\<not> b)))
                   (\<lambda>shouldProcess.
                     if shouldProcess then Inr (c2, Some [(msg_vec, to_ushort msg_id)])
                     else Inr (c2, None)))))))"

lemma process_loop_turn:
  assumes "i < length entry - 3"
  shows "process_loop w entry i c =
    bind_res (scan_turn w entry i c) (\<lambda>(c', k).
      case k of None \<Rightarrow> process_loop w entry (i + 1) c' | Some rs \<Rightarrow> Inr (rs, c'))"
  unfolding process_loop.simps [of w entry i c] scan_turn_def
  using assms by (auto simp: bind_res_def split: sum.splits prod.splits)

section \<open>The loop\<close>

text \<open>
  The state of the loop: the index and what the turns so far came to, a fault or a client with the
  signals of the \<open>break\<close>, if there was one. Sizes and indexes are of type \<open>size_t\<close>.
\<close>

type_synonym size_t = "64 word"
type_synonym 'c scan_state = "size_t \<times> ('c \<times> received list option) res"

definition size_of :: "bytes \<Rightarrow> size_t" where
  "size_of entry = word_of_nat (length entry)"

fun scan_guard :: "bytes \<Rightarrow> 'c scan_state \<Rightarrow> bool" where
  "scan_guard entry (i, Inr (c, None)) \<longleftrightarrow> i < size_of entry - 3"
| "scan_guard entry _ \<longleftrightarrow> False"

fun scan_body :: "world \<Rightarrow> bytes \<Rightarrow> 'a base_client_scheme scan_state \<Rightarrow> 'a base_client_scheme scan_state" where
  "scan_body w entry (i, Inr (c, None)) = (i + 1, scan_turn w entry (unat i) c)"
| "scan_body w entry s = s"

fun scan_result :: "'c scan_state \<Rightarrow> (received list \<times> 'c) res" where
  "scan_result (i, Inl e) = Inl e"
| "scan_result (i, Inr (c, None)) = Inr ([], c)"
| "scan_result (i, Inr (c, Some rs)) = Inr (rs, c)"

text \<open>The loop from index 0 on, \<open>None\<close> when it does not end, and \<open>process\<close> with it.\<close>

definition scan_loop :: "world \<Rightarrow> bytes \<Rightarrow> 'a base_client_scheme \<Rightarrow> 'a base_client_scheme scan_state option" where
  "scan_loop w entry c = while_option (scan_guard entry) (scan_body w entry) (0, Inr (c, None))"

definition process_size_t ::
    "world \<Rightarrow> bytes \<Rightarrow> 'a base_client_scheme \<Rightarrow> (received list \<times> 'a base_client_scheme) res option" where
  "process_size_t w entry c =
     (if entry = [] \<or> size_of entry < 3 then Some (Inr ([], c))
      else map_option scan_result (scan_loop w entry c))"

section \<open>Words against natural numbers\<close>

lemma unat_size_of: "length entry < 2 ^ 64 \<Longrightarrow> unat (size_of entry) = length entry"
  by (simp add: size_of_def unat_of_nat take_bit_nat_eq_self)

lemma size_of_short: "length entry < 2 ^ 64 \<Longrightarrow> size_of entry < 3 \<longleftrightarrow> length entry < 3"
  by (simp add: word_less_nat_alt unat_size_of)

lemma size_of_minus:
  assumes "length entry < 2 ^ 64" "3 \<le> length entry"
  shows "unat (size_of entry - 3) = length entry - 3"
proof -
  have "(3 :: size_t) \<le> size_of entry" using assms by (simp add: word_le_nat_alt unat_size_of)
  then show ?thesis using assms(1) by (simp add: unat_sub unat_size_of)
qed

lemma scan_guard_nat:
  assumes "length entry < 2 ^ 64" "3 \<le> length entry"
  shows "scan_guard entry (i, Inr (c, None)) \<longleftrightarrow> unat i < length entry - 3"
  using assms by (simp add: word_less_nat_alt size_of_minus)

text \<open>Below three bytes \<open>size() - 3\<close> wraps to one of the three largest values.\<close>

lemma size_of_wraps:
  assumes "length entry < 3"
  shows "unat (size_of entry - 3) = 2 ^ 64 + length entry - 3"
proof -
  from assms consider "length entry = 0" | "length entry = 1" | "length entry = 2" by linarith
  then show ?thesis by cases (simp_all add: size_of_def unsigned_minus_1_eq_mask mask_eq_exp_minus_1)
qed

lemma unat_next:
  assumes "length entry < 2 ^ 64" "unat (i :: size_t) < length entry"
  shows "unat (i + 1) = unat i + 1"
proof -
  from assms have "unat i + 1 < 2 ^ 64" by simp
  then show ?thesis by (simp add: unat_word_ariths unat_of_nat)
qed

section \<open>The loop ends\<close>

lemma scan_while_stops:
  "\<not> scan_guard entry s \<Longrightarrow> while_option (scan_guard entry) (scan_body w entry) s = Some s"
  by (subst while_option_unfold) simp

lemma scan_while:
  assumes "length entry < 2 ^ 64" "3 \<le> length entry" "unat i \<le> length entry - 3"
  shows "\<exists>t. while_option (scan_guard entry) (scan_body w entry) (i, Inr (c, None)) = Some t \<and>
    scan_result t = process_loop w entry (unat i) c \<and> unat (fst t) \<le> length entry - 3"
  using assms(3)
proof (induction "length entry - unat i" arbitrary: i c rule: less_induct)
  case less
  note guard = scan_guard_nat [OF assms(1,2), of i c]
  show ?case
  proof (cases "unat i < length entry - 3")
    case False
    with guard less.prems scan_while_stops [of entry "(i, Inr (c, None))" w] process_loop.simps [of w entry "unat i" c]
    show ?thesis by auto
  next
    case True
    then have next_i: "unat (i + 1) = unat i + 1" using assms(1) by (intro unat_next [of entry]) simp_all
    have step: "while_option (scan_guard entry) (scan_body w entry) (i, Inr (c, None)) =
        while_option (scan_guard entry) (scan_body w entry) (i + 1, scan_turn w entry (unat i) c)"
      using True guard by (subst while_option_unfold) (simp del: scan_guard.simps)
    have stop: ?thesis
      if "\<not> scan_guard entry (i + 1, scan_turn w entry (unat i) c)"
        "scan_result (i + 1, scan_turn w entry (unat i) c) = process_loop w entry (unat i) c"
      using step scan_while_stops [OF that(1), of w] that(2) True next_i
      by (intro exI [of _ "(i + 1, scan_turn w entry (unat i) c)"]) simp
    show ?thesis
    proof (cases "scan_turn w entry (unat i) c")
      case (Inl e)
      with True stop show ?thesis by (simp add: process_loop_turn)
    next
      case (Inr r)
      obtain c' k where r: "r = (c', k)" by (cases r)
      show ?thesis
      proof (cases k)
        case None
        from True next_i have "length entry - unat (i + 1) < length entry - unat i" "unat (i + 1) \<le> length entry - 3"
          by simp_all
        from less.hyps [OF this, of c'] step True Inr r None next_i show ?thesis
          by (simp add: process_loop_turn)
      next
        case (Some rs)
        with True Inr r stop show ?thesis by (simp add: process_loop_turn)
      qed
    qed
  qed
qed

lemma process_size_t_eq:
  assumes "length entry < 2 ^ 64"
  shows "process_size_t w entry c = Some (process w entry c)"
proof (cases "length entry < 3")
  case True
  with assms show ?thesis by (simp add: process_size_t_def process_def size_of_short)
next
  case False
  with assms scan_while [of entry 0 w c] show ?thesis
    by (auto simp: process_size_t_def process_def size_of_short scan_loop_def)
qed

text \<open>What the check of the size at the top of \<open>process\<close> keeps away.\<close>

lemma scan_loop_short:
  assumes "length entry < 2"
  shows "scan_loop w entry c = Some (1, Inl Out_of_bounds)"
proof -
  have "scan_guard entry (0, Inr (c, None))"
    using assms size_of_wraps [of entry] by (simp add: word_less_nat_alt)
  moreover have "scan_turn w entry 0 c = Inl Out_of_bounds"
    using assms by (simp add: scan_turn_def u16_at_out)
  ultimately show ?thesis
    unfolding scan_loop_def
    by (subst while_option_unfold) (simp add: scan_while_stops del: scan_guard.simps(1))
qed

text \<open>
  C17: \<open>process\<close> ends with the right result in the arithmetic of the machine. On every datagram whose size is a
  \<open>size_t\<close>, in every configuration and world, the loop over a 64-bit index behind the check of the size ends, and
  \<open>process\<close> comes to what the model on natural numbers comes to; from three bytes on, its index is at
  most \<open>size - 3\<close>. With a loaded configuration whose PSIDs are numbers and a full window behind each ambiguous
  candidate that is: no fault, and the suffix from the first acceptable index, or nothing when there is none or
  a configured identifier is followed by more than 16383 bytes. The check is needed: on an empty datagram or
  one byte the same loop, its bound wrapped, reads out of bounds.
\<close>

theorem scan_loop_terminates:
  assumes "length entry < 2 ^ 64"
  shows "process_size_t w entry c = Some (process w entry c) \<and>
    (3 \<le> length entry \<longrightarrow> (\<exists>t. scan_loop w entry c = Some t \<and> unat (fst t) \<le> length entry - 3)) \<and>
    (loaded c \<and> psids_denote c vs \<and> psid_window c vs entry \<longrightarrow>
       process_size_t w entry c =
         Some (Inr (if list_ex (valid_id c entry) [0..<length entry - 16383] then []
           else (case find (frame_here c vs entry) [0..<length entry - 3] of
                   None \<Rightarrow> []
                 | Some k \<Rightarrow> [(drop k entry, to_ushort (u16 entry k))]), c))) \<and>
    (length entry < 2 \<longrightarrow> scan_loop w entry c = Some (1, Inl Out_of_bounds))"
proof (intro conjI impI)
  show eq: "process_size_t w entry c = Some (process w entry c)" by (rule process_size_t_eq [OF assms])
  show "\<exists>t. scan_loop w entry c = Some t \<and> unat (fst t) \<le> length entry - 3" if "3 \<le> length entry"
    using scan_while [OF assms that, of 0 w c] by (auto simp: scan_loop_def)
  show "scan_loop w entry c = Some (1, Inl Out_of_bounds)" if "length entry < 2"
    by (rule scan_loop_short [OF that])
  assume "loaded c \<and> psids_denote c vs \<and> psid_window c vs entry"
  then show "process_size_t w entry c =
      Some (Inr (if list_ex (valid_id c entry) [0..<length entry - 16383] then []
        else (case find (frame_here c vs entry) [0..<length entry - 3] of
                None \<Rightarrow> []
              | Some k \<Rightarrow> [(drop k entry, to_ushort (u16 entry k))]), c))"
    using process_first [of c vs entry w] by (simp add: eq first_frame_from_def max_message_def)
qed

text \<open>The datagram of a BSM behind a WSMP header: the loop delivers the BSM at index 5.\<close>

theorem scan_loop_terminates_witness:
  "process_size_t (deployed_world ''w'') wsmp_bsm (deployed_client ''w'') =
     Some (Inr ([([0, 20, 4, 1, 2, 3, 4], 20)], deployed_client ''w''))"
proof -
  have "length wsmp_bsm < 2 ^ 64" by (simp add: wsmp_bsm_def)
  note all = scan_loop_terminates [OF this, of "deployed_world ''w''" "deployed_client ''w''" deployed_vals]
  from mp [OF conjunct1 [OF conjunct2 [OF conjunct2 [OF all]]]] show ?thesis
    by (simp add: wsmp_bsm_window wsmp_bsm_first wsmp_bsm_delivered wsmp_bsm_short del: find.simps)
qed

end
