(* ===== verification/Node_Wave.thy ===== *)
theory Node_Wave
  imports Wave_Config
begin

text \<open>
  The wave configuration as the node keeps it (\<open>Node::loadWaveConfig\<close>, \<open>WaveConfigStruct\<close>), and the
  text format of outbound UDP messages (\<open>Node::packMessage\<close>, \<open>uint8_vector_to_hex_string\<close>) with a
  reader for it.
\<close>

section \<open>The configuration entries\<close>

record wave_item =
  w_name :: string
  w_psid :: string
  w_dsrc_msg_id :: string
  w_channel :: string
  w_priority :: string

definition wave_schema_items :: string where
  \<open>wave_schema_items =
   ''{\<newline>'' @
   '' "$schema":"http://json-schema.org/draft-06/schema",\<newline>'' @
   '' "title":"Wave Config Schema",\<newline>'' @
   '' "description":"A simple schema to describe DSRC/Wave messages",\<newline>'' @
   ''  "type": "array",\<newline>'' @
   ''  "items": {\<newline>'' @
   ''    "type": "object",\<newline>'' @
   ''    "properties": {\<newline>'' @
   ''      "name": {\<newline>'' @
   ''        "description": "message type - abbreviated name",\<newline>'' @
   ''        "type": "string"\<newline>'' @
   ''      },\<newline>'' @
   ''      "psid": {\<newline>'' @
   ''        "description": "psid assigned to message type in decimal",\<newline>'' @
   ''        "type": "string"\<newline>'' @
   ''      },\<newline>'' @
   ''      "dsrc_msg_id": {\<newline>'' @
   ''        "description": "J2735 DSRC id assigned to message type in decimal",\<newline>'' @
   ''        "type": "string"\<newline>'' @
   ''      },\<newline>'' @
   ''      "channel": {\<newline>'' @
   ''        "description": "DSRC radio channel assigned to message type in decimal",\<newline>'' @
   ''        "type": "string"\<newline>'' @
   ''      },\<newline>'' @
   ''      "priority": {\<newline>'' @
   ''        "description": "WSM Priotiy to use assigned to message type in decimal",\<newline>'' @
   ''        "type":"string"\<newline>'' @
   ''      }\<newline>'' @
   ''    },\<newline>'' @
   ''    "required":["name","psid","dsrc_msg_id","channel","priority"]  }\<newline>'' @
   ''}\<newline>''\<close>

definition item_of :: "json \<Rightarrow> wave_item res" where
  "item_of entry =
     bind_res (get_string entry ''name'') (\<lambda>n.
     bind_res (get_string entry ''psid'') (\<lambda>p.
     bind_res (get_string entry ''dsrc_msg_id'') (\<lambda>d.
     bind_res (get_string entry ''channel'') (\<lambda>ch.
     bind_res (get_string entry ''priority'') (\<lambda>pr.
       Inr \<lparr>w_name = n, w_psid = p, w_dsrc_msg_id = d, w_channel = ch, w_priority = pr\<rparr>)))))"

fun push_items :: "json list \<Rightarrow> wave_item list \<Rightarrow> wave_item list res" where
  "push_items [] items = Inr items"
| "push_items (it # its) items = bind_res (item_of it) (\<lambda>e. push_items its (items @ [e]))"

definition loadWaveConfig :: "world \<Rightarrow> string \<Rightarrow> wave_item list \<Rightarrow> wave_item list res" where
  "loadWaveConfig w fileName items =
     (case json_parse w wave_schema_items of
        None \<Rightarrow> Inr items
      | Some sd \<Rightarrow>
          (case json_parse w (read_stream w fileName) of
             None \<Rightarrow> Inr items
           | Some doc \<Rightarrow>
               if \<not> schema_accepts w sd doc then Inr items
               else (case doc of JArray its \<Rightarrow> push_items its items | _ \<Rightarrow> Inl Assertion_failed)))"

section \<open>Packing an outbound message\<close>

text \<open>The ROS message \<open>carma_driver_msgs/ByteArray\<close>.\<close>

record byte_array =
  stamp :: nat
  frame_id :: string
  message_type :: string
  content :: bytes

definition uint8_vector_to_hex_string :: "bytes \<Rightarrow> string" where
  "uint8_vector_to_hex_string v = concat (map hex_byte v)"

definition item_by_name :: "string \<Rightarrow> wave_item list \<Rightarrow> wave_item option" where
  "item_by_name n items = find (\<lambda>entry. w_name entry = n) items"

definition item_by_id :: "16 word \<Rightarrow> wave_item list \<Rightarrow> wave_item option" where
  "item_by_id i items = find (\<lambda>entry. w_dsrc_msg_id entry = to_string (uint i)) items"

text \<open>The entry a message is packed with: the first of its type, or the defaults.\<close>

definition pack_item :: "wave_item list \<Rightarrow> byte_array \<Rightarrow> wave_item res" where
  "pack_item items m =
     (case item_by_name (message_type m) items of
        Some e \<Rightarrow> Inr e
      | None \<Rightarrow>
          bind_res (at (content m) 0) (\<lambda>hi.
          bind_res (at (content m) 1) (\<lambda>lo.
            let i = to_string (be16 hi lo) in
            Inr \<lparr>w_name = message_type m, w_psid = i, w_dsrc_msg_id = i, w_channel = ''CCH'',
                 w_priority = ''1''\<rparr>)))"

definition nl :: string where "nl = [CHR 0x0A]"

definition pack_text :: "wave_item \<Rightarrow> bytes \<Rightarrow> string" where
  "pack_text cfg payload =
     ''Version=0.7'' @ nl @
     ''Type='' @ w_name cfg @ nl @
     ''PSID='' @ w_psid cfg @ nl @
     ''Priority='' @ w_priority cfg @ nl @
     ''TxMode=ALT'' @ nl @
     ''TxChannel='' @ w_channel cfg @ nl @
     ''TxInterval=0'' @ nl @
     ''DeliveryStart='' @ nl @
     ''DeliveryStop='' @ nl @
     ''Signature=False'' @ nl @
     ''Encryption=False'' @ nl @
     ''Payload='' @ uint8_vector_to_hex_string payload @ nl"

definition to_bytes :: "string \<Rightarrow> bytes" where
  "to_bytes s = map of_char s"

definition packMessage :: "wave_item list \<Rightarrow> byte_array \<Rightarrow> bytes res" where
  "packMessage items m =
     bind_res (pack_item items m) (\<lambda>cfg. Inr (to_bytes (pack_text cfg (content m))))"

section \<open>Loading: what it appends\<close>

definition entry_item :: "json \<Rightarrow> wave_item" where
  "entry_item it =
     \<lparr>w_name = field_text it ''name'', w_psid = field_text it ''psid'',
      w_dsrc_msg_id = field_text it ''dsrc_msg_id'', w_channel = field_text it ''channel'',
      w_priority = field_text it ''priority''\<rparr>"

lemma push_items_conforms:
  "list_all conforms_item its \<Longrightarrow> push_items its items = Inr (items @ map entry_item its)"
proof (induction its arbitrary: items)
  case (Cons it its)
  then have "get_string it k = Inr (field_text it k)" if "k \<in> set wave_props" for k
    using that by (simp add: get_string_conforms)
  then have "item_of it = Inr (entry_item it)"
    by (simp add: item_of_def entry_item_def wave_props_def)
  with Cons show ?case by simp
qed simp

lemma loadWaveConfig_eq:
  assumes "validator_sound w wave_schema_items"
  shows "loadWaveConfig w f items = Inr (items @ map entry_item (accepted_entries w wave_schema_items f))"
proof (cases "json_parse w wave_schema_items")
  case sd: (Some sd)
  show ?thesis
  proof (cases "json_parse w (read_stream w f)")
    case (Some doc)
    show ?thesis
    proof (cases "schema_accepts w sd doc")
      case True
      with assms sd have "conforms_wave_schema doc" by (auto simp: validator_sound_def)
      then obtain its where "doc = JArray its" and "list_all conforms_item its"
        by (cases doc) auto
      with sd Some True show ?thesis
        by (simp add: loadWaveConfig_def accepted_entries_def push_items_conforms)
    qed (use sd Some in \<open>auto simp: loadWaveConfig_def accepted_entries_def split: json.split\<close>)
  qed (use sd in \<open>simp add: loadWaveConfig_def accepted_entries_def\<close>)
qed (simp add: loadWaveConfig_def accepted_entries_def)

section \<open>The deployed entries\<close>

definition item :: "string \<Rightarrow> string \<Rightarrow> string \<Rightarrow> string \<Rightarrow> string \<Rightarrow> wave_item" where
  "item n p d ch pr =
     \<lparr>w_name = n, w_psid = p, w_dsrc_msg_id = d, w_channel = ch, w_priority = pr\<rparr>"

lemma item_fields [simp]:
  "w_name (item n p d ch pr) = n" "w_psid (item n p d ch pr) = p" "w_dsrc_msg_id (item n p d ch pr) = d"
  "w_channel (item n p d ch pr) = ch" "w_priority (item n p d ch pr) = pr"
  by (simp_all add: item_def)

definition deployed_items :: "wave_item list" where
  "deployed_items =
     [item ''BSM'' ''0020'' ''20'' ''183'' ''6'',
      item ''MAP'' ''0082'' ''18'' ''183'' ''3'',
      item ''SPAT'' ''0082'' ''19'' ''183'' ''3'',
      item ''TIM'' ''0083'' ''31'' ''183'' ''3'',
      item ''PSM'' ''0027'' ''32'' ''183'' ''6'',
      item ''SensorDataSharingMessage'' ''8010'' ''41'' ''183'' ''6'',
      item ''MobilityRequest'' ''BFEE'' ''240'' ''183'' ''6'',
      item ''MobilityResponse'' ''BFEE'' ''241'' ''183'' ''6'',
      item ''MobilityOperation'' ''BFEE'' ''243'' ''183'' ''6'',
      item ''MobilityPath'' ''BFEE'' ''242'' ''183'' ''6'',
      item ''TrafficControlRequest'' ''8003'' ''244'' ''183'' ''6'',
      item ''TrafficControlMessage'' ''8003'' ''245'' ''183'' ''6'',
      item ''EmergencyVehicleResponse'' ''8005'' ''246'' ''183'' ''6'',
      item ''EmergencyVehicleAck'' ''8005'' ''247'' ''183'' ''6'']"

lemma entry_item_wave_entry:
  "entry_item (wave_entry n p d ch pr) = item (c_str n) (c_str p) (c_str d) (c_str ch) (c_str pr)"
  by (simp add: entry_item_def item_def)

lemma deployed_entry_items:
  "map entry_item (accepted_entries (deployed_world path) wave_schema_items path) = deployed_items"
proof -
  have "wave_schema_items \<noteq> []" by (simp add: wave_schema_items_def)
  then show ?thesis
    by (simp add: deployed_entries wave_json_def deployed_items_def entry_item_wave_entry c_str_id)
qed

lemma load_deployed_items:
  "loadWaveConfig (deployed_world path) path items = Inr (items @ deployed_items)"
  by (simp add: loadWaveConfig_eq deployed_entry_items)

section \<open>Reading a packed message back\<close>

definition of_bytes :: "bytes \<Rightarrow> string" where
  "of_bytes bs = map (\<lambda>b. char_of (unat b)) bs"

lemma of_bytes_to_bytes [simp]: "of_bytes (to_bytes s) = s"
proof -
  have "char_of (unat (of_char c :: byte)) = c" for c
  proof -
    have "(of_char c :: byte) = of_nat (of_char c)" by (simp add: of_nat_of_char)
    then have "unat (of_char c :: byte) = of_char c"
      by (simp only: unat_of_nat) simp
    then show ?thesis by simp
  qed
  then show ?thesis by (simp add: of_bytes_def to_bytes_def comp_def)
qed

fun text_lines :: "string \<Rightarrow> string \<Rightarrow> string list" where
  "text_lines acc [] = (if acc = [] then [] else [acc])"
| "text_lines acc (c # s) = (if c = CHR 0x0A then acc # text_lines [] s else text_lines (acc @ [c]) s)"

definition key_value :: "string \<Rightarrow> string \<times> string" where
  "key_value l = (takeWhile (\<lambda>c. c \<noteq> CHR ''='') l, drop 1 (dropWhile (\<lambda>c. c \<noteq> CHR ''='') l))"

definition wave_fields :: "bytes \<Rightarrow> (string \<times> string) list" where
  "wave_fields bs = map key_value (text_lines [] (of_bytes bs))"

lemma text_lines_line:
  "CHR 0x0A \<notin> set l \<Longrightarrow> text_lines acc (l @ nl @ s) = (acc @ l) # text_lines [] s"
  by (induction l arbitrary: acc) (auto simp: nl_def)

lemma hex_no_newline: "CHR 0x0A \<notin> set (uint8_vector_to_hex_string v)"
  using hex_byte_no_newline by (auto simp: uint8_vector_to_hex_string_def)

lemma unhex_hex [simp]: "unhex (uint8_vector_to_hex_string v) = Some v"
  by (induction v) (simp_all add: uint8_vector_to_hex_string_def unhex_hex_byte)

definition one_line :: "string \<Rightarrow> bool" where
  "one_line s \<longleftrightarrow> CHR 0x0A \<notin> set s"

lemma text_lines_concat:
  "list_all one_line ls \<Longrightarrow> text_lines [] (concat (map (\<lambda>l. l @ nl) ls)) = ls"
  by (induction ls) (simp_all add: text_lines_line one_line_def)

definition pack_lines :: "wave_item \<Rightarrow> bytes \<Rightarrow> string list" where
  "pack_lines e p =
     [''Version=0.7'', ''Type='' @ w_name e, ''PSID='' @ w_psid e, ''Priority='' @ w_priority e, ''TxMode=ALT'',
      ''TxChannel='' @ w_channel e, ''TxInterval=0'', ''DeliveryStart='', ''DeliveryStop='', ''Signature=False'',
      ''Encryption=False'', ''Payload='' @ uint8_vector_to_hex_string p]"

lemma pack_text_lines: "pack_text e p = concat (map (\<lambda>l. l @ nl) (pack_lines e p))"
  by (simp add: pack_text_def pack_lines_def)

lemma pack_text_fields:
  assumes "one_line (w_name e)" "one_line (w_psid e)" "one_line (w_priority e)" "one_line (w_channel e)"
  shows "wave_fields (to_bytes (pack_text e p)) =
    [(''Version'', ''0.7''), (''Type'', w_name e), (''PSID'', w_psid e), (''Priority'', w_priority e),
     (''TxMode'', ''ALT''), (''TxChannel'', w_channel e), (''TxInterval'', ''0''), (''DeliveryStart'', []),
     (''DeliveryStop'', []), (''Signature'', ''False''), (''Encryption'', ''False''),
     (''Payload'', uint8_vector_to_hex_string p)]"
proof -
  have "list_all one_line (pack_lines e p)"
    using assms hex_no_newline [of p] by (simp add: pack_lines_def one_line_def)
  then have "wave_fields (to_bytes (pack_text e p)) = map key_value (pack_lines e p)"
    by (simp add: wave_fields_def pack_text_lines text_lines_concat)
  then show ?thesis by (simp add: pack_lines_def key_value_def)
qed

text \<open>
  What leaves for a UDP radio can be read back. When \<open>packMessage\<close> returns and the name, PSID, priority
  and channel it uses contain no line break, the text is the twelve fields of the WAVE format, in
  order, with these four in their fields, and the payload field is the message content in hexadecimal.
\<close>

lemma packMessage_fields:
  assumes "packMessage items m = Inr bs" "pack_item items m = Inr e"
    "one_line (w_name e)" "one_line (w_psid e)" "one_line (w_priority e)" "one_line (w_channel e)"
  shows "wave_fields bs =
      [(''Version'', ''0.7''), (''Type'', w_name e), (''PSID'', w_psid e), (''Priority'', w_priority e),
       (''TxMode'', ''ALT''), (''TxChannel'', w_channel e), (''TxInterval'', ''0''), (''DeliveryStart'', []),
       (''DeliveryStop'', []), (''Signature'', ''False''), (''Encryption'', ''False''),
       (''Payload'', uint8_vector_to_hex_string (content m))] \<and>
    unhex (uint8_vector_to_hex_string (content m)) = Some (content m)"
  using assms(1,2) pack_text_fields [OF assms(3-6)] by (auto simp: packMessage_def)

definition bsm_message :: byte_array where
  "bsm_message = \<lparr>stamp = 0, frame_id = [], message_type = ''BSM'', content = [0, 20, 1, 255]\<rparr>"

lemma bsm_item: "pack_item deployed_items bsm_message = Inr (item ''BSM'' ''0020'' ''20'' ''183'' ''6'')"
  by (simp add: pack_item_def item_by_name_def deployed_items_def bsm_message_def)

definition last_field :: "string \<Rightarrow> string" where
  "last_field s = rev (takeWhile (\<lambda>c. c \<noteq> CHR ''='') (rev (butlast s)))"

lemma digit_char_not_equals: "d < 16 \<Longrightarrow> digit_char d \<noteq> CHR ''=''"
  by (drule less_16_cases) (auto simp: digit_char_def)

lemma hex_byte_no_equals: "CHR ''='' \<notin> set (hex_byte b)"
proof -
  have "unat b div 16 < 16" "unat b mod 16 < 16"
    using unat_byte_less [of b] by (simp_all add: less_mult_imp_div_less)
  then have "digit_char (unat b div 16) \<noteq> CHR ''=''" "digit_char (unat b mod 16) \<noteq> CHR ''=''"
    by (simp_all add: digit_char_not_equals)
  then show ?thesis by (simp add: hex_byte_eq eq_commute [of "CHR ''=''"])
qed

lemma hex_no_equals: "CHR ''='' \<notin> set (uint8_vector_to_hex_string v)"
  using hex_byte_no_equals by (simp add: uint8_vector_to_hex_string_def)

lemma last_field_pack: "last_field (pack_text e p) = uint8_vector_to_hex_string p"
proof -
  let ?h = "uint8_vector_to_hex_string p"
  let ?pre = "concat (map (\<lambda>l. l @ nl) (butlast (pack_lines e p))) @ ''Payload''"
  have "pack_text e p = (?pre @ CHR ''='' # ?h) @ nl"
    by (simp add: pack_text_lines pack_lines_def)
  then have "butlast (pack_text e p) = ?pre @ CHR ''='' # ?h"
    by (simp only: nl_def butlast_snoc)
  then show ?thesis
    using hex_no_equals [of p] by (simp add: last_field_def takeWhile_append)
qed

text \<open>
  The payload survives whatever the names hold. The text after the last equals sign, less the final line
  break, always reads back as the content, so no two messages of different content pack to the same bytes.
\<close>

lemma packMessage_payload:
  assumes "packMessage items m = Inr bs"
  shows "unhex (last_field (of_bytes bs)) = Some (content m) \<and>
    (packMessage items' m' = Inr bs \<longrightarrow> content m' = content m)"
proof -
  have payload: "unhex (last_field (of_bytes bs)) = Some (content k)" if "packMessage its k = Inr bs" for its k
    using that by (auto simp: packMessage_def bind_res_eq_Inr last_field_pack)
  show ?thesis using payload [OF assms] payload [of items' m'] by auto
qed

text \<open>
  \<open>packMessage\<close> fails in one case only: the message type has no entry and the content is shorter than
  the two bytes the default identifier is read from; then it reads past the end of the vector.
\<close>

lemma packMessage_short_unknown:
  "packMessage items m = Inl f \<longleftrightarrow>
     (\<forall>e \<in> set items. w_name e \<noteq> message_type m) \<and> length (content m) < 2 \<and> f = Out_of_bounds"
proof (cases "item_by_name (message_type m) items")
  case None
  then have "\<forall>e \<in> set items. w_name e \<noteq> message_type m"
    by (auto simp: item_by_name_def find_None_iff)
  moreover have "length (content m) < 2 \<or> (0 < length (content m) \<and> 1 < length (content m))" by linarith
  ultimately show ?thesis
    using None by (cases "content m") (auto simp: packMessage_def pack_item_def Let_def at_def)
next
  case (Some e)
  then have "\<exists>e \<in> set items. w_name e = message_type m"
    by (auto simp: item_by_name_def find_Some_iff)
  with Some show ?thesis by (auto simp: packMessage_def pack_item_def)
qed

end
