(* ===== verification/Wave_Store.thy ===== *)
theory Wave_Store
  imports Node_Wave
begin

text \<open>
  The contract both loaders of the wave file keep, \<open>BaseRadioClient::loadWaveConfigIds\<close> and
  \<open>Node::loadWaveConfig\<close>: loading a file appends one entry for each of its accepted entries to a table
  that is searched from the front. Its consequences are proved once and used for the three
  lookups of the driver: the PSID of an identifier, the entry of an identifier, the entry of a name.
\<close>

section \<open>The contract\<close>

locale wave_store =
  fixes inv :: "'s \<Rightarrow> bool"
    and load :: "world \<Rightarrow> string \<Rightarrow> 's \<Rightarrow> 's res"
    and schema :: string
    and table :: "'s \<Rightarrow> (string \<times> 'v) list"
    and decode :: "json \<Rightarrow> string \<times> 'v"
  assumes load_appends: "inv s \<Longrightarrow> validator_sound w schema \<Longrightarrow>
    \<exists>s'. load w f s = Inr s' \<and> inv s' \<and> table s' = table s @ map decode (accepted_entries w schema f)"
begin

lemma load_table:
  assumes "inv s" "validator_sound w schema" "load w f s = Inr s'"
  shows "inv s'" "table s' = table s @ map decode (accepted_entries w schema f)"
  using load_appends [OF assms(1,2), of f] assms(3) by auto

lemma load_first_wins:
  assumes "inv s" "validator_sound w schema" "load w f s = Inr s'"
  shows "map_of (table s') k =
    (case map_of (table s) k of Some v \<Rightarrow> Some v | None \<Rightarrow> map_of (map decode (accepted_entries w schema f)) k)"
  by (simp add: load_table(2) [OF assms] map_add_def split: option.split)

lemma reload_lookup:
  assumes "inv s" "validator_sound w schema" "load w f s = Inr s1" "load w f s1 = Inr s2"
  shows "map_of (table s2) k = map_of (table s1) k"
  using load_first_wins [OF load_table(1) [OF assms(1-3)] assms(2,4)] load_first_wins [OF assms(1-3)]
  by (simp split: option.splits)

lemma refused_file:
  assumes "inv s" "validator_sound w schema" "accepted_entries w schema f = []" "load w f s = Inr s'"
  shows "table s' = table s"
  using load_table(2) [OF assms(1,2,4)] assms(3) by simp

end

text \<open>A store with the lookup the client calls.\<close>

locale wave_lookup = wave_store inv load schema table decode
  for inv :: "'s \<Rightarrow> bool" and load schema table and decode :: "json \<Rightarrow> string \<times> 'v" +
  fixes lookup :: "'s \<Rightarrow> string \<Rightarrow> 'v option"
  assumes lookup_table: "inv s \<Longrightarrow> lookup s k = map_of (table s) k"
begin

lemma lookup_reload:
  assumes "inv s" "validator_sound w schema" "load w f s = Inr s1" "load w f s1 = Inr s2"
  shows "lookup s2 k = lookup s1 k"
proof -
  have "inv s1" using load_table(1) [OF assms(1-3)] .
  moreover from this have "inv s2" using load_table(1) [OF _ assms(2,4)] by simp
  ultimately show ?thesis using reload_lookup [OF assms] by (simp add: lookup_table)
qed

lemma lookup_grows:
  assumes "inv s" "validator_sound w schema" "load w f s = Inr s'" "lookup s k = Some v"
  shows "lookup s' k = Some v"
  using load_first_wins [OF assms(1-3), of k] load_table(1) [OF assms(1-3)] assms(1,4)
  by (simp add: lookup_table)

lemma lookup_refused:
  assumes "inv s" "validator_sound w schema" "accepted_entries w schema f = []" "load w f s = Inr s'"
  shows "lookup s' k = lookup s k"
  using refused_file [OF assms] load_table(1) [OF assms(1,2,4)] assms(1) by (simp add: lookup_table)

end

section \<open>The two providers\<close>

definition id_psid :: "json \<Rightarrow> string \<times> string" where
  "id_psid it = (field_text it ''dsrc_msg_id'', field_text it ''psid'')"

definition psid_rows :: "base_client \<Rightarrow> (string \<times> string) list" where
  "psid_rows c = zip (wave_cfg_dsrc_msg_ids c) (wave_cfg_psids c)"

interpretation psids: wave_lookup wf_base loadWaveConfigIds wave_schema_ids psid_rows id_psid psid_table
proof
  fix s :: base_client and w f
  assume s: "wf_base s" and w: "validator_sound w wave_schema_ids"
  let ?its = "accepted_entries w wave_schema_ids f"
  have "map id_psid ?its =
      zip (map (\<lambda>it. field_text it ''dsrc_msg_id'') ?its) (map (\<lambda>it. field_text it ''psid'') ?its)"
    by (simp add: id_psid_def zip_map_map zip_same_conv_map)
  then have "psid_rows (append_entries ?its s) = psid_rows s @ map id_psid ?its"
    using s by (simp add: psid_rows_def append_entries_def wf_base_def)
  then show "\<exists>s'. loadWaveConfigIds w f s = Inr s' \<and> wf_base s' \<and> psid_rows s' = psid_rows s @ map id_psid ?its"
    using s w by (simp add: loadWaveConfigIds_eq)
qed (simp add: psid_table_def psid_rows_def)

text \<open>The node searches one list by two keys.\<close>

lemma find_map_of: "find (\<lambda>e. key e = k) xs = map_of (map (\<lambda>e. (key e, e)) xs) k"
  by (induction xs) auto

definition by_id :: "wave_item \<Rightarrow> string \<times> wave_item" where
  "by_id e = (w_dsrc_msg_id e, e)"

definition by_name :: "wave_item \<Rightarrow> string \<times> wave_item" where
  "by_name e = (w_name e, e)"

definition find_id :: "wave_item list \<Rightarrow> string \<Rightarrow> wave_item option" where
  "find_id items k = find (\<lambda>entry. w_dsrc_msg_id entry = k) items"

interpretation ids: wave_lookup "\<lambda>items. True" loadWaveConfig wave_schema_items "map by_id" "by_id \<circ> entry_item" find_id
  by unfold_locales (simp_all add: loadWaveConfig_eq find_id_def find_map_of by_id_def [abs_def])

interpretation names: wave_lookup "\<lambda>items. True" loadWaveConfig wave_schema_items "map by_name" "by_name \<circ> entry_item"
    "\<lambda>items k. item_by_name k items"
  by unfold_locales (simp_all add: loadWaveConfig_eq item_by_name_def find_map_of by_name_def [abs_def])

section \<open>Loading the same file again\<close>

lemma item_by_id_find: "item_by_id i items = find_id items (to_string (uint i))"
  by (simp add: item_by_id_def find_id_def)

text \<open>
  C21: loading a wave file a second time (a node that is configured again appends its entries once
  more) changes no answer: the name an inbound identifier is published under, the bytes an outbound
  message is packed to and the PSID of an identifier stay what they were after the first time, for
  every file and whatever was loaded before.
\<close>

theorem reload_is_harmless:
  assumes "validator_sound w wave_schema_items" "validator_sound w wave_schema_ids" "wf_base c"
    "loadWaveConfig w f items = Inr items1" "loadWaveConfig w f items1 = Inr items2"
    "loadWaveConfigIds w f c = Inr c1" "loadWaveConfigIds w f c1 = Inr (c2 :: base_client)"
  shows "item_by_id i items2 = item_by_id i items1 \<and> packMessage items2 m = packMessage items1 m \<and>
    psidForDsrcMsgId c2 k = psidForDsrcMsgId c1 k"
proof -
  have "item_by_id i items2 = item_by_id i items1"
    using ids.lookup_reload [OF TrueI assms(1,4,5)] by (simp add: item_by_id_find)
  moreover have "packMessage items2 m = packMessage items1 m"
    using names.lookup_reload [OF TrueI assms(1,4,5)] by (simp add: packMessage_def pack_item_def)
  moreover have "wf_base c1" "wf_base c2"
    using psids.load_table(1) [OF assms(3,2,6)] psids.load_table(1) [OF _ assms(2,7)] by auto
  then have "psidForDsrcMsgId c2 k = psidForDsrcMsgId c1 k"
    using psids.lookup_reload [OF assms(3,2,6,7)] by (simp add: psidForDsrcMsgId_eq)
  ultimately show ?thesis by blast
qed

theorem reload_is_harmless_witness:
  "item_by_id 20 (deployed_items @ deployed_items) = item_by_id 20 deployed_items \<and>
   packMessage (deployed_items @ deployed_items) bsm_message = packMessage deployed_items bsm_message"
  using reload_is_harmless [OF deployed_world_sound deployed_world_sound wf_base_init,
      of "''w''" "''w''" "[]" deployed_items "deployed_items @ deployed_items"]
  by (simp add: load_deployed_items load_deployed)

end
