(* ===== verification/Radio_Types.thy ===== *)
theory Radio_Types
  imports Base_Radio_Client
begin

text \<open>
  What the two transports share besides the base class: error codes, the signals of
  \<open>BaseRadioClient\<close>, and the calls the driver makes into libmosquitto and Boost.Asio. An
  operation of a client returns the list of these calls and signals in the order it makes
  them; the answers of the libraries are arguments of the operation.
\<close>

section \<open>Error codes and signals\<close>

text \<open>\<open>boost::system::error_code\<close>: the values the driver assigns, and any value a library reports.\<close>

datatype error_code =
    Success
  | No_memory
  | Connection_refused
  | Invalid_argument_code
  | Fault_code
  | System_code int

text \<open>\<open>if (ec)\<close>.\<close>

definition is_error :: "error_code \<Rightarrow> bool" where
  "is_error ec \<longleftrightarrow> ec \<noteq> Success"

datatype signal =
    OnConnect
  | OnDisconnect
  | OnError error_code
  | OnMessageReceived bytes "16 word"

definition message_signals :: "received list \<Rightarrow> signal list" where
  "message_signals rs = map (\<lambda>(m, i). OnMessageReceived m i) rs"

section \<open>Calls into the libraries\<close>

text \<open>
  Handles of mosquitto clients and identities of \<open>io_service\<close> objects are numbers; a call on an
  Asio object carries the \<open>io_service\<close> the object was built on.
\<close>

datatype ip_version = V4 | V6

datatype endpoint = Endpoint ip_version string "16 word"

datatype effect =
    Mosq_new "string option" "nat option"
  | Mosq_set_callbacks nat
  | Mosq_reconnect_delay_set nat "32 word" "32 word"
  | Mosq_loop_start nat
  | Mosq_connect nat string int int
  | Mosq_disconnect nat
  | Mosq_loop_stop nat bool
  | Mosq_destroy nat
  | Mosq_subscribe "nat option" string int
  | Mosq_publish nat string bytes int bool
  | Mosq_lib_init
  | Mosq_lib_cleanup
  | Io_new nat
  | Io_delete nat
  | Io_stop nat
  | Strand_new nat
  | Strand_delete nat
  | Work_new nat
  | Work_delete nat
  | Listener_new nat "16 word"
  | Listener_start nat
  | Listener_stop nat
  | Listener_delete nat
  | Socket_new nat ip_version
  | Socket_delete nat
  | Thread_start nat
  | Thread_join nat
  | Send_to bytes endpoint
  | Emit signal

text \<open>The signals in a list of effects.\<close>

fun emitted :: "effect list \<Rightarrow> signal list" where
  "emitted [] = []"
| "emitted (Emit s # es) = s # emitted es"
| "emitted (_ # es) = emitted es"

lemma emitted_append [simp]: "emitted (xs @ ys) = emitted xs @ emitted ys"
  by (induction xs rule: emitted.induct) simp_all

lemma emitted_map_Emit [simp]: "emitted (map Emit ss) = ss"
  by (induction ss) simp_all

text \<open>
  A library call that may throw: its value, a \<open>boost::system::system_error\<close> with its code, or
  another \<open>std::exception\<close>. A call of \<open>connect\<close> ends with a value or one of these exceptions.
\<close>

datatype 'a answer = Value 'a | System_error error_code | Other_exception

datatype connect_outcome = Returned bool | Threw_system error_code | Threw_other

fun answer_outcome :: "'a answer \<Rightarrow> connect_outcome" where
  "answer_outcome (Value x) = Returned True"
| "answer_outcome (System_error e) = Threw_system e"
| "answer_outcome Other_exception = Threw_other"

end
