(* ===== verification/Udp_Listener.thy ===== *)
theory Udp_Listener
  imports Radio_Types
begin

text \<open>
  \<open>cav::UDPListener\<close> (\<open>udp_listener.h\<close>): the object that waits on the local UDP socket. Its receive
  handler posts every datagram to the \<open>io_service\<close>; the socket's answers are arguments.
\<close>

section \<open>State\<close>

text \<open>
  \<open>lst_io\<close> is the \<open>io_service\<close> the reference \<open>io_\<close> is bound to, \<open>lst_waiting\<close> whether an
  \<open>async_receive\<close> is outstanding on the socket. \<open>lst_started\<close> is \<open>started_\<close>, which no operation writes.
\<close>

record listener =
  lst_io :: nat
  lst_port :: "16 word"
  lst_running :: bool
  lst_started :: bool
  lst_waiting :: bool

definition new_listener :: "nat \<Rightarrow> 16 word \<Rightarrow> listener" where
  "new_listener i port =
     \<lparr>lst_io = i, lst_port = port, lst_running = False, lst_started = False, lst_waiting = False\<rparr>"

section \<open>Operations\<close>

definition start_recv_udp :: "listener \<Rightarrow> listener" where
  "start_recv_udp l = l\<lparr>lst_waiting := True\<rparr>"

definition lst_start :: "listener \<Rightarrow> bool \<times> listener" where
  "lst_start l =
     (if lst_running l then (False, l)
      else (True, start_recv_udp (l\<lparr>lst_running := True\<rparr>)))"

text \<open>\<open>stop\<close> returns the signal count of \<open>onClose\<close> it emits: one when it was running.\<close>

definition lst_stop :: "listener \<Rightarrow> nat \<times> listener" where
  "lst_stop l = (if lst_running l then (1, l\<lparr>lst_running := False\<rparr>) else (0, l))"

text \<open>
  What a completed wait leads to: a datagram posted for \<open>onReceive\<close>, a failed read that is ignored, or
  the listener's own \<open>onError\<close> signal.
\<close>

datatype recv_result = Posted bytes | Read_failed error_code | Listener_error error_code

definition operation_aborted :: error_code where
  "operation_aborted = System_code 125"

text \<open>
  The buffer of \<open>n\<close> zero bytes after the socket wrote the datagram \<open>d\<close> into it: a longer datagram
  is cut, a shorter one leaves zeros.
\<close>

definition filled_buffer :: "nat \<Rightarrow> bytes \<Rightarrow> bytes" where
  "filled_buffer n d = take n (d @ replicate n 0)"

text \<open>
  \<open>avail\<close> is the answer of \<open>socket_.available()\<close>, which may throw; \<open>recv n\<close> the one of \<open>receive\<close> into a
  buffer of \<open>n\<close> bytes: an error code or the datagram. An exception leaves the handler.
\<close>

definition handle_recv_udp ::
    "error_code \<Rightarrow> nat answer \<Rightarrow> (nat \<Rightarrow> error_code + bytes) \<Rightarrow> listener \<Rightarrow> (recv_result \<times> listener) res" where
  "handle_recv_udp ec avail recv l =
     (let l0 = l\<lparr>lst_waiting := False\<rparr> in
      if \<not> is_error ec \<or> ec = operation_aborted then
        (case avail of
           Value n \<Rightarrow>
             let l1 = (if lst_running l0 then start_recv_udp l0 else l0)
             in (case recv n of
                   Inl e \<Rightarrow> Inr (Read_failed e, l1)
                 | Inr d \<Rightarrow> Inr (Posted (filled_buffer n d), l1))
         | _ \<Rightarrow> Inl (Thrown Library_error))
      else Inr (Listener_error ec, l0))"

section \<open>Facts\<close>

lemma new_listener_fields [simp]:
  "lst_io (new_listener i p) = i" "lst_port (new_listener i p) = p"
  "\<not> lst_running (new_listener i p)" "\<not> lst_waiting (new_listener i p)"
  by (simp_all add: new_listener_def)

lemma lst_start_new [simp]:
  "snd (lst_start (new_listener i p)) =
     \<lparr>lst_io = i, lst_port = p, lst_running = True, lst_started = False, lst_waiting = True\<rparr>"
  by (simp add: lst_start_def new_listener_def start_recv_udp_def)

lemma lst_stop_fields [simp]:
  "lst_io (snd (lst_stop l)) = lst_io l" "\<not> lst_running (snd (lst_stop l))"
  "lst_waiting (snd (lst_stop l)) = lst_waiting l"
  by (simp_all add: lst_stop_def)

lemma filled_buffer_exact [simp]: "filled_buffer (length d) d = d"
  by (simp add: filled_buffer_def)

text \<open>
  A running listener goes on waiting after a completed wait unless the wait failed with an error
  other than \<open>operation_aborted\<close>.
\<close>

lemma handle_recv_result:
  "handle_recv_udp ec avail recv l = Inr (r, l') \<Longrightarrow>
   lst_io l' = lst_io l \<and> lst_port l' = lst_port l \<and> lst_running l' = lst_running l \<and>
   (lst_waiting l' \<longleftrightarrow> lst_running l \<and> (\<not> is_error ec \<or> ec = operation_aborted))"
  by (auto simp: handle_recv_udp_def start_recv_udp_def Let_def
      split: if_splits answer.splits sum.splits)

end
