(* ===== verification/Udp_Radio_Client.thy ===== *)
theory Udp_Radio_Client
  imports Udp_Listener
begin

text \<open>
  \<open>UdpRadioClient\<close> (\<open>udp_radio_client.cpp\<close>): the state added to the base class, the operations of the
  client and the handlers its I/O thread runs. Boost.Asio and \<open>std::thread\<close> are outside the
  repository: what they answer is an argument, what the driver asks of them is an effect.
\<close>

section \<open>State\<close>

text \<open>
  Every Asio object is recorded by the \<open>io_service\<close> it was built on, \<open>io_thread\<close> by the \<open>io_service\<close> it
  runs and whether it can be joined. \<open>io_tasks\<close> are the handlers posted to the current \<open>io_service\<close>
  and not run yet, oldest first; \<open>io_stopped\<close> is its stopped flag. One thread runs them, so none overlap, and
  within a direction the order is that of the posts: received datagrams are posted to the service,
  messages to the strand. Between the two the queue fixes one order, the order of the posts, where Asio may run
  a handler of the strand later than a plain one posted after it. The two kinds touch
  different members, and the theorems about order compare each direction with itself only.
\<close>

datatype task = Deliver bytes | Transmit bytes

record udp_client = base_client +
  io :: "nat option"
  output_strand :: "nat option"
  work :: "nat option"
  io_thread :: "(nat \<times> bool) option"
  udp_running :: bool
  udp_out_socket :: "nat option"
  remote_udp_ep :: endpoint
  udp_listener :: "listener option"
  io_tasks :: "task list"
  io_stopped :: bool

definition udp_init :: udp_client where
  "udp_init =
     \<lparr>wave_cfg_dsrc_msg_ids = [], wave_cfg_psids = [], wave_file_path = [],
      io = None, output_strand = None, work = None, io_thread = None, udp_running = False,
      udp_out_socket = None, remote_udp_ep = Endpoint V4 ''0.0.0.0'' 0, udp_listener = None,
      io_tasks = [], io_stopped = False\<rparr>"

section \<open>Connecting\<close>

record udp_answers =
  address_from_string :: "string \<Rightarrow> (ip_version \<times> string) answer"
  resolve_v4 :: "string \<Rightarrow> string \<Rightarrow> endpoint list answer"
  listener_bind :: "16 word \<Rightarrow> unit answer"
  socket_open :: "ip_version \<Rightarrow> unit answer"
  thread_create :: "unit answer"

text \<open>
  The remote endpoint: the address as written, or the first result of a DNS query when it does not
  parse. \<open>Inl\<close> holds the error code and the exception that leaves \<open>connect\<close>.
\<close>

definition remote_endpoint ::
    "udp_answers \<Rightarrow> string \<Rightarrow> 16 word \<Rightarrow> error_code \<Rightarrow>
     ((error_code \<times> connect_outcome) + endpoint) res" where
  "remote_endpoint a remote_address remote_port ec =
     (case address_from_string a remote_address of
        Value (v, s) \<Rightarrow> Inr (Inr (Endpoint v s remote_port))
      | System_error e \<Rightarrow>
          (case resolve_v4 a remote_address (to_string (uint remote_port)) of
             Value (ep # eps) \<Rightarrow> Inr (Inr ep)
           | Value [] \<Rightarrow> Inl Null_dereference
           | System_error er \<Rightarrow> Inr (Inl (ec, Threw_system er))
           | Other_exception \<Rightarrow> Inr (Inl (ec, Threw_other)))
      | Other_exception \<Rightarrow> Inr (Inl (Invalid_argument_code, Threw_other)))"

text \<open>Resetting a smart pointer deletes the old object after the new one is in place.\<close>

definition deleted :: "(nat \<Rightarrow> effect) \<Rightarrow> nat option \<Rightarrow> effect list" where
  "deleted f x = (case x of None \<Rightarrow> [] | Some i \<Rightarrow> [f i])"

definition deleted_listener :: "listener option \<Rightarrow> effect list" where
  "deleted_listener l =
     (case l of None \<Rightarrow> []
      | Some x \<Rightarrow> (if lst_running x then [Listener_stop (lst_io x)] else []) @ [Listener_delete (lst_io x)])"

fun ep_version :: "endpoint \<Rightarrow> ip_version" where
  "ep_version (Endpoint v a p) = v"

text \<open>
  After the listener is bound: the receive slot, the output socket, the work object, the start of
  the listener and the thread. An exception leaves \<open>connect\<close> with what was done so far.
  Replacing a thread object that can still be joined ends the program.
\<close>

definition udp_start ::
    "udp_answers \<Rightarrow> nat \<Rightarrow> udp_client \<Rightarrow> (connect_outcome \<times> effect list \<times> udp_client) res" where
  "udp_start a n c =
     (case socket_open a (ep_version (remote_udp_ep c)) of
        Value _ \<Rightarrow>
          let es = [Socket_new n (ep_version (remote_udp_ep c))] @ deleted Socket_delete (udp_out_socket c) @
                   [Work_new n] @ deleted Work_delete (work c) @ [Listener_start n];
              c1 = c\<lparr>udp_out_socket := Some n, work := Some n,
                     udp_listener := map_option (\<lambda>l. snd (lst_start l)) (udp_listener c)\<rparr>
          in (case thread_create a of
                Value _ \<Rightarrow>
                  (case io_thread c of
                     Some (_, True) \<Rightarrow> Inl Terminated
                   | _ \<Rightarrow> Inr (Returned True, es @ [Thread_start n, Emit OnConnect],
                               c1\<lparr>io_thread := Some (n, True), udp_running := True\<rparr>))
              | e \<Rightarrow> Inr (answer_outcome e, es, c1))
      | e \<Rightarrow> Inr (answer_outcome e, [], c))"

text \<open>The new \<open>io_service\<close> \<open>n\<close> and strand, and the old listener deleted.\<close>

definition reset_effects :: "nat \<Rightarrow> udp_client \<Rightarrow> effect list" where
  "reset_effects n c =
     [Io_new n] @ deleted Io_delete (io c) @ [Strand_new n] @
     deleted Strand_delete (output_strand c) @ deleted_listener (udp_listener c)"

definition reset_client :: "nat \<Rightarrow> endpoint \<Rightarrow> udp_client \<Rightarrow> udp_client" where
  "reset_client n ep c =
     c\<lparr>remote_udp_ep := ep, io := Some n, output_strand := Some n, udp_listener := None,
       io_tasks := [], io_stopped := False\<rparr>"

text \<open>
  \<open>n\<close> is the identity of the \<open>io_service\<close> this call creates. As in the code, a listener, a socket and a work object of
  an earlier connection are deleted after the \<open>io_service\<close> they were made with. Asio leaves that
  undefined; the model records the order of the deletions in the effects and goes on as if it were harmless, so that what it
  returns from such a call stands for the code only as far as \<open>lifetime_ok\<close> of the effects holds
  (\<open>Udp_Io_Thread\<close>).
\<close>

definition udp_connect ::
    "udp_answers \<Rightarrow> nat \<Rightarrow> string \<Rightarrow> 16 word \<Rightarrow> 16 word \<Rightarrow> error_code \<Rightarrow> udp_client \<Rightarrow>
     (connect_outcome \<times> error_code \<times> effect list \<times> udp_client) res" where
  "udp_connect a n remote_address remote_port local_port ec c =
     (if udp_running c then Inr (Returned False, ec, [], c)
      else bind_res (remote_endpoint a remote_address remote_port ec) (\<lambda>r.
        case r of
          Inl (ec', out) \<Rightarrow> Inr (out, ec', [], c)
        | Inr ep \<Rightarrow>
            (case listener_bind a local_port of
               System_error e \<Rightarrow> Inr (Returned False, e, reset_effects n c, reset_client n ep c)
             | Other_exception \<Rightarrow> Inr (Returned False, Success, reset_effects n c, reset_client n ep c)
             | Value _ \<Rightarrow>
                 bind_res (udp_start a n ((reset_client n ep c)\<lparr>udp_listener := Some (new_listener n local_port)\<rparr>))
                   (\<lambda>(out, fs, c2).
                     Inr (out, Success, reset_effects n c @ [Listener_new n local_port] @ fs, c2)))))"

section \<open>Closing\<close>

text \<open>\<open>p->f()\<close> through an empty pointer is undefined.\<close>

definition deref :: "'a option \<Rightarrow> 'a res" where
  "deref p = (case p of None \<Rightarrow> Inl Null_dereference | Some x \<Rightarrow> Inr x)"

definition udp_close :: "udp_client \<Rightarrow> (effect list \<times> udp_client) res" where
  "udp_close c =
     (if \<not> udp_running c then Inr ([], c)
      else
        bind_res (deref (io c)) (\<lambda>i.
        bind_res (deref (io_thread c)) (\<lambda>t.
        bind_res (deref (udp_listener c)) (\<lambda>l.
          Inr (deleted Work_delete (work c) @ [Io_stop i, Thread_join (fst t), Listener_stop (lst_io l)] @
               deleted Socket_delete (udp_out_socket c) @ [Emit OnDisconnect],
               c\<lparr>udp_running := False, work := None, io_stopped := True, io_thread := Some (fst t, False),
                 udp_listener := Some (snd (lst_stop l)), udp_out_socket := None\<rparr>)))))"

text \<open>The destructor closes and then destroys the members, last declared first.\<close>

definition udp_destruct :: "udp_client \<Rightarrow> effect list res" where
  "udp_destruct c =
     bind_res (udp_close c) (\<lambda>(es, c').
       case io_thread c' of
         Some (_, True) \<Rightarrow> Inl Terminated
       | _ \<Rightarrow> Inr (es @ deleted_listener (udp_listener c') @ deleted Socket_delete (udp_out_socket c') @
                   deleted Work_delete (work c') @ deleted Strand_delete (output_strand c') @
                   deleted Io_delete (io c')))"

section \<open>Sending\<close>

text \<open>
  \<open>p\<close> is the answer of \<open>post\<close>: every exception it throws becomes a false. The message is the vector
  the pointer refers to; the driver passes no null pointer here.
\<close>

definition udp_send :: "unit answer \<Rightarrow> bytes \<Rightarrow> udp_client \<Rightarrow> (bool \<times> udp_client) res" where
  "udp_send p message c =
     (if \<not> udp_running c then Inr (False, c)
      else bind_res (deref (output_strand c)) (\<lambda>_.
        case p of
          Value _ \<Rightarrow> Inr (True, c\<lparr>io_tasks := io_tasks c @ [Transmit message]\<rparr>)
        | _ \<Rightarrow> Inr (False, c)))"

section \<open>The I/O thread\<close>

text \<open>The handler posted by \<open>sendV2xMessage\<close>; the answer is the one of \<open>send_to\<close>.\<close>

definition run_transmit :: "unit answer \<Rightarrow> bytes \<Rightarrow> udp_client \<Rightarrow> effect list res" where
  "run_transmit r message c =
     bind_res (deref (udp_out_socket c)) (\<lambda>_.
       Inr (Send_to message (remote_udp_ep c) #
            (case r of
               Value _ \<Rightarrow> []
             | System_error e \<Rightarrow> [Emit (OnError e)]
             | Other_exception \<Rightarrow> [Emit (OnError Fault_code)])))"

text \<open>
  One turn of \<open>run\<close>: the oldest handler is taken and run. \<open>Deliver\<close> is the handler the listener
  posts, whose slot is \<open>process\<close>. An exception that leaves a handler leaves \<open>run\<close> and the
  thread's function.
\<close>

definition io_turn :: "world \<Rightarrow> unit answer \<Rightarrow> udp_client \<Rightarrow> (effect list \<times> udp_client) res" where
  "io_turn w r c =
     (case io_tasks c of
        [] \<Rightarrow> Inr ([], c)
      | Deliver d # ts \<Rightarrow>
          bind_res (process w d (c\<lparr>io_tasks := ts\<rparr>)) (\<lambda>(rs, c'). Inr (map Emit (message_signals rs), c'))
      | Transmit m # ts \<Rightarrow>
          bind_res (run_transmit r m c) (\<lambda>es. Inr (es, c\<lparr>io_tasks := ts\<rparr>)))"

text \<open>A completed wait of the listener's socket. Nobody connects to the listener's \<open>onError\<close>.\<close>

definition io_receive ::
    "error_code \<Rightarrow> nat answer \<Rightarrow> (nat \<Rightarrow> error_code + bytes) \<Rightarrow> udp_client \<Rightarrow> udp_client res" where
  "io_receive ec avail recv c =
     bind_res (deref (udp_listener c)) (\<lambda>l.
     bind_res (handle_recv_udp ec avail recv l) (\<lambda>(r, l').
       Inr (c\<lparr>udp_listener := Some l',
              io_tasks := io_tasks c @ (case r of Posted d \<Rightarrow> [Deliver d] | _ \<Rightarrow> [])\<rparr>)))"

text \<open>The end of the thread's function: \<open>run\<close> returned with \<open>err\<close>.\<close>

definition io_run_returned :: "error_code \<Rightarrow> effect list" where
  "io_run_returned err = (if is_error err then [Emit (OnError err)] else [])"

end
