(* ===== verification/Udp_Lifecycle.thy ===== *)
theory Udp_Lifecycle
  imports Udp_Radio_Client Inbound_Scan
begin

text \<open>
  The life of the UDP client: the invariant of its objects, which its operations and the handlers
  of its I/O thread keep, and with which no operation faults; the order in which accepted
  messages leave; the order in which Asio objects are destroyed.
\<close>

section \<open>Invariant\<close>

text \<open>
  The strand and the listener live on the current \<open>io_service\<close>; while the client runs every object
  exists and lives there, the listener listens and the thread can be joined; otherwise the
  thread cannot.
\<close>

definition wf_udp :: "udp_client \<Rightarrow> bool" where
  "wf_udp c \<longleftrightarrow>
     output_strand c = io c \<and>
     (\<forall>l. udp_listener c = Some l \<longrightarrow> io c = Some (lst_io l)) \<and>
     (udp_running c \<longrightarrow>
        (\<exists>i l. io c = Some i \<and> work c = Some i \<and> udp_out_socket c = Some i \<and>
               io_thread c = Some (i, True) \<and> udp_listener c = Some l \<and> lst_running l \<and> \<not> io_stopped c)) \<and>
     (\<not> udp_running c \<longrightarrow> (\<forall>i. io_thread c \<noteq> Some (i, True)))"

text \<open>No output socket and no work object outlive a connection.\<close>

definition tidy_udp :: "udp_client \<Rightarrow> bool" where
  "tidy_udp c \<longleftrightarrow> (\<not> udp_running c \<longrightarrow> udp_out_socket c = None \<and> work c = None)"

lemma deleted_simps [simp]: "deleted f None = []" "deleted f (Some i) = [f i]"
  by (simp_all add: deleted_def)

lemma deleted_listener_None [simp]: "deleted_listener None = []"
  by (simp add: deleted_listener_def)

lemma deref_simps [simp]: "deref None = Inl Null_dereference" "deref (Some x) = Inr x"
  by (simp_all add: deref_def)

lemma deref_eq_Inr [simp]: "deref p = Inr x \<longleftrightarrow> p = Some x"
  by (simp add: deref_def split: option.split)

lemma udp_init_wf [simp, step_inv]: "wf_udp udp_init"
  by (simp add: wf_udp_def udp_init_def)

lemma wf_udp_set_path [simp, step_inv]: "wf_udp (set_wave_file_path p c) = wf_udp c"
  by (simp add: wf_udp_def set_wave_file_path_def)

lemma wf_udp_runningE:
  assumes "wf_udp c" "udp_running c"
  obtains i l where "io c = Some i" "work c = Some i" "udp_out_socket c = Some i"
    "io_thread c = Some (i, True)" "udp_listener c = Some l" "lst_io l = i" "lst_running l"
    "output_strand c = Some i" "\<not> io_stopped c"
  using assms by (fastforce simp: wf_udp_def)

lemma wf_udp_stopped: "wf_udp c \<Longrightarrow> \<not> udp_running c \<Longrightarrow> io_thread c \<noteq> Some (i, True)"
  by (simp add: wf_udp_def)

section \<open>The operations keep it and do not fault\<close>

lemma udp_connect_running [simp]:
  "udp_running c \<Longrightarrow> udp_connect a n ra rp lp ec c = Inr (Returned False, ec, [], c)"
  by (simp add: udp_connect_def)

text \<open>The effects and the state after the three stages of a start.\<close>

definition started_client :: "nat \<Rightarrow> 16 word \<Rightarrow> endpoint \<Rightarrow> udp_client \<Rightarrow> udp_client" where
  "started_client n lp ep c =
     (reset_client n ep c)\<lparr>udp_listener := Some (snd (lst_start (new_listener n lp))),
       udp_out_socket := Some n, work := Some n\<rparr>"

definition start_effects :: "nat \<Rightarrow> endpoint \<Rightarrow> udp_client \<Rightarrow> effect list" where
  "start_effects n ep c =
     [Socket_new n (ep_version ep)] @ deleted Socket_delete (udp_out_socket c) @ [Work_new n] @
     deleted Work_delete (work c) @ [Listener_start n]"

lemma reset_client_fields [simp]:
  "io (reset_client n ep c) = Some n" "output_strand (reset_client n ep c) = Some n"
  "udp_listener (reset_client n ep c) = None" "io_tasks (reset_client n ep c) = []"
  "\<not> io_stopped (reset_client n ep c)" "remote_udp_ep (reset_client n ep c) = ep"
  "udp_running (reset_client n ep c) = udp_running c" "io_thread (reset_client n ep c) = io_thread c"
  "udp_out_socket (reset_client n ep c) = udp_out_socket c" "work (reset_client n ep c) = work c"
  "wave_cfg_dsrc_msg_ids (reset_client n ep c) = wave_cfg_dsrc_msg_ids c"
  "wave_cfg_psids (reset_client n ep c) = wave_cfg_psids c"
  "wave_file_path (reset_client n ep c) = wave_file_path c"
  by (simp_all add: reset_client_def)


lemma started_client_fields [simp]:
  "io (started_client n lp ep c) = Some n" "output_strand (started_client n lp ep c) = Some n"
  "udp_out_socket (started_client n lp ep c) = Some n" "work (started_client n lp ep c) = Some n"
  "udp_listener (started_client n lp ep c) = Some (snd (lst_start (new_listener n lp)))"
  "io_tasks (started_client n lp ep c) = []" "\<not> io_stopped (started_client n lp ep c)"
  "remote_udp_ep (started_client n lp ep c) = ep"
  "udp_running (started_client n lp ep c) = udp_running c"
  "io_thread (started_client n lp ep c) = io_thread c"
  by (simp_all add: started_client_def)

text \<open>Every way \<open>connect\<close> can end on a client that does not run.\<close>

datatype udp_end =
    No_endpoint error_code connect_outcome
  | No_listener error_code
  | No_socket connect_outcome
  | No_thread connect_outcome
  | Running

fun end_result :: "nat \<Rightarrow> 16 word \<Rightarrow> endpoint \<Rightarrow> udp_client \<Rightarrow> udp_end \<Rightarrow>
    connect_outcome \<times> error_code \<times> effect list \<times> udp_client" where
  "end_result n lp ep c (No_endpoint ec out) = (out, ec, [], c)"
| "end_result n lp ep c (No_listener ec) = (Returned False, ec, reset_effects n c, reset_client n ep c)"
| "end_result n lp ep c (No_socket out) =
     (out, Success, reset_effects n c @ [Listener_new n lp],
      (reset_client n ep c)\<lparr>udp_listener := Some (new_listener n lp)\<rparr>)"
| "end_result n lp ep c (No_thread out) =
     (out, Success, reset_effects n c @ [Listener_new n lp] @ start_effects n ep c, started_client n lp ep c)"
| "end_result n lp ep c Running =
     (Returned True, Success,
      reset_effects n c @ [Listener_new n lp] @ start_effects n ep c @ [Thread_start n, Emit OnConnect],
      (started_client n lp ep c)\<lparr>io_thread := Some (n, True), udp_running := True\<rparr>)"

definition start_end :: "udp_answers \<Rightarrow> 16 word \<Rightarrow> endpoint \<Rightarrow> udp_end" where
  "start_end a lp ep =
     (case listener_bind a lp of
        System_error e \<Rightarrow> No_listener e
      | Other_exception \<Rightarrow> No_listener Success
      | Value _ \<Rightarrow>
          (case socket_open a (ep_version ep) of
             Value _ \<Rightarrow>
               (case thread_create a of Value _ \<Rightarrow> Running | e \<Rightarrow> No_thread (answer_outcome e))
           | e \<Rightarrow> No_socket (answer_outcome e)))"

lemma udp_connect_eq:
  assumes "wf_udp c" "\<not> udp_running c"
  shows "udp_connect a n ra rp lp ec c =
    bind_res (remote_endpoint a ra rp ec) (\<lambda>r. Inr (case r of
        Inl (ec', out) \<Rightarrow> (out, ec', [], c)
      | Inr ep \<Rightarrow> end_result n lp ep c (start_end a lp ep)))"
proof (cases "remote_endpoint a ra rp ec")
  case (Inr r)
  have th: "io_thread c \<noteq> Some (i, True)" for i using assms by (rule wf_udp_stopped)
  show ?thesis
  proof (cases r)
    case (Inr ep)
    with \<open>remote_endpoint a ra rp ec = Inr r\<close> assms(2) th show ?thesis
      by (simp add: udp_connect_def udp_start_def start_end_def start_effects_def started_client_def
          Let_def reset_client_fields
          split: answer.split option.split bool.split)
  qed (use Inr assms(2) in \<open>simp add: udp_connect_def case_prod_beta\<close>)
qed (use assms(2) in \<open>simp add: udp_connect_def\<close>)

lemma end_result_wf:
  assumes "wf_udp c" "\<not> udp_running c" "end_result n lp ep c e = (out, ec', es, c')"
  shows "wf_udp c' \<and> (udp_running c' \<longleftrightarrow> e = Running)
    \<and> (tidy_udp c \<longrightarrow> (\<forall>x. e \<noteq> No_thread x) \<longrightarrow> tidy_udp c')"
  using assms by (cases e) (auto simp: wf_udp_def tidy_udp_def)

lemma start_end_Running:
  "start_end a lp ep = Running \<longleftrightarrow>
     listener_bind a lp = Value () \<and> socket_open a (ep_version ep) = Value () \<and> thread_create a = Value ()"
  by (auto simp: start_end_def split: answer.splits)

lemma start_end_No_thread: "start_end a lp ep = No_thread x \<Longrightarrow> thread_create a \<noteq> Value ()"
  by (auto simp: start_end_def split: answer.splits)

lemma udp_connect_wf [step_inv]:
  assumes "wf_udp c" "udp_connect a n ra rp lp ec c = Inr (out, ec', es, c')"
  shows "wf_udp c' \<and> (out = Returned True \<longrightarrow> udp_running c')
    \<and> (tidy_udp c \<longrightarrow> thread_create a = Value () \<longrightarrow> tidy_udp c')"
proof (cases "udp_running c")
  case False
  from assms obtain r where r: "remote_endpoint a ra rp ec = Inr r"
    by (auto simp: udp_connect_eq [OF _ False] bind_res_eq_Inr)
  show ?thesis
  proof (cases r)
    case (Inl x)
    with assms r False have "c' = c" "(ec', out) = x" by (auto simp: udp_connect_eq split: prod.splits)
    moreover have "out \<noteq> Returned True"
      using r Inl \<open>(ec', out) = x\<close>
      by (auto simp: remote_endpoint_def split: answer.splits list.splits prod.splits)
    ultimately show ?thesis using assms(1) by simp
  next
    case (Inr ep)
    then have res: "end_result n lp ep c (start_end a lp ep) = (out, ec', es, c')"
      using assms r False by (simp add: udp_connect_eq)
    have "out \<noteq> Returned True" if "start_end a lp ep \<noteq> Running"
      using res that by (auto simp: start_end_def split: answer.splits)
    with end_result_wf [OF assms(1) False res] show ?thesis
      using start_end_No_thread by blast
  qed
qed (use assms in auto)

lemma udp_close_total:
  assumes "wf_udp c"
  obtains es c' where "udp_close c = Inr (es, c')" "wf_udp c'" "\<not> udp_running c'"
    "tidy_udp c \<Longrightarrow> tidy_udp c'" "udp_close c' = Inr ([], c')" "io_tasks c' = io_tasks c"
proof (cases "udp_running c")
  case True
  from wf_udp_runningE [OF assms True] obtain i l where
    "io c = Some i" "work c = Some i" "udp_out_socket c = Some i" "io_thread c = Some (i, True)"
    "udp_listener c = Some l" "lst_io l = i" "output_strand c = Some i" by blast
  with assms True that show ?thesis
    by (auto simp: udp_close_def wf_udp_def tidy_udp_def)
next
  case False
  with assms that show ?thesis by (auto simp: udp_close_def)
qed

lemma udp_send_total:
  assumes "wf_udp c"
  shows "udp_send p m c =
    Inr (if udp_running c \<and> p = Value () then (True, c\<lparr>io_tasks := io_tasks c @ [Transmit m]\<rparr>) else (False, c))"
  using assms
  by (cases "udp_running c") (auto simp: udp_send_def elim: wf_udp_runningE split: answer.split)

lemma wf_udp_tasks [simp]: "wf_udp (c\<lparr>io_tasks := ts\<rparr>) = wf_udp c"
  by (simp add: wf_udp_def)

lemma base_ext_udp:
  assumes "base_ext c (c' :: udp_client)"
  shows "io c' = io c" "output_strand c' = output_strand c" "work c' = work c" "io_thread c' = io_thread c"
    "udp_running c' = udp_running c" "udp_out_socket c' = udp_out_socket c"
    "remote_udp_ep c' = remote_udp_ep c" "udp_listener c' = udp_listener c" "io_tasks c' = io_tasks c"
    "io_stopped c' = io_stopped c"
  using assms by (cases c; cases c'; simp add: base_ext_def)+

lemma base_ext_wf_udp: "base_ext c c' \<Longrightarrow> wf_udp c' = wf_udp c"
  by (simp add: wf_udp_def base_ext_udp)

section \<open>The I/O thread between \<open>connect\<close> and \<open>close\<close>\<close>

text \<open>
  While the client runs, any thread sends, the I/O thread takes handlers and waits of the listener's
  socket complete. A turn needs a running thread, a completed wait an outstanding one. The run
  returns the messages accepted by \<open>sendV2xMessage\<close> with the effects and the final state.
\<close>

datatype udp_event =
    Ev_send "unit answer" bytes
  | Ev_turn "unit answer"
  | Ev_receive error_code "nat answer" "nat \<Rightarrow> error_code + bytes"

definition waiting :: "udp_client \<Rightarrow> bool" where
  "waiting c \<longleftrightarrow> udp_running c \<and> (\<exists>l. udp_listener c = Some l \<and> lst_waiting l)"

fun udp_event_step :: "world \<Rightarrow> udp_event \<Rightarrow> udp_client \<Rightarrow> (bytes list \<times> effect list \<times> udp_client) res" where
  "udp_event_step w (Ev_send p m) c =
     bind_res (udp_send p m c) (\<lambda>(b, c'). Inr (if b then [m] else [], [], c'))"
| "udp_event_step w (Ev_turn r) c =
     (if udp_running c then bind_res (io_turn w r c) (\<lambda>(es, c'). Inr ([], es, c')) else Inr ([], [], c))"
| "udp_event_step w (Ev_receive ec avail recv) c =
     (if waiting c then bind_res (io_receive ec avail recv c) (\<lambda>c'. Inr ([], [], c')) else Inr ([], [], c))"

fun udp_events :: "world \<Rightarrow> udp_event list \<Rightarrow> udp_client \<Rightarrow> (bytes list \<times> effect list \<times> udp_client) res" where
  "udp_events w [] c = Inr ([], [], c)"
| "udp_events w (e # evs) c =
     bind_res (udp_event_step w e c) (\<lambda>(acc, es, c1).
     bind_res (udp_events w evs c1) (\<lambda>(acc', es', c2). Inr (acc @ acc', es @ es', c2)))"

text \<open>The messages in a trace handed to \<open>send_to\<close>, and those waiting for it.\<close>

fun transmitted :: "effect list \<Rightarrow> bytes list" where
  "transmitted [] = []"
| "transmitted (Send_to m ep # es) = m # transmitted es"
| "transmitted (_ # es) = transmitted es"

fun queued :: "task list \<Rightarrow> bytes list" where
  "queued [] = []"
| "queued (Transmit m # ts) = m # queued ts"
| "queued (Deliver d # ts) = queued ts"

lemma transmitted_append [simp]: "transmitted (xs @ ys) = transmitted xs @ transmitted ys"
  by (induction xs rule: transmitted.induct) simp_all

lemma transmitted_Emit [simp]: "transmitted (map Emit ss) = []"
  by (induction ss) simp_all

lemma queued_append [simp]: "queued (xs @ ys) = queued xs @ queued ys"
  by (induction xs rule: queued.induct) simp_all

definition sends_to :: "endpoint \<Rightarrow> effect list \<Rightarrow> bool" where
  "sends_to ep es \<longleftrightarrow> (\<forall>m ep'. Send_to m ep' \<in> set es \<longrightarrow> ep' = ep)"

lemma run_transmit_result:
  "run_transmit r m c = Inr es \<Longrightarrow>
   \<exists>ss. es = Send_to m (remote_udp_ep c) # map Emit ss \<and> (ss = [] \<longleftrightarrow> r = Value ())"
  by (cases r) (auto simp: run_transmit_def bind_res_eq_Inr Cons_eq_map_conv)

lemma io_turn_result:
  assumes "io_turn w r c = Inr (es, c')"
  shows "queued (io_tasks c) = transmitted es @ queued (io_tasks c')"
    and "udp_running c' = udp_running c \<and> udp_listener c' = udp_listener c \<and> remote_udp_ep c' = remote_udp_ep c"
    and "wf_udp c \<Longrightarrow> wf_udp c'"
    and "sends_to (remote_udp_ep c) es"
proof -
  consider (idle) "io_tasks c = []" "es = []" "c' = c"
    | (deliver) d ts rs where "io_tasks c = Deliver d # ts" "process w d (c\<lparr>io_tasks := ts\<rparr>) = Inr (rs, c')"
        "es = map Emit (message_signals rs)"
    | (transmit) m ts ss where "io_tasks c = Transmit m # ts" "c' = c\<lparr>io_tasks := ts\<rparr>"
        "es = Send_to m (remote_udp_ep c) # map Emit ss"
    using assms
    by (cases "io_tasks c"; cases "hd (io_tasks c)")
      (auto simp: io_turn_def bind_res_eq_Inr dest!: run_transmit_result)
  then have "queued (io_tasks c) = transmitted es @ queued (io_tasks c') \<and>
      udp_running c' = udp_running c \<and> udp_listener c' = udp_listener c \<and> remote_udp_ep c' = remote_udp_ep c
      \<and> wf_udp c' = wf_udp c \<and> sends_to (remote_udp_ep c) es"
  proof cases
    case deliver
    then have ext: "base_ext (c\<lparr>io_tasks := ts\<rparr>) c'" using process_outcome by blast
    from deliver show ?thesis
      using base_ext_udp [OF ext] base_ext_wf_udp [OF ext] by (auto simp: sends_to_def)
  qed (auto simp: sends_to_def)
  then show "queued (io_tasks c) = transmitted es @ queued (io_tasks c')"
    "udp_running c' = udp_running c \<and> udp_listener c' = udp_listener c \<and> remote_udp_ep c' = remote_udp_ep c"
    "wf_udp c \<Longrightarrow> wf_udp c'" "sends_to (remote_udp_ep c) es" by auto
qed

lemma io_receive_result:
  assumes "io_receive ec avail recv c = Inr c'"
  shows "queued (io_tasks c') = queued (io_tasks c)"
    and "udp_running c' = udp_running c \<and> remote_udp_ep c' = remote_udp_ep c"
    and "wf_udp c \<Longrightarrow> wf_udp c'"
proof -
  from assms obtain l r l' where l: "udp_listener c = Some l" "handle_recv_udp ec avail recv l = Inr (r, l')"
    and c': "c' = c\<lparr>udp_listener := Some l',
      io_tasks := io_tasks c @ (case r of Posted d \<Rightarrow> [Deliver d] | _ \<Rightarrow> [])\<rparr>"
    by (auto simp: io_receive_def bind_res_eq_Inr)
  then show "queued (io_tasks c') = queued (io_tasks c)"
    "udp_running c' = udp_running c \<and> remote_udp_ep c' = remote_udp_ep c"
    by (auto split: recv_result.splits)
  from l c' handle_recv_result [OF l(2)] show "wf_udp c \<Longrightarrow> wf_udp c'"
    by (auto simp: wf_udp_def)
qed

lemma udp_event_step_result:
  assumes "udp_event_step w e c = Inr (acc, es, c')" "wf_udp c"
  shows "queued (io_tasks c) @ acc = transmitted es @ queued (io_tasks c') \<and> wf_udp c' \<and>
    udp_running c' = udp_running c \<and> remote_udp_ep c' = remote_udp_ep c \<and> sends_to (remote_udp_ep c) es"
  using assms
  by (cases e)
    (auto simp: udp_send_total bind_res_eq_Inr sends_to_def io_turn_result(1-3) io_receive_result
      dest: io_turn_result(4) split: if_splits)

lemma udp_events_result:
  assumes "udp_events w evs c = Inr (acc, es, c')" "wf_udp c"
  shows "queued (io_tasks c) @ acc = transmitted es @ queued (io_tasks c') \<and> wf_udp c' \<and>
    udp_running c' = udp_running c \<and> remote_udp_ep c' = remote_udp_ep c \<and> sends_to (remote_udp_ep c) es"
  using assms
proof (induction evs arbitrary: c acc es)
  case (Cons e evs)
  then obtain a1 e1 c1 a2 e2 where "udp_event_step w e c = Inr (a1, e1, c1)"
    "udp_events w evs c1 = Inr (a2, e2, c')" "acc = a1 @ a2" "es = e1 @ e2"
    by (auto simp: bind_res_eq_Inr)
  with udp_event_step_result [of w e c a1 e1 c1] Cons.IH [of c1 a2 e2] Cons.prems(2)
  show ?case by (auto simp: sends_to_def) (metis append.assoc)+
qed (simp add: sends_to_def)

section \<open>What the end of a call of \<open>connect\<close> leaves\<close>

lemma remote_endpoint_total:
  "(\<And>s p. resolve_v4 a s p \<noteq> Value []) \<Longrightarrow> \<exists>r. remote_endpoint a ra rp ec = Inr r"
  by (cases "address_from_string a ra"; cases "resolve_v4 a ra (to_string (uint rp))")
    (auto simp: remote_endpoint_def split: list.split)

lemma remote_endpoint_Inl: "remote_endpoint a ra rp ec = Inr (Inl x) \<Longrightarrow> snd x \<noteq> Returned True"
  by (auto simp: remote_endpoint_def split: answer.splits list.splits prod.splits)

fun end_outcome :: "udp_end \<Rightarrow> connect_outcome" where
  "end_outcome (No_endpoint ec out) = out"
| "end_outcome (No_listener ec) = Returned False"
| "end_outcome (No_socket out) = out"
| "end_outcome (No_thread out) = out"
| "end_outcome Running = Returned True"

lemma start_end_returns: "end_outcome (start_end a lp ep) = Returned True \<Longrightarrow> start_end a lp ep = Running"
  by (auto simp: start_end_def split: answer.splits)

lemma quiet_effects [simp]: "emitted (reset_effects n c) = []" "emitted (start_effects n ep c) = []"
  by (simp_all add: reset_effects_def start_effects_def deleted_def deleted_listener_def split: option.split)

lemma end_result_facts:
  assumes "end_result n lp ep c e = (out, ec', es, c')" "\<not> udp_running c"
    "end_outcome e = Returned True \<Longrightarrow> e = Running"
  shows "(out = Returned True \<longleftrightarrow> e = Running) \<and>
    (e = Running \<longrightarrow> udp_running c' \<and> ec' = Success \<and> io_tasks c' = [] \<and> waiting c' \<and> remote_udp_ep c' = ep \<and>
       (\<exists>fs. es = fs @ [Emit OnConnect] \<and> emitted fs = [])) \<and>
    (e \<noteq> Running \<longrightarrow> \<not> udp_running c' \<and> emitted es = [])"
proof (cases e)
  case Running
  then have "es = (reset_effects n c @ [Listener_new n lp] @ start_effects n ep c @ [Thread_start n]) @ [Emit OnConnect]"
    using assms(1) by simp
  moreover have "emitted (reset_effects n c @ [Listener_new n lp] @ start_effects n ep c @ [Thread_start n]) = []"
    by simp
  ultimately have "\<exists>fs. es = fs @ [Emit OnConnect] \<and> emitted fs = []" by blast
  with Running assms show ?thesis by (auto simp: waiting_def)
qed (use assms in auto)

section \<open>A running client, for the witnesses\<close>

definition ok_udp :: udp_answers where
  "ok_udp = \<lparr>address_from_string = (\<lambda>s. Value (V4, s)), resolve_v4 = (\<lambda>s p. Other_exception),
     listener_bind = (\<lambda>p. Value ()), socket_open = (\<lambda>v. Value ()), thread_create = Value ()\<rparr>"

definition up_client :: "udp_client \<Rightarrow> nat \<Rightarrow> udp_client" where
  "up_client c n =
     (started_client n 5398 (Endpoint V4 ''obu'' 1516) c)\<lparr>io_thread := Some (n, True), udp_running := True\<rparr>"

lemma remote_endpoint_ok [simp]: "remote_endpoint ok_udp s p ec = Inr (Inr (Endpoint V4 s p))"
  by (simp add: remote_endpoint_def ok_udp_def)

lemma udp_connect_ok:
  assumes "wf_udp c" "\<not> udp_running c"
  shows "udp_connect ok_udp n ''obu'' 1516 5398 ec c =
    Inr (Returned True, Success,
      reset_effects n c @ [Listener_new n 5398] @ start_effects n (Endpoint V4 ''obu'' 1516) c @
        [Thread_start n, Emit OnConnect],
      up_client c n)"
proof -
  have "start_end ok_udp 5398 (Endpoint V4 ''obu'' 1516) = Running"
    by (simp add: start_end_Running ok_udp_def)
  with assms show ?thesis by (simp add: udp_connect_eq up_client_def)
qed

lemma udp_init_stopped [simp]: "\<not> udp_running udp_init"
  by (simp add: udp_init_def)

lemma up_client_running [simp]: "udp_running (up_client c n)"
  by (simp add: up_client_def)

lemma up_client_wf: "wf_udp c \<Longrightarrow> \<not> udp_running c \<Longrightarrow> wf_udp (up_client c n)"
  using udp_connect_wf udp_connect_ok by blast

lemma up_init_wf [simp]: "wf_udp (up_client udp_init n)"
  by (simp add: up_client_wf)

section \<open>Properties\<close>

text \<open>The states a client gets to.\<close>

inductive udp_reach :: "world \<Rightarrow> udp_client \<Rightarrow> bool" for w :: world where
  reach_init: "udp_reach w udp_init"
| reach_path: "udp_reach w c \<Longrightarrow> udp_reach w (set_wave_file_path f c)"
| reach_connect:
    "udp_reach w c \<Longrightarrow> udp_connect a n ra rp lp ec c = Inr (out, ec', es, c') \<Longrightarrow> udp_reach w c'"
| reach_close: "udp_reach w c \<Longrightarrow> udp_close c = Inr (es, c') \<Longrightarrow> udp_reach w c'"
| reach_events: "udp_reach w c \<Longrightarrow> udp_events w evs c = Inr (acc, es, c') \<Longrightarrow> udp_reach w c'"

lemma udp_reach_wf: "udp_reach w c \<Longrightarrow> wf_udp c"
proof (induction rule: udp_reach.induct)
  case (reach_connect c a n ra rp lp ec out ec' es c')
  with udp_connect_wf [OF reach_connect(3,2)] show ?case by simp
next
  case (reach_close c es c')
  from udp_close_total [OF reach_close(3)] reach_close(2) show ?case by fastforce
next
  case (reach_events c evs acc es c')
  with udp_events_result [OF reach_events(2,3)] show ?case by simp
qed simp_all

lemma udp_destruct_total:
  assumes "wf_udp c"
  shows "\<exists>es. udp_destruct c = Inr es"
proof -
  obtain es c' where c': "udp_close c = Inr (es, c')" "wf_udp c'" "\<not> udp_running c'"
    using udp_close_total [OF assms] by blast
  then have "io_thread c' \<noteq> Some (i, True)" for i by (simp add: wf_udp_stopped)
  with c'(1) show ?thesis by (auto simp: udp_destruct_def split: option.splits bool.splits)
qed

text \<open>
  In every state the client can get to, whatever failed before, no operation dereferences an empty
  pointer or destroys a thread that can be joined: \<open>close\<close> returns a client that does not run,
  \<open>sendV2xMessage\<close> returns, \<open>connect\<close> returns or throws one of its exceptions (for a resolver that
  reports success with at least one endpoint, as documented), and the destructor ends.
\<close>

lemma udp_operations_total:
  assumes "udp_reach w c" "\<And>s p. resolve_v4 a s p \<noteq> Value []"
  shows "(\<exists>es c'. udp_close c = Inr (es, c') \<and> \<not> udp_running c') \<and>
    (\<exists>b c'. udp_send p m c = Inr (b, c') \<and> (b \<longrightarrow> udp_running c)) \<and>
    (\<exists>res. udp_connect a n ra rp lp ec c = Inr res) \<and> (\<exists>es. udp_destruct c = Inr es)"
proof -
  note wf = udp_reach_wf [OF assms(1)]
  have conn: "\<exists>res. udp_connect a n ra rp lp ec c = Inr res"
  proof (cases "udp_running c")
    case False
    obtain r where "remote_endpoint a ra rp ec = Inr r"
      using remote_endpoint_total [of a] assms(2) by blast
    then have "udp_connect a n ra rp lp ec c = Inr (case r of
        Inl (ec', out) \<Rightarrow> (out, ec', [], c) | Inr ep \<Rightarrow> end_result n lp ep c (start_end a lp ep))"
      by (simp add: udp_connect_eq [OF wf False])
    then show ?thesis by (rule exI)
  qed simp
  have "\<exists>es c'. udp_close c = Inr (es, c') \<and> \<not> udp_running c'"
    using udp_close_total [OF wf] by metis
  moreover have "\<exists>b c'. udp_send p m c = Inr (b, c') \<and> (b \<longrightarrow> udp_running c)"
    by (auto simp: udp_send_total [OF wf])
  ultimately show ?thesis using conn udp_destruct_total [OF wf] by simp
qed

text \<open>
  \<open>close\<close> on a running client removes the work, stops the \<open>io_service\<close>, joins the thread, stops the
  listener and closes the output socket, in this order, and emits \<open>onDisconnect\<close> once; the handlers
  still posted are not run. Afterwards the client refuses messages and \<open>close\<close> does nothing.
\<close>

lemma udp_close_contract:
  assumes "udp_reach w c" "udp_running c"
  shows "\<exists>i c'. udp_close c =
      Inr ([Work_delete i, Io_stop i, Thread_join i, Listener_stop i, Socket_delete i, Emit OnDisconnect], c') \<and>
    \<not> udp_running c' \<and> io_tasks c' = io_tasks c \<and> udp_close c' = Inr ([], c') \<and>
    (\<forall>p m. udp_send p m c' = Inr (False, c'))"
proof -
  from wf_udp_runningE [OF udp_reach_wf [OF assms(1)] assms(2)] obtain i l where
    "io c = Some i" "work c = Some i" "udp_out_socket c = Some i" "io_thread c = Some (i, True)"
    "udp_listener c = Some l" "lst_io l = i" by blast
  with assms(2) show ?thesis by (simp add: udp_close_def udp_send_def)
qed

text \<open>
  \<open>connect\<close> on a client that does not run. It returns true exactly when the remote address is found,
  the local port can be bound, the output socket opened and the thread created; then the client
  runs with the new remote endpoint, no handler of an earlier connection is left and \<open>onConnect\<close> is
  emitted once, as the last thing. In every other case the client does not run and nothing is emitted.
\<close>

lemma udp_connect_contract:
  assumes "udp_reach w c" "\<not> udp_running c" "udp_connect a n ra rp lp ec c = Inr (out, ec', es, c')"
  shows "(out = Returned True \<longleftrightarrow>
      (\<exists>ep. remote_endpoint a ra rp ec = Inr (Inr ep) \<and> listener_bind a lp = Value () \<and>
            socket_open a (ep_version ep) = Value () \<and> thread_create a = Value ())) \<and>
    (out = Returned True \<longrightarrow> udp_running c' \<and> ec' = Success \<and> io_tasks c' = [] \<and> waiting c' \<and>
       remote_endpoint a ra rp ec = Inr (Inr (remote_udp_ep c')) \<and> (\<exists>fs. es = fs @ [Emit OnConnect] \<and> emitted fs = [])) \<and>
    (out \<noteq> Returned True \<longrightarrow> \<not> udp_running c' \<and> emitted es = [])"
proof -
  note eq = udp_connect_eq [OF udp_reach_wf [OF assms(1)] assms(2)]
  from assms(3) obtain r where r: "remote_endpoint a ra rp ec = Inr r" unfolding eq by (auto simp: bind_res_eq_Inr)
  show ?thesis
  proof (cases r)
    case (Inl x)
    then have "snd x \<noteq> Returned True" using remote_endpoint_Inl r by blast
    with Inl r assms show ?thesis unfolding eq by (auto split: prod.splits)
  next
    case (Inr ep)
    then have res: "end_result n lp ep c (start_end a lp ep) = (out, ec', es, c')"
      using assms(3) r unfolding eq by simp
    have ep: "remote_endpoint a ra rp ec = Inr (Inr ep') \<longleftrightarrow> ep' = ep" for ep'
      using r Inr by auto
    from end_result_facts [OF res assms(2) start_end_returns]
    show ?thesis unfolding ep start_end_Running by (metis (no_types))
  qed
qed

end
