(* ===== verification/Udp_Io_Thread.thy ===== *)
theory Udp_Io_Thread
  imports Udp_Lifecycle
begin

text \<open>
  What happens to messages and objects behind the UDP client's calls: accepted messages leave in order
  and once, are lost when the client is closed before they left; a receive error ends the
  reception for good; the order in which a reconnection destroys Asio objects.
\<close>

section \<open>Accepted messages\<close>

text \<open>
  Between \<open>connect\<close> and \<open>close\<close>, however sends, turns of the I/O thread and receptions interleave:
  the messages handed to \<open>send_to\<close> followed by those still queued are those queued at the start followed
  by those \<open>sendV2xMessage\<close> accepted, so every accepted message leaves exactly once and in order, unchanged;
  all of them go to the endpoint \<open>connect\<close> set, and the client keeps running.
\<close>

lemma udp_sends_in_order:
  assumes "udp_reach w c" "udp_events w evs c = Inr (accepted, es, c')"
  shows "transmitted es @ queued (io_tasks c') = queued (io_tasks c) @ accepted \<and>
    (\<forall>m ep. Send_to m ep \<in> set es \<longrightarrow> ep = remote_udp_ep c) \<and> udp_running c' = udp_running c"
  using udp_events_result [OF assms(2) udp_reach_wf [OF assms(1)]] by (simp add: sends_to_def)

lemma up_client_reach: "udp_reach w (up_client udp_init n)"
  using reach_connect [OF reach_init udp_connect_ok] by simp

lemma up_client_fields [simp]:
  "io_tasks (up_client c n) = []" "remote_udp_ep (up_client c n) = Endpoint V4 ''obu'' 1516"
  "udp_out_socket (up_client c n) = Some n"
  by (simp_all add: up_client_def)

lemma two_sends:
  "udp_events w [Ev_send (Value ()) [1], Ev_send (Value ()) [2], Ev_turn (Value ()), Ev_turn (System_error No_memory)]
     (up_client udp_init 1) =
   Inr ([[1], [2]],
     [Send_to [1] (Endpoint V4 ''obu'' 1516), Send_to [2] (Endpoint V4 ''obu'' 1516), Emit (OnError No_memory)],
     up_client udp_init 1)"
proof -
  have "(up_client udp_init 1)\<lparr>io_tasks := []\<rparr> = up_client udp_init 1"
    by (simp add: up_client_def started_client_def reset_client_def)
  then show ?thesis
    by (simp add: udp_send_total io_turn_def run_transmit_def)
qed

text \<open>
  The queue drains. When only messages are queued, as many turns as there are messages hand all of
  them to \<open>send_to\<close>, each failure is signalled once and the queue is empty.
\<close>

lemma io_turn_transmit:
  assumes "wf_udp c" "udp_running c" "io_tasks c = Transmit m # ts"
  shows "io_turn w r c = Inr (Send_to m (remote_udp_ep c) #
      (case r of Value _ \<Rightarrow> [] | System_error e \<Rightarrow> [Emit (OnError e)] | Other_exception \<Rightarrow> [Emit (OnError Fault_code)]),
    c\<lparr>io_tasks := ts\<rparr>)"
  using assms by (auto simp: io_turn_def run_transmit_def elim: wf_udp_runningE split: answer.split)

lemma udp_drains:
  assumes "wf_udp c" "udp_running c" "io_tasks c = map Transmit ms"
  shows "\<exists>es. udp_events w (replicate (length ms) (Ev_turn r)) c = Inr ([], es, c\<lparr>io_tasks := []\<rparr>) \<and>
    transmitted es = ms \<and> length (emitted es) = (if r = Value () then 0 else length ms)"
  using assms
proof (induction ms arbitrary: c)
  case (Cons m ms)
  then obtain es where es: "udp_events w (replicate (length ms) (Ev_turn r)) (c\<lparr>io_tasks := map Transmit ms\<rparr>) =
      Inr ([], es, c\<lparr>io_tasks := []\<rparr>)" "transmitted es = ms"
      "length (emitted es) = (if r = Value () then 0 else length ms)"
    using Cons.IH [of "c\<lparr>io_tasks := map Transmit ms\<rparr>"] by auto
  from Cons.prems io_turn_transmit [of c m "map Transmit ms" w r] es show ?case
    by (cases r) simp_all
qed simp

definition loaded_queue :: udp_client where
  "loaded_queue = (up_client udp_init 1)\<lparr>io_tasks := [Transmit [1], Transmit [2]]\<rparr>"

lemma loaded_queue_reach: "udp_reach w loaded_queue"
proof -
  have "udp_events w [Ev_send (Value ()) [1], Ev_send (Value ()) [2]] (up_client udp_init 1) =
      Inr ([[1], [2]], [], loaded_queue)"
    by (simp add: udp_send_total loaded_queue_def)
  with up_client_reach show ?thesis by (rule reach_events)
qed

lemma transmitted_quiet:
  "transmitted (reset_effects n c) = []" "transmitted (start_effects n ep c) = []"
  by (simp_all add: reset_effects_def start_effects_def deleted_def deleted_listener_def split: option.split)

lemma end_result_transmitted: "end_result n lp ep c e = (out, ec', es, c') \<Longrightarrow> transmitted es = []"
  by (cases e) (auto simp: transmitted_quiet)

text \<open>
  C33: a true from \<open>sendV2xMessage\<close> does not mean the message left. Whatever is still queued when the
  client is closed is dropped by the next \<open>connect\<close>: neither call transmits it and the queue is empty
  afterwards, and no signal but \<open>onDisconnect\<close> and \<open>onConnect\<close> tells of it.
\<close>

theorem udp_close_drops_queue:
  assumes "udp_reach w c" "udp_close c = Inr (es, c1)"
    "udp_connect a n ra rp lp ec c1 = Inr (Returned True, ec', fs, c2)"
  shows "transmitted (es @ fs) = [] \<and> io_tasks c2 = [] \<and> set (emitted (es @ fs)) \<subseteq> {OnDisconnect, OnConnect}"
proof -
  note wf = udp_reach_wf [OF assms(1)]
  have c1: "udp_reach w c1" using assms(1,2) by (rule reach_close)
  have stop: "\<not> udp_running c1"
    using udp_close_total [OF wf] assms(2) by (metis Inr_inject prod.inject)
  have "transmitted es = [] \<and> set (emitted es) \<subseteq> {OnDisconnect}"
    using assms(2) by (auto simp: udp_close_def bind_res_eq_Inr deleted_def split: if_splits option.splits)
  moreover obtain r where r: "remote_endpoint a ra rp ec = Inr r"
    using assms(3) by (auto simp: udp_connect_eq [OF udp_reach_wf [OF c1] stop] bind_res_eq_Inr)
  moreover have "transmitted fs = []"
    using assms(3) r
    by (auto simp: udp_connect_eq [OF udp_reach_wf [OF c1] stop] dest: end_result_transmitted split: sum.splits)
  moreover have "io_tasks c2 = [] \<and> set (emitted fs) \<subseteq> {OnConnect}"
  proof (cases r)
    case (Inl x)
    with r assms(3) remote_endpoint_Inl [of a ra rp ec x] show ?thesis
      by (auto simp: udp_connect_eq [OF udp_reach_wf [OF c1] stop] split: prod.splits)
  next
    case (Inr ep)
    with r assms(3) have "end_result n lp ep c1 (start_end a lp ep) = (Returned True, ec', fs, c2)"
      by (simp add: udp_connect_eq [OF udp_reach_wf [OF c1] stop])
    from end_result_facts [OF this stop start_end_returns] show ?thesis by auto
  qed
  ultimately show ?thesis by auto
qed

theorem udp_close_drops_queue_witness:
  "\<exists>es c1 fs c2. udp_close loaded_queue = Inr (es, c1) \<and>
     udp_connect ok_udp 2 ''obu'' 1516 5398 Success c1 = Inr (Returned True, Success, fs, c2) \<and>
     queued (io_tasks loaded_queue) = [[1], [2]] \<and> transmitted (es @ fs) = [] \<and> io_tasks c2 = []"
proof -
  let ?w = "deployed_world ''w''"
  from udp_close_total [OF udp_reach_wf [OF loaded_queue_reach [of ?w]]]
  obtain es c1 where c1: "udp_close loaded_queue = Inr (es, c1)" "wf_udp c1" "\<not> udp_running c1" .
  obtain fs c2 where c2: "udp_connect ok_udp 2 ''obu'' 1516 5398 Success c1 = Inr (Returned True, Success, fs, c2)"
    using udp_connect_ok [OF c1(2,3)] by blast
  from udp_close_drops_queue [OF loaded_queue_reach [of ?w] c1(1) c2] c1(1) c2
  show ?thesis by (auto simp: loaded_queue_def)
qed

section \<open>The end of reception\<close>

fun inbox :: "task list \<Rightarrow> bytes list" where
  "inbox [] = []"
| "inbox (Deliver d # ts) = d # inbox ts"
| "inbox (Transmit m # ts) = inbox ts"

lemma inbox_append [simp]: "inbox (xs @ ys) = inbox xs @ inbox ys"
  by (induction xs rule: inbox.induct) simp_all

lemma io_turn_inbox: "io_turn w r c = Inr (es, c') \<Longrightarrow> \<exists>ds. inbox (io_tasks c) = ds @ inbox (io_tasks c')"
proof -
  assume turn: "io_turn w r c = Inr (es, c')"
  show ?thesis
  proof (cases "io_tasks c")
    case Nil
    with turn show ?thesis by (simp add: io_turn_def)
  next
    case (Cons t ts)
    have "io_tasks c' = ts"
    proof (cases t)
      case (Deliver d)
      with turn Cons obtain rs where "process w d (c\<lparr>io_tasks := ts\<rparr>) = Inr (rs, c')"
        by (auto simp: io_turn_def bind_res_eq_Inr)
      with process_outcome have "base_ext (c\<lparr>io_tasks := ts\<rparr>) c'" by blast
      then show ?thesis by (simp add: base_ext_udp)
    qed (use turn Cons in \<open>auto simp: io_turn_def bind_res_eq_Inr\<close>)
    with Cons show ?thesis by (cases t) auto
  qed
qed

lemma step_not_waiting:
  assumes "udp_event_step w e c = Inr (acc, es, c')" "wf_udp c" "\<not> waiting c"
  shows "\<not> waiting c' \<and> (\<exists>ds. inbox (io_tasks c) = ds @ inbox (io_tasks c'))"
  using assms
  by (cases e)
    (auto simp: udp_send_total waiting_def bind_res_eq_Inr io_turn_result(2) io_turn_inbox split: if_splits)

lemma events_not_waiting:
  assumes "udp_events w evs c = Inr (acc, es, c')" "wf_udp c" "\<not> waiting c"
  shows "\<not> waiting c' \<and> (\<exists>ds. inbox (io_tasks c) = ds @ inbox (io_tasks c'))"
  using assms
proof (induction evs arbitrary: c acc es)
  case (Cons e evs)
  then obtain a1 e1 c1 a2 e2 where step: "udp_event_step w e c = Inr (a1, e1, c1)"
    and rest: "udp_events w evs c1 = Inr (a2, e2, c')"
    by (auto simp: bind_res_eq_Inr)
  have "wf_udp c1" using udp_event_step_result [OF step Cons.prems(2)] by simp
  with Cons.IH [OF rest] step_not_waiting [OF step Cons.prems(2,3)] show ?case by auto
qed simp

text \<open>
  C34: a receive error other than \<open>operation_aborted\<close> ends the reception without a trace. Nobody listens
  to the listener's \<open>onError\<close>, and no new wait is started: after it, whatever is sent, received or
  run until \<open>close\<close>, \<open>connected\<close> stays true, no wait is outstanding and the only datagrams that still
  reach \<open>process\<close> are those posted before.
\<close>

theorem udp_receive_error_silent:
  assumes "udp_reach w c" "waiting c" "is_error ec" "ec \<noteq> operation_aborted"
    "udp_events w (Ev_receive ec avail recv # evs) c = Inr (acc, es, c')"
  shows "udp_running c' \<and> \<not> waiting c' \<and> (\<exists>ds. inbox (io_tasks c) = ds @ inbox (io_tasks c'))"
proof -
  note wf = udp_reach_wf [OF assms(1)]
  from assms(2,5) obtain c1 a2 where rec: "io_receive ec avail recv c = Inr c1"
    and rest: "udp_events w evs c1 = Inr (a2, es, c')"
    by (auto simp: bind_res_eq_Inr)
  from rec assms(3,4) have dead: "\<not> waiting c1" "inbox (io_tasks c1) = inbox (io_tasks c)"
    by (auto simp: io_receive_def waiting_def handle_recv_udp_def bind_res_eq_Inr Let_def)
  have "wf_udp c1" "udp_running c1"
    using io_receive_result [OF rec] wf assms(2) by (auto simp: waiting_def)
  with events_not_waiting [OF rest _ dead(1)] udp_events_result [OF rest] dead(2)
  show ?thesis by auto
qed

lemma up_client_waiting [simp]: "waiting (up_client c n)"
  by (simp add: up_client_def waiting_def)

theorem udp_receive_error_silent_witness:
  "\<exists>c'. udp_events (deployed_world ''w'')
      [Ev_receive Connection_refused (Value 0) (\<lambda>n. Inr []), Ev_receive Success (Value 1) (\<lambda>n. Inr [9])]
      (up_client udp_init 1) = Inr ([], [], c') \<and> udp_running c' \<and> \<not> waiting c'"
proof -
  have "\<exists>c'. udp_events (deployed_world ''w'')
      [Ev_receive Connection_refused (Value 0) (\<lambda>n. Inr []), Ev_receive Success (Value 1) (\<lambda>n. Inr [9])]
      (up_client udp_init 1) = Inr ([], [], c')"
    by (simp add: io_receive_def handle_recv_udp_def is_error_def operation_aborted_def waiting_def up_client_def)
  then obtain c' where c': "udp_events (deployed_world ''w'')
      [Ev_receive Connection_refused (Value 0) (\<lambda>n. Inr []), Ev_receive Success (Value 1) (\<lambda>n. Inr [9])]
      (up_client udp_init 1) = Inr ([], [], c')" by blast
  have "is_error Connection_refused" "Connection_refused \<noteq> operation_aborted"
    by (simp_all add: is_error_def operation_aborted_def)
  from udp_receive_error_silent [OF up_client_reach up_client_waiting this c'] c' show ?thesis by blast
qed

section \<open>The order of destruction\<close>

text \<open>
  Asio's documentation asks that an I/O object, a work object or a running call not outlive the
  \<open>io_service\<close> it was made with. \<open>lifetime_ok A es\<close>: along the trace, from the services in \<open>A\<close>,
  every such object is made, used and destroyed while its service exists. Strands are left out.
\<close>

fun service_used :: "effect \<Rightarrow> nat option" where
  "service_used (Io_delete i) = Some i"
| "service_used (Io_stop i) = Some i"
| "service_used (Work_new i) = Some i"
| "service_used (Work_delete i) = Some i"
| "service_used (Listener_new i p) = Some i"
| "service_used (Listener_start i) = Some i"
| "service_used (Listener_stop i) = Some i"
| "service_used (Listener_delete i) = Some i"
| "service_used (Socket_new i v) = Some i"
| "service_used (Socket_delete i) = Some i"
| "service_used (Thread_start i) = Some i"
| "service_used _ = None"

fun services_step :: "effect \<Rightarrow> nat set \<Rightarrow> nat set" where
  "services_step (Io_new i) A = insert i A"
| "services_step (Io_delete i) A = A - {i}"
| "services_step _ A = A"

fun lifetime_ok :: "nat set \<Rightarrow> effect list \<Rightarrow> bool" where
  "lifetime_ok A [] = True"
| "lifetime_ok A (e # es) \<longleftrightarrow>
     (case service_used e of None \<Rightarrow> True | Some i \<Rightarrow> i \<in> A) \<and> lifetime_ok (services_step e A) es"

lemma lifetime_ok_append [simp]:
  "lifetime_ok A (es @ fs) \<longleftrightarrow> lifetime_ok A es \<and> lifetime_ok (fold services_step es A) fs"
  by (induction es arbitrary: A) auto

text \<open>
  C35: a reconnection breaks this. On a client that was connected before (it has a listener) and does
  not run, a call of \<open>connect\<close> whose address is found replaces the \<open>io_service\<close> first and deletes the
  listener of the old one afterwards, whatever happens next.
\<close>

theorem udp_reconnect_order:
  assumes "udp_reach w c" "\<not> udp_running c" "udp_listener c = Some l" "io c \<noteq> Some n"
    "remote_endpoint a ra rp ec = Inr (Inr ep)"
    "udp_connect a n ra rp lp ec c = Inr (out, ec', es, c')"
  shows "\<exists>fs gs. es = [Io_new n, Io_delete (lst_io l), Strand_new n, Strand_delete (lst_io l)] @ fs @
      Listener_delete (lst_io l) # gs \<and> \<not> lifetime_ok (set_option (io c)) es"
proof -
  note wf = udp_reach_wf [OF assms(1)]
  have i: "io c = Some (lst_io l)" "output_strand c = Some (lst_io l)" "n \<noteq> lst_io l"
    using wf assms(3,4) by (auto simp: wf_udp_def)
  have res: "end_result n lp ep c (start_end a lp ep) = (out, ec', es, c')"
    using assms(6) unfolding udp_connect_eq [OF wf assms(2)] by (simp add: assms(5))
  have "\<exists>gs. es = reset_effects n c @ gs"
  proof (cases "start_end a lp ep")
    case (No_endpoint x y)
    then show ?thesis by (simp add: start_end_def split: answer.splits)
  qed (use res in auto)
  then obtain gs where gs: "es = reset_effects n c @ gs" ..
  let ?fs = "if lst_running l then [Listener_stop (lst_io l)] else []"
  have es: "es = [Io_new n, Io_delete (lst_io l), Strand_new n, Strand_delete (lst_io l)] @ ?fs @
      Listener_delete (lst_io l) # gs"
    by (simp add: gs reset_effects_def i assms(3) deleted_listener_def)
  have "\<not> lifetime_ok (set_option (io c)) es"
    using i(3) unfolding es by (simp add: i)
  with es show ?thesis by blast
qed

theorem udp_reconnect_order_witness:
  "\<exists>es c1 fs c2. udp_close (up_client udp_init 1) = Inr (es, c1) \<and>
     udp_connect ok_udp 2 ''obu'' 1516 5398 Success c1 = Inr (Returned True, Success, fs, c2) \<and>
     \<not> lifetime_ok {1} fs"
proof -
  let ?w = "deployed_world ''w''"
  from udp_close_total [OF up_init_wf [of 1]] obtain es c1 where
    c1: "udp_close (up_client udp_init 1) = Inr (es, c1)" "wf_udp c1" "\<not> udp_running c1" .
  then obtain l where l: "io c1 = Some 1" "udp_listener c1 = Some l"
    by (auto simp: udp_close_def up_client_def)
  have reach: "udp_reach ?w c1" using up_client_reach c1(1) by (rule reach_close)
  note c2 = udp_connect_ok [OF c1(2,3), of 2 Success]
  have "\<not> lifetime_ok (set_option (io c1)) (reset_effects 2 c1 @ [Listener_new 2 5398] @
      start_effects 2 (Endpoint V4 ''obu'' 1516) c1 @ [Thread_start 2, Emit OnConnect])"
    using udp_reconnect_order [OF reach c1(3) l(2) _ remote_endpoint_ok c2] l(1) by auto
  with c1(1) c2 l(1) show ?thesis by auto
qed

text \<open>
  The other paths respect it. The first connection of a client (no listener yet, no socket or work
  left) makes every object on an existing service, and the destructor of a client that keeps no socket
  or work outside a connection destroys every object before its service and leaves no service.
\<close>

lemma udp_lifetime:
  assumes "udp_reach w c" "tidy_udp c"
  shows "(\<not> udp_running c \<and> udp_listener c = None \<and> io c \<noteq> Some n \<and>
      udp_connect a n ra rp lp ec c = Inr (out, ec', es, c') \<longrightarrow> lifetime_ok (set_option (io c)) es) \<and>
    (udp_destruct c = Inr fs \<longrightarrow>
      lifetime_ok (set_option (io c)) fs \<and> fold services_step fs (set_option (io c)) = {})"
proof (intro conjI impI)
  note wf = udp_reach_wf [OF assms(1)]
  assume h: "\<not> udp_running c \<and> udp_listener c = None \<and> io c \<noteq> Some n \<and>
      udp_connect a n ra rp lp ec c = Inr (out, ec', es, c')"
  then have none: "udp_out_socket c = None" "work c = None" using assms(2) by (auto simp: tidy_udp_def)
  from h obtain r where r: "remote_endpoint a ra rp ec = Inr r"
    by (auto simp: udp_connect_eq [OF wf] bind_res_eq_Inr)
  have del: "lifetime_ok A (deleted Strand_delete x) \<and> fold services_step (deleted Strand_delete x) A = A" for x A
    by (cases x) simp_all
  show "lifetime_ok (set_option (io c)) es"
  proof (cases r)
    case (Inl x)
    with h r show ?thesis by (auto simp: udp_connect_eq [OF wf] split: prod.splits)
  next
    case (Inr ep)
    with h r have "end_result n lp ep c (start_end a lp ep) = (out, ec', es, c')"
      by (auto simp: udp_connect_eq [OF wf])
    with h none del show ?thesis
      by (cases "start_end a lp ep"; cases "io c")
        (auto simp: reset_effects_def start_effects_def)
  qed
next
  note wf = udp_reach_wf [OF assms(1)]
  assume "udp_destruct c = Inr fs"
  then have "lifetime_ok (set_option (io c)) fs \<and> fold services_step fs (set_option (io c)) = {}"
    using wf assms(2)
    by (cases "udp_running c"; cases "udp_listener c"; cases "io c"; cases "output_strand c")
      (auto simp: udp_destruct_def udp_close_def wf_udp_def tidy_udp_def bind_res_eq_Inr deleted_listener_def
        split: if_splits option.splits bool.splits)
  then show "lifetime_ok (set_option (io c)) fs" "fold services_step fs (set_option (io c)) = {}" by auto
qed

end
