(* ===== verification/Udp_Channel.thy ===== *)
theory Udp_Channel
  imports Udp_Io_Thread
begin

text \<open>
  An abstract specification of the UDP transport, a channel to one peer with a queue in each direction,
  and the proof that the client with all its Asio objects implements it: every operation of the
  client and every turn of its I/O thread is one step of the channel, or none.
\<close>

section \<open>The channel\<close>

record channel =
  ch_open :: bool
  ch_listening :: bool
  ch_peer :: endpoint
  ch_out :: "bytes list"
  ch_in :: "bytes list"

text \<open>What a step of the channel shows to its user and to the network.\<close>

datatype label =
    Opened endpoint
  | Refused_open
  | Shut
  | Accepted bytes
  | Refused bytes
  | Sent bytes endpoint
  | Arrived bytes
  | Handed bytes
  | Deafened
  | Idle

text \<open>
  An open channel accepts messages and sends the oldest one to its peer; while it listens datagrams
  arrive, and the oldest one is handed on. Closing keeps the queues, opening empties them; an attempt to open
  that fails leaves the channel closed, either untouched or emptied.
\<close>

inductive channel_step :: "channel \<Rightarrow> label \<Rightarrow> channel \<Rightarrow> bool" where
  open_ok: "\<not> ch_open s \<Longrightarrow>
    channel_step s (Opened ep) \<lparr>ch_open = True, ch_listening = True, ch_peer = ep, ch_out = [], ch_in = []\<rparr>"
| open_failed: "\<not> ch_open s \<Longrightarrow>
    channel_step s Refused_open \<lparr>ch_open = False, ch_listening = False, ch_peer = ep, ch_out = [], ch_in = []\<rparr>"
| shut: "ch_open s \<Longrightarrow> channel_step s Shut (s\<lparr>ch_open := False, ch_listening := False\<rparr>)"
| accept: "ch_open s \<Longrightarrow> channel_step s (Accepted m) (s\<lparr>ch_out := ch_out s @ [m]\<rparr>)"
| refuse: "channel_step s (Refused m) s"
| transmit: "ch_open s \<Longrightarrow> ch_out s = m # ms \<Longrightarrow> channel_step s (Sent m (ch_peer s)) (s\<lparr>ch_out := ms\<rparr>)"
| arrive: "ch_open s \<Longrightarrow> ch_listening s \<Longrightarrow> channel_step s (Arrived d) (s\<lparr>ch_in := ch_in s @ [d]\<rparr>)"
| hand_on: "ch_open s \<Longrightarrow> ch_in s = d # ds \<Longrightarrow> channel_step s (Handed d) (s\<lparr>ch_in := ds\<rparr>)"
| deafen: "ch_open s \<Longrightarrow> channel_step s Deafened (s\<lparr>ch_listening := False\<rparr>)"
| idle: "channel_step s Idle s"

inductive_simps channel_step_labels:
  "channel_step s (Accepted m) t" "channel_step s (Sent m ep) t" "channel_step s (Opened ep) t"
  "channel_step s Shut t" "channel_step s (Arrived d) t" "channel_step s (Handed d) t"

section \<open>The client as a channel\<close>

definition channel_of :: "udp_client \<Rightarrow> channel" where
  "channel_of c =
     \<lparr>ch_open = udp_running c, ch_listening = waiting c, ch_peer = remote_udp_ep c,
      ch_out = queued (io_tasks c), ch_in = inbox (io_tasks c)\<rparr>"

lemma channel_of_fields [simp]:
  "ch_open (channel_of c) = udp_running c" "ch_listening (channel_of c) = waiting c"
  "ch_peer (channel_of c) = remote_udp_ep c" "ch_out (channel_of c) = queued (io_tasks c)"
  "ch_in (channel_of c) = inbox (io_tasks c)"
  by (simp_all add: channel_of_def)

lemma channel_eqI:
  "ch_open s = ch_open t \<Longrightarrow> ch_listening s = ch_listening t \<Longrightarrow> ch_peer s = ch_peer t \<Longrightarrow>
   ch_out s = ch_out t \<Longrightarrow> ch_in s = ch_in t \<Longrightarrow> s = (t :: channel)"
  by simp

text \<open>What is outside the client and of interest: the datagrams given to the socket.\<close>

fun sent_pairs :: "effect list \<Rightarrow> (bytes \<times> endpoint) list" where
  "sent_pairs [] = []"
| "sent_pairs (Send_to m ep # es) = (m, ep) # sent_pairs es"
| "sent_pairs (_ # es) = sent_pairs es"

lemma sent_pairs_append [simp]: "sent_pairs (xs @ ys) = sent_pairs xs @ sent_pairs ys"
  by (induction xs rule: sent_pairs.induct) simp_all

lemma sent_pairs_Emit [simp]: "sent_pairs (map Emit ss) = []"
  by (induction ss) simp_all

fun label_sent :: "label \<Rightarrow> (bytes \<times> endpoint) list" where
  "label_sent (Sent m ep) = [(m, ep)]"
| "label_sent _ = []"

section \<open>One lemma for each kind of operation\<close>

lemma waiting_tasks [simp]: "waiting (c\<lparr>io_tasks := ts\<rparr>) = waiting c"
  by (simp add: waiting_def)

lemma not_running_not_waiting: "\<not> udp_running c \<Longrightarrow> \<not> waiting c"
  by (simp add: waiting_def)

lemma channel_send:
  assumes "wf_udp c" "udp_send p m c = Inr (b, c')"
  shows "channel_step (channel_of c) (if b then Accepted m else Refused m) (channel_of c')"
proof (cases "udp_running c \<and> p = Value ()")
  case True
  then have "b" and c': "c' = c\<lparr>io_tasks := io_tasks c @ [Transmit m]\<rparr>"
    using assms by (simp_all add: udp_send_total)
  have "channel_of c' = (channel_of c)\<lparr>ch_out := ch_out (channel_of c) @ [m]\<rparr>"
    by (rule channel_eqI) (simp_all add: c')
  with True \<open>b\<close> show ?thesis using accept [of "channel_of c" m] by simp
next
  case False
  then have "\<not> b" "c' = c" using assms by (auto simp: udp_send_total)
  then show ?thesis by (simp add: refuse)
qed

lemma channel_turn:
  assumes "udp_running c" "io_turn w r c = Inr (es, c')"
  shows "\<exists>l. channel_step (channel_of c) l (channel_of c') \<and> sent_pairs es = label_sent l"
proof (cases "io_tasks c")
  case Nil
  with assms have "c' = c" "es = []" by (simp_all add: io_turn_def)
  then show ?thesis using idle by force
next
  case (Cons t ts)
  show ?thesis
  proof (cases t)
    case (Deliver d)
    with assms(2) Cons obtain rs where p: "process w d (c\<lparr>io_tasks := ts\<rparr>) = Inr (rs, c')"
      and es: "es = map Emit (message_signals rs)"
      by (auto simp: io_turn_def bind_res_eq_Inr)
    have "base_ext (c\<lparr>io_tasks := ts\<rparr>) c'" using process_outcome [OF p] by simp
    from base_ext_udp [OF this]
    have "channel_of c' = (channel_of c)\<lparr>ch_in := inbox ts\<rparr>"
      by (intro channel_eqI) (simp_all add: waiting_def Cons Deliver)
    with assms(1) Cons Deliver have "channel_step (channel_of c) (Handed d) (channel_of c')"
      by (simp add: hand_on)
    with es show ?thesis by force
  next
    case (Transmit m)
    with assms(2) Cons obtain ss where es: "es = Send_to m (remote_udp_ep c) # map Emit ss"
      and c': "c' = c\<lparr>io_tasks := ts\<rparr>"
      by (auto simp: io_turn_def bind_res_eq_Inr dest!: run_transmit_result)
    have "channel_of c' = (channel_of c)\<lparr>ch_out := queued ts\<rparr>"
      by (intro channel_eqI) (simp_all add: c' Cons Transmit)
    with assms(1) Cons Transmit have "channel_step (channel_of c) (Sent m (remote_udp_ep c)) (channel_of c')"
      using transmit [of "channel_of c" m "queued ts"] by simp
    with es show ?thesis by force
  qed
qed

lemma channel_receive:
  assumes "wf_udp c" "waiting c" "io_receive ec avail recv c = Inr c'"
  shows "\<exists>l. channel_step (channel_of c) l (channel_of c') \<and> label_sent l = []"
proof -
  from assms(2) have run: "udp_running c" by (simp add: waiting_def)
  from assms(3) obtain l r l' where l: "udp_listener c = Some l" "handle_recv_udp ec avail recv l = Inr (r, l')"
    and c': "c' = c\<lparr>udp_listener := Some l',
      io_tasks := io_tasks c @ (case r of Posted d \<Rightarrow> [Deliver d] | _ \<Rightarrow> [])\<rparr>"
    by (auto simp: io_receive_def bind_res_eq_Inr)
  have "lst_running l" using assms(1) run l(1) by (auto simp: wf_udp_def)
  then have wait: "waiting c' \<longleftrightarrow> \<not> is_error ec \<or> ec = operation_aborted"
    using handle_recv_result [OF l(2)] run by (simp add: c' waiting_def)
  have posted: "\<not> is_error ec \<or> ec = operation_aborted" if "r = Posted d" for d
    using l(2) that by (auto simp: handle_recv_udp_def Let_def split: if_splits)
  show ?thesis
  proof (cases "\<exists>d. r = Posted d")
    case True
    then obtain d where d: "r = Posted d" ..
    have "channel_of c' = (channel_of c)\<lparr>ch_in := ch_in (channel_of c) @ [d]\<rparr>"
      using wait posted [OF d] assms(2) by (intro channel_eqI) (simp_all add: c' d)
    then have "channel_step (channel_of c) (Arrived d) (channel_of c')"
      using run assms(2) arrive [of "channel_of c" d] by simp
    then show ?thesis by force
  next
    case False
    then have tasks: "io_tasks c' = io_tasks c" by (cases r) (simp_all add: c')
    have same: "remote_udp_ep c' = remote_udp_ep c" "udp_running c' = udp_running c" by (simp_all add: c')
    show ?thesis
    proof (cases "waiting c'")
      case True
      then have "channel_of c' = channel_of c"
        using assms(2) tasks same by (intro channel_eqI) simp_all
      then show ?thesis using idle [of "channel_of c"] by force
    next
      case False
      then have "channel_of c' = (channel_of c)\<lparr>ch_listening := False\<rparr>"
        using tasks same by (intro channel_eqI) simp_all
      then show ?thesis using run deafen [of "channel_of c"] by force
    qed
  qed
qed

lemma channel_close:
  assumes "wf_udp c" "udp_close c = Inr (es, c')"
  shows "\<exists>l. channel_step (channel_of c) l (channel_of c') \<and> sent_pairs es = label_sent l"
proof (cases "udp_running c")
  case True
  from wf_udp_runningE [OF assms(1) True] obtain i l where
    "io c = Some i" "work c = Some i" "udp_out_socket c = Some i" "io_thread c = Some (i, True)"
    "udp_listener c = Some l" by blast
  with assms(2) True have "channel_of c' = (channel_of c)\<lparr>ch_open := False, ch_listening := False\<rparr>" "sent_pairs es = []"
    by (auto simp: udp_close_def waiting_def intro: channel_eqI)
  with True shut [of "channel_of c"] show ?thesis by force
next
  case False
  with assms(2) have "c' = c" "es = []" by (simp_all add: udp_close_def)
  then show ?thesis using idle [of "channel_of c"] by force
qed

lemma quiet_sends [simp]: "sent_pairs (reset_effects n c) = []" "sent_pairs (start_effects n ep c) = []"
  by (simp_all add: reset_effects_def start_effects_def deleted_def deleted_listener_def split: option.split)

lemma channel_connect:
  assumes "wf_udp c" "udp_connect a n ra rp lp ec c = Inr (out, ec', es, c')"
  shows "\<exists>l. channel_step (channel_of c) l (channel_of c') \<and> sent_pairs es = label_sent l"
proof (cases "udp_running c")
  case True
  with assms have "c' = c" "es = []" by auto
  then show ?thesis using idle [of "channel_of c"] by force
next
  case False
  note eq = udp_connect_eq [OF assms(1) False]
  from assms(2) obtain r where r: "remote_endpoint a ra rp ec = Inr r" unfolding eq by (auto simp: bind_res_eq_Inr)
  show ?thesis
  proof (cases r)
    case (Inl x)
    with r assms(2) have "c' = c" "es = []" unfolding eq by (auto split: prod.splits)
    then show ?thesis using idle [of "channel_of c"] by force
  next
    case (Inr ep)
    then have res: "end_result n lp ep c (start_end a lp ep) = (out, ec', es, c')"
      using assms(2) r unfolding eq by simp
    have quiet: "sent_pairs es = []" using res by (cases "start_end a lp ep") auto
    note facts = end_result_facts [OF res False start_end_returns]
    show ?thesis
    proof (cases "start_end a lp ep = Running")
      case True
      with facts have "channel_of c' = \<lparr>ch_open = True, ch_listening = True, ch_peer = ep, ch_out = [], ch_in = []\<rparr>"
        by (intro channel_eqI) auto
      with False quiet open_ok [of "channel_of c" ep] show ?thesis by force
    next
      case other: False
      then have closed: "\<not> udp_running c'" using facts by simp
      have "io_tasks c' = []"
      proof (cases "start_end a lp ep")
        case (No_endpoint x y)
        then show ?thesis by (simp add: start_end_def split: answer.splits)
      qed (use res other in auto)
      then have "channel_of c' =
          \<lparr>ch_open = False, ch_listening = False, ch_peer = remote_udp_ep c', ch_out = [], ch_in = []\<rparr>"
        using closed not_running_not_waiting [OF closed] by (intro channel_eqI) simp_all
      with False quiet open_failed [of "channel_of c" "remote_udp_ep c'"] show ?thesis by force
    qed
  qed
qed

section \<open>Refinement\<close>

datatype udp_op =
    Op_connect udp_answers nat string "16 word" "16 word" error_code
  | Op_close
  | Op_path string
  | Op_event udp_event

fun udp_op_step :: "world \<Rightarrow> udp_op \<Rightarrow> udp_client \<Rightarrow> (effect list \<times> udp_client) res" where
  "udp_op_step w (Op_connect a n ra rp lp ec) c =
     bind_res (udp_connect a n ra rp lp ec c) (\<lambda>(out, ec', es, c'). Inr (es, c'))"
| "udp_op_step w Op_close c = udp_close c"
| "udp_op_step w (Op_path p) c = Inr ([], set_wave_file_path p c)"
| "udp_op_step w (Op_event e) c = bind_res (udp_event_step w e c) (\<lambda>(acc, es, c'). Inr (es, c'))"

lemma channel_of_path [simp]: "channel_of (set_wave_file_path p c) = channel_of c"
  by (simp add: channel_of_def waiting_def set_wave_file_path_def)

lemma udp_op_channel:
  assumes "wf_udp c" "udp_op_step w op c = Inr (es, c')"
  shows "\<exists>l. channel_step (channel_of c) l (channel_of c') \<and> sent_pairs es = label_sent l"
proof (cases op)
  case (Op_connect a n ra rp lp ec)
  with assms(2) obtain out ec' where "udp_connect a n ra rp lp ec c = Inr (out, ec', es, c')"
    by (auto simp: bind_res_eq_Inr)
  with channel_connect assms(1) show ?thesis by blast
next
  case Op_close
  with assms channel_close show ?thesis by simp
next
  case (Op_path p)
  with assms(2) idle [of "channel_of c"] show ?thesis by force
next
  case (Op_event e)
  with assms(2) obtain acc where step: "udp_event_step w e c = Inr (acc, es, c')" by (auto simp: bind_res_eq_Inr)
  show ?thesis
  proof (cases e)
    case (Ev_send p m)
    with step obtain b where b: "udp_send p m c = Inr (b, c')" and es: "es = []" by (auto simp: bind_res_eq_Inr)
    have "label_sent (if b then Accepted m else Refused m) = []" by simp
    with channel_send [OF assms(1) b] es show ?thesis by (metis sent_pairs.simps(1))
  next
    case (Ev_turn r)
    with step channel_turn idle [of "channel_of c"] show ?thesis
      by (cases "udp_running c") (fastforce simp: bind_res_eq_Inr)+
  next
    case (Ev_receive ec avail recv)
    show ?thesis
    proof (cases "waiting c")
      case True
      with Ev_receive step have "io_receive ec avail recv c = Inr c'" "es = []" by (auto simp: bind_res_eq_Inr)
      with channel_receive [OF assms(1) True] show ?thesis by force
    next
      case False
      with Ev_receive step idle [of "channel_of c"] show ?thesis by force
    qed
  qed
qed

lemma udp_op_wf: "wf_udp c \<Longrightarrow> udp_op_step w op c = Inr (es, c') \<Longrightarrow> wf_udp c'"
proof (cases op)
  case (Op_connect a n ra rp lp ec)
  assume "wf_udp c" "udp_op_step w op c = Inr (es, c')"
  with Op_connect show "wf_udp c'" by (auto simp: bind_res_eq_Inr dest: udp_connect_wf)
next
  case Op_close
  assume c: "wf_udp c" "udp_op_step w op c = Inr (es, c')"
  obtain fs d where "udp_close c = Inr (fs, d)" "wf_udp d" using udp_close_total [OF c(1)] by metis
  with Op_close c(2) show "wf_udp c'" by simp
next
  case (Op_path p)
  assume "wf_udp c" "udp_op_step w op c = Inr (es, c')"
  with Op_path show "wf_udp c'" by auto
next
  case (Op_event e)
  assume "wf_udp c" "udp_op_step w op c = Inr (es, c')"
  with Op_event show "wf_udp c'" by (auto simp: bind_res_eq_Inr dest: udp_event_step_result)
qed

text \<open>Runs of the client and of the channel.\<close>

fun udp_ops :: "world \<Rightarrow> udp_op list \<Rightarrow> udp_client \<Rightarrow> (effect list \<times> udp_client) res" where
  "udp_ops w [] c = Inr ([], c)"
| "udp_ops w (op # ops) c =
     bind_res (udp_op_step w op c) (\<lambda>(es, c1).
     bind_res (udp_ops w ops c1) (\<lambda>(fs, c2). Inr (es @ fs, c2)))"

inductive channel_run :: "channel \<Rightarrow> label list \<Rightarrow> channel \<Rightarrow> bool" where
  no_step: "channel_run s [] s"
| one_more: "channel_step s l t \<Longrightarrow> channel_run t ls u \<Longrightarrow> channel_run s (l # ls) u"

lemma udp_ops_channel:
  "udp_ops w ops c = Inr (es, c') \<Longrightarrow> wf_udp c \<Longrightarrow>
   \<exists>ls. channel_run (channel_of c) ls (channel_of c') \<and> sent_pairs es = concat (map label_sent ls) \<and>
        length ls = length ops"
proof (induction ops arbitrary: c es)
  case Nil
  then show ?case by (auto intro: no_step)
next
  case (Cons op ops)
  then obtain e1 c1 e2 where op: "udp_op_step w op c = Inr (e1, c1)" and rest: "udp_ops w ops c1 = Inr (e2, c')"
    and es: "es = e1 @ e2"
    by (auto simp: bind_res_eq_Inr)
  obtain l where l: "channel_step (channel_of c) l (channel_of c1)" "sent_pairs e1 = label_sent l"
    using udp_op_channel [OF Cons.prems(2) op] by blast
  obtain ls where "channel_run (channel_of c1) ls (channel_of c')" "sent_pairs e2 = concat (map label_sent ls)"
    "length ls = length ops"
    using Cons.IH [OF rest udp_op_wf [OF Cons.prems(2) op]] by blast
  with l es show ?case
    by (intro exI [of _ "l # ls"]) (simp add: one_more)
qed

text \<open>
  C5: the UDP client refines the channel. Any sequence of \<open>connect\<close>, \<open>close\<close>, \<open>sendV2xMessage\<close>, receptions
  and turns of the I/O thread that does not fault, from construction, with any answers of Asio, is a run of
  the channel from the closed, empty one to the channel the final client stands for, step by step, and the
  datagrams given to the socket, with their endpoints, are exactly those the channel sent.
\<close>

theorem udp_refines_channel:
  assumes "udp_ops w ops udp_init = Inr (es, c)"
  shows "\<exists>ls. channel_run \<lparr>ch_open = False, ch_listening = False, ch_peer = Endpoint V4 ''0.0.0.0'' 0, ch_out = [], ch_in = []\<rparr>
      ls (channel_of c) \<and> sent_pairs es = concat (map label_sent ls) \<and> length ls = length ops"
proof -
  have "channel_of udp_init =
      \<lparr>ch_open = False, ch_listening = False, ch_peer = Endpoint V4 ''0.0.0.0'' 0, ch_out = [], ch_in = []\<rparr>"
    by (simp add: channel_of_def waiting_def udp_init_def)
  with udp_ops_channel [OF assms udp_init_wf] show ?thesis by simp
qed

theorem udp_refines_channel_witness:
  "\<exists>ls. channel_run \<lparr>ch_open = False, ch_listening = False, ch_peer = Endpoint V4 ''0.0.0.0'' 0, ch_out = [], ch_in = []\<rparr>
      ls (channel_of (up_client udp_init 1)) \<and>
    concat (map label_sent ls) = [([1], Endpoint V4 ''obu'' 1516)] \<and> length ls = 3"
proof -
  let ?ops = "[Op_connect ok_udp 1 ''obu'' 1516 5398 Success, Op_event (Ev_send (Value ()) [1]), Op_event (Ev_turn (Value ()))]"
  have same: "(up_client udp_init 1)\<lparr>io_tasks := []\<rparr> = up_client udp_init 1"
    by (simp add: up_client_def started_client_def reset_client_def)
  have run: "udp_ops (deployed_world ''w'') ?ops udp_init =
      Inr ((reset_effects 1 udp_init @ [Listener_new 1 5398] @ start_effects 1 (Endpoint V4 ''obu'' 1516) udp_init @
        [Thread_start 1, Emit OnConnect]) @ [Send_to [1] (Endpoint V4 ''obu'' 1516)], up_client udp_init 1)"
    using udp_connect_ok [OF udp_init_wf udp_init_stopped, of 1 Success] same
    by (simp add: udp_send_total io_turn_def run_transmit_def)
  from udp_refines_channel [OF run] show ?thesis by auto
qed

end
