(* ===== verification/Base_Frame.thy ===== *)
theory Base_Frame
  imports Radio_Types
begin

text \<open>
  The receive path of \<open>BaseRadioClient\<close> reads and writes the three members of the base class only. Each
  operation on an extended record is the operation on its base part, put back into the record; so
  \<open>process\<close> commutes with every change of a transport's own members, and two transports whose base
  parts agree handle a datagram alike.
\<close>

section \<open>The base part of a client\<close>

definition base_part :: "'a base_client_scheme \<Rightarrow> base_client" where
  "base_part c = base_client.truncate c"

definition with_base :: "'a base_client_scheme \<Rightarrow> base_client \<Rightarrow> 'a base_client_scheme" where
  "with_base c b = base_client.extend b (base_client.more c)"

lemmas base_part_defs = base_part_def with_base_def base_client.defs

lemma with_base_part [simp]: "with_base c (base_part c) = c"
  by (cases c) (simp add: base_part_defs)

lemma base_part_with [simp]: "base_part (with_base c b) = b"
  by (cases b) (simp add: base_part_defs)

lemma with_base_with [simp]: "with_base (with_base c b) b' = with_base c b'"
  by (simp add: base_part_defs)

lemma base_part_fields [simp]:
  "wave_cfg_dsrc_msg_ids (base_part c) = wave_cfg_dsrc_msg_ids c"
  "wave_cfg_psids (base_part c) = wave_cfg_psids c" "wave_file_path (base_part c) = wave_file_path c"
  by (simp_all add: base_part_defs)

lemma with_base_fields [simp]:
  "wave_cfg_dsrc_msg_ids (with_base c b) = wave_cfg_dsrc_msg_ids b"
  "wave_cfg_psids (with_base c b) = wave_cfg_psids b" "wave_file_path (with_base c b) = wave_file_path b"
  by (simp_all add: base_part_defs)

lemma base_part_updates [simp]:
  "base_part (c\<lparr>wave_cfg_dsrc_msg_ids := d\<rparr>) = (base_part c)\<lparr>wave_cfg_dsrc_msg_ids := d\<rparr>"
  "base_part (c\<lparr>wave_cfg_psids := p\<rparr>) = (base_part c)\<lparr>wave_cfg_psids := p\<rparr>"
  "with_base (c\<lparr>wave_cfg_dsrc_msg_ids := d\<rparr>) b = with_base c b"
  "with_base (c\<lparr>wave_cfg_psids := p\<rparr>) b = with_base c b"
  by (simp_all add: base_part_defs)

text \<open>An operation that returns a value and a state, run on the base part.\<close>

definition lift_base ::
    "'a base_client_scheme \<Rightarrow> ('x \<times> base_client) res \<Rightarrow> ('x \<times> 'a base_client_scheme) res" where
  "lift_base c r = bind_res r (\<lambda>(x, b). Inr (x, with_base c b))"

lemma lift_base_simps [simp]:
  "lift_base c (Inl f) = Inl f" "lift_base c (Inr (x, b)) = Inr (x, with_base c b)"
  by (simp_all add: lift_base_def)

lemma lift_base_with [simp]: "lift_base (with_base c b) r = lift_base c r"
  by (simp add: lift_base_def)

section \<open>The operations on the base part\<close>

lemma push_ids_base: "push_ids its c = bind_res (push_ids its (base_part c)) (\<lambda>b. Inr (with_base c b))"
proof (induction its arbitrary: c)
  case (Cons it its)
  then show ?case
    by (cases "get_string it ''dsrc_msg_id''"; cases "get_string it ''psid''") simp_all
qed simp

lemma load_base:
  "loadWaveConfigIds w f c = bind_res (loadWaveConfigIds w f (base_part c)) (\<lambda>b. Inr (with_base c b))"
  by (simp add: loadWaveConfigIds_def push_ids_base [of _ c] split: option.split json.split)

lemma IsValidMsgID_base: "IsValidMsgID w m c = lift_base c (IsValidMsgID w m (base_part c))"
  by (cases "loadWaveConfigIds w (wave_file_path c) (base_part c)")
    (simp_all add: IsValidMsgID_def load_base [of w _ c])

lemma isPossiblePSID_base: "isPossiblePSID w m c = lift_base c (isPossiblePSID w m (base_part c))"
proof (cases "loadWaveConfigIds w (wave_file_path c) (base_part c)")
  case (Inr b)
  then show ?thesis
    by (cases "psid_scan m (wave_cfg_psids b)"; cases "psid_scan m (wave_cfg_psids c)")
      (simp_all add: isPossiblePSID_def load_base [of w _ c])
next
  case (Inl f)
  then show ?thesis
    by (cases "psid_scan m (wave_cfg_psids c)") (simp_all add: isPossiblePSID_def load_base [of w _ c])
qed

lemma process_loop_base: "process_loop w entry i c = lift_base c (process_loop w entry i (base_part c))"
proof (induction "length entry - i" arbitrary: i c rule: less_induct)
  case less
  let ?b = "base_part c"
  have skip: "process_loop w entry (Suc i) (with_base c b) = lift_base c (process_loop w entry (Suc i) b)"
    if "i < length entry - 3" for b
    using less [of "Suc i" "with_base c b"] that by simp
  show ?case
  proof (cases "i < length entry - 3")
    case False
    then show ?thesis by (simp add: process_loop.simps [of w entry i])
  next
    case True
    then have u: "u16_at entry i = Inr (u16 entry i)" by simp
    show ?thesis
    proof (cases "IsValidMsgID w (to_string (u16 entry i)) ?b")
      case (Inl f)
      with True u show ?thesis
        by (simp add: process_loop.simps [of w entry i] IsValidMsgID_base [of w _ c])
    next
      case (Inr r)
      obtain v b1 where r: "r = (v, b1)" by (cases r)
      note here = process_loop.simps [of w entry i] IsValidMsgID_base [of w _ c] skip [OF True]
      show ?thesis
      proof (cases "isPossiblePSID w (to_string (u16 entry i)) b1")
        case (Inl f)
        with True u Inr r show ?thesis
          by (simp add: here isPossiblePSID_base [of w _ "with_base c b1"] isValidMsgSize_drop short_frame_def)
      next
        case possible: (Inr q)
        obtain p b2 where q: "q = (p, b2)" by (cases q)
        then show ?thesis
          using True u Inr r possible
          by (cases "isValidMsgAssumingBSMPSID i entry")
            (simp_all add: here isPossiblePSID_base [of w _ "with_base c b1"] isValidMsgSize_drop short_frame_def)
      qed
    qed
  qed
qed

lemma process_base: "process w entry c = lift_base c (process w entry (base_part c))"
  using process_loop_base [of w entry 0 c] by (simp add: process_def)

end
