(* ===== verification/Udp_Inbound.thy ===== *)
theory Udp_Inbound
  imports Udp_Io_Thread Base_Frame
begin

text \<open>
  Both directions of the UDP client between \<open>connect\<close> and \<open>close\<close>: what arrives is processed once, in the order of
  arrival, as if the base class processed it alone, and what is accepted leaves once and in order, however
  sends, receptions and turns of the I/O thread interleave.
\<close>

section \<open>What a run receives and signals\<close>

text \<open>The datagram a completed wait posts, after the buffer cut or padded it.\<close>

fun arrived :: "udp_event \<Rightarrow> udp_client \<Rightarrow> bytes list" where
  "arrived (Ev_receive ec avail recv) c =
     (if waiting c then
        (case udp_listener c of
           None \<Rightarrow> []
         | Some l \<Rightarrow> (case handle_recv_udp ec avail recv l of Inr (Posted d, l') \<Rightarrow> [d] | _ \<Rightarrow> []))
      else [])"
| "arrived _ c = []"

fun arrivals :: "world \<Rightarrow> udp_event list \<Rightarrow> udp_client \<Rightarrow> bytes list" where
  "arrivals w [] c = []"
| "arrivals w (e # evs) c =
     arrived e c @ (case udp_event_step w e c of Inl f \<Rightarrow> [] | Inr (acc, es, c') \<Rightarrow> arrivals w evs c')"

fun is_message :: "signal \<Rightarrow> bool" where
  "is_message (OnMessageReceived m i) = True"
| "is_message _ = False"

definition messages :: "effect list \<Rightarrow> signal list" where
  "messages es = filter is_message (emitted es)"

lemma messages_append [simp]: "messages (es @ fs) = messages es @ messages fs"
  by (simp add: messages_def)

lemma messages_signals [simp]: "messages (map Emit (message_signals rs)) = message_signals rs"
  by (induction rs) (auto simp: messages_def message_signals_def)

text \<open>\<open>process\<close> on one datagram after the other, by the base class alone.\<close>

fun process_all :: "world \<Rightarrow> bytes list \<Rightarrow> base_client \<Rightarrow> (received list \<times> base_client) res" where
  "process_all w [] b = Inr ([], b)"
| "process_all w (d # ds) b =
     bind_res (process w d b) (\<lambda>(rs, b1). bind_res (process_all w ds b1) (\<lambda>(qs, b2). Inr (rs @ qs, b2)))"

lemma process_all_append:
  "process_all w ds b = Inr (rs, b1) \<Longrightarrow> process_all w ds' b1 = Inr (qs, b2) \<Longrightarrow>
   process_all w (ds @ ds') b = Inr (rs @ qs, b2)"
proof (induction ds arbitrary: b rs)
  case (Cons d ds)
  then obtain r1 c1 r2 where "process w d b = Inr (r1, c1)" "process_all w ds c1 = Inr (r2, b1)" "rs = r1 @ r2"
    by (auto simp: bind_res_eq_Inr)
  with Cons.IH [OF this(2) Cons.prems(2)] show ?case by simp
qed simp

section \<open>One event\<close>

lemma base_part_own [simp]:
  "base_part (c\<lparr>io_tasks := ts\<rparr>) = base_part c" "base_part (c\<lparr>udp_listener := l\<rparr>) = base_part c"
  by (cases c; simp add: base_part_defs)+

lemma with_base_own [simp]:
  "io_tasks (with_base c b) = io_tasks c" "udp_running (with_base c b) = udp_running c"
  "remote_udp_ep (with_base c b) = remote_udp_ep c"
  by (cases c; simp add: base_part_defs)+

definition handles :: "world \<Rightarrow> udp_client \<Rightarrow> bytes list \<Rightarrow> effect list \<Rightarrow> udp_client \<Rightarrow> bool" where
  "handles w c as es c' \<longleftrightarrow>
     (\<exists>hs rs. inbox (io_tasks c) @ as = hs @ inbox (io_tasks c') \<and>
        process_all w hs (base_part c) = Inr (rs, base_part c') \<and> messages es = message_signals rs)"

lemma handles_none:
  "inbox (io_tasks c') = inbox (io_tasks c) @ as \<Longrightarrow> base_part c' = base_part c \<Longrightarrow> messages es = [] \<Longrightarrow>
   handles w c as es c'"
  unfolding handles_def by (intro exI [of _ "[]"]) (simp add: message_signals_def)

lemma handles_trans: "handles w c as es c1 \<Longrightarrow> handles w c1 bs fs c2 \<Longrightarrow> handles w c (as @ bs) (es @ fs) c2"
proof -
  assume "handles w c as es c1" "handles w c1 bs fs c2"
  then obtain h1 r1 h2 r2 where
    one: "inbox (io_tasks c) @ as = h1 @ inbox (io_tasks c1)" "process_all w h1 (base_part c) = Inr (r1, base_part c1)"
      "messages es = message_signals r1"
    and two: "inbox (io_tasks c1) @ bs = h2 @ inbox (io_tasks c2)"
      "process_all w h2 (base_part c1) = Inr (r2, base_part c2)" "messages fs = message_signals r2"
    by (auto simp: handles_def)
  from one(1) two(1) have "inbox (io_tasks c) @ as @ bs = (h1 @ h2) @ inbox (io_tasks c2)"
    by (metis append.assoc)
  with process_all_append [OF one(2) two(2)] one(3) two(3) show ?thesis
    unfolding handles_def by (intro exI [of _ "h1 @ h2"] exI [of _ "r1 @ r2"]) (simp add: message_signals_def)
qed

lemma io_turn_handles:
  assumes "io_turn w r c = Inr (es, c')"
  shows "handles w c [] es c'"
proof (cases "io_tasks c")
  case (Cons t ts)
  then show ?thesis
  proof (cases t)
    case (Deliver d)
    with Cons assms obtain rs where p: "process w d (c\<lparr>io_tasks := ts\<rparr>) = Inr (rs, c')"
      and es: "es = map Emit (message_signals rs)"
      by (auto simp: io_turn_def bind_res_eq_Inr)
    have "io_tasks c' = ts" using process_outcome [OF p] base_ext_udp(9) [of "c\<lparr>io_tasks := ts\<rparr>" c'] by simp
    moreover from p have "process w d (base_part c) = Inr (rs, base_part c')"
      by (auto simp: process_base [of w d "c\<lparr>io_tasks := ts\<rparr>"] lift_base_def bind_res_eq_Inr)
    ultimately show ?thesis using Cons Deliver es
      unfolding handles_def by (intro exI [of _ "[d]"] exI [of _ rs]) simp
  next
    case (Transmit m)
    with Cons assms show ?thesis
      by (intro handles_none) (auto simp: io_turn_def bind_res_eq_Inr run_transmit_def messages_def split: answer.splits)
  qed
qed (use assms in \<open>intro handles_none; simp add: io_turn_def messages_def\<close>)

lemma event_handles:
  assumes "udp_event_step w e c = Inr (acc, es, c')" "wf_udp c"
  shows "handles w c (arrived e c) es c'"
proof (cases e)
  case (Ev_send p m)
  with assms show ?thesis
    by (intro handles_none) (auto simp: udp_send_total messages_def split: if_splits)
next
  case (Ev_turn r)
  show ?thesis
  proof (cases "udp_running c")
    case True
    with Ev_turn assms(1) have "io_turn w r c = Inr (es, c')" by (auto simp: bind_res_eq_Inr)
    from io_turn_handles [OF this] Ev_turn show ?thesis by simp
  qed (use Ev_turn assms(1) in \<open>intro handles_none; simp add: messages_def\<close>)
next
  case (Ev_receive ec avail recv)
  show ?thesis
  proof (cases "waiting c")
    case True
    with Ev_receive assms(1) have rec: "io_receive ec avail recv c = Inr c'" "es = []" by (auto simp: bind_res_eq_Inr)
    then obtain l r l' where l: "udp_listener c = Some l" "handle_recv_udp ec avail recv l = Inr (r, l')"
      and c': "c' = c\<lparr>udp_listener := Some l', io_tasks := io_tasks c @ (case r of Posted d \<Rightarrow> [Deliver d] | _ \<Rightarrow> [])\<rparr>"
      by (auto simp: io_receive_def bind_res_eq_Inr)
    have "arrived e c = inbox (case r of Posted d \<Rightarrow> [Deliver d] | _ \<Rightarrow> [])"
      using True Ev_receive l by (simp split: recv_result.split)
    with c' rec(2) show ?thesis by (intro handles_none) (simp_all add: messages_def)
  qed (use Ev_receive assms(1) in \<open>intro handles_none; simp add: messages_def\<close>)
qed

lemma events_handle:
  "udp_events w evs c = Inr (acc, es, c') \<Longrightarrow> wf_udp c \<Longrightarrow> handles w c (arrivals w evs c) es c'"
proof (induction evs arbitrary: c acc es)
  case Nil
  then show ?case by (intro handles_none) (simp_all add: messages_def)
next
  case (Cons e evs)
  then obtain a1 e1 c1 a2 e2 where step: "udp_event_step w e c = Inr (a1, e1, c1)"
    and rest: "udp_events w evs c1 = Inr (a2, e2, c')" and es: "es = e1 @ e2"
    by (auto simp: bind_res_eq_Inr)
  have "wf_udp c1" using udp_event_step_result [OF step Cons.prems(2)] by simp
  from handles_trans [OF event_handles [OF step Cons.prems(2)] Cons.IH [OF rest this]] step es
  show ?case by simp
qed

text \<open>
  C6: between \<open>connect\<close> and \<open>close\<close>, however sends, turns of the I/O thread and receptions interleave, nothing is
  lost, doubled or reordered in either direction. The datagrams that were waiting followed by those that arrive are
  those handed to \<open>process\<close> followed by those still waiting; the messages signalled and the configuration left
  are those of \<open>process\<close> called by the base class alone on one datagram after the other. The messages queued
  followed by those \<open>sendV2xMessage\<close> accepted are those handed to \<open>send_to\<close>, unchanged and to the endpoint
  \<open>connect\<close> set, followed by those still queued.
\<close>

theorem udp_in_order:
  assumes "udp_reach w c" "udp_events w evs c = Inr (accepted, es, c')"
  shows "(\<exists>handled rs. inbox (io_tasks c) @ arrivals w evs c = handled @ inbox (io_tasks c') \<and>
      process_all w handled (base_part c) = Inr (rs, base_part c') \<and> messages es = message_signals rs) \<and>
    queued (io_tasks c) @ accepted = transmitted es @ queued (io_tasks c') \<and>
    (\<forall>m ep. Send_to m ep \<in> set es \<longrightarrow> ep = remote_udp_ep c) \<and> udp_running c' = udp_running c"
proof -
  note wf = udp_reach_wf [OF assms(1)]
  from udp_events_result [OF assms(2) wf] events_handle [OF assms(2) wf] show ?thesis
    by (simp add: handles_def sends_to_def)
qed

text \<open>A BSM arrives, a message is sent, and the I/O thread takes both; the wave file is read on the way.\<close>

definition fresh_up :: udp_client where
  "fresh_up = set_wave_file_path ''w'' (up_client udp_init 1)"

lemma fresh_up_fields [simp]:
  "io_tasks fresh_up = []" "udp_running fresh_up" "waiting fresh_up" "remote_udp_ep fresh_up = Endpoint V4 ''obu'' 1516"
  "base_part fresh_up = \<lparr>wave_cfg_dsrc_msg_ids = [], wave_cfg_psids = [], wave_file_path = ''w''\<rparr>"
  by (simp_all add: fresh_up_def set_wave_file_path_def up_client_def waiting_def base_part_defs started_client_def
      reset_client_def udp_init_def)

lemma fresh_up_reach: "udp_reach w fresh_up"
  unfolding fresh_up_def by (rule reach_path) (rule up_client_reach)

lemma first_bsm:
  "process (deployed_world ''w'') [0, 20, 3, 1, 2, 3] \<lparr>wave_cfg_dsrc_msg_ids = [], wave_cfg_psids = [], wave_file_path = ''w''\<rparr> =
     Inr ([([0, 20, 3, 1, 2, 3], 20)], deployed_client ''w'')"
proof -
  let ?b = "\<lparr>wave_cfg_dsrc_msg_ids = [], wave_cfg_psids = [], wave_file_path = ''w''\<rparr>" and ?w = "deployed_world ''w''"
  let ?its = "accepted_entries ?w wave_schema_ids (wave_file_path ?b)"
  have e: "message_frame 0 20 [1, 2, 3] = [0, 20, 3, 1, 2, 3]" "be16 0 20 = 20" "to_ushort 20 = 20"
    by (simp_all add: message_frame_def length_determinant_def be16_eq to_ushort_def)
  have its: "?its \<noteq> []" by (simp add: deployed_entries wave_schema_ids_def wave_json_def)
  then have "process ?w [0, 20, 3, 1, 2, 3] ?b = process ?w [0, 20, 3, 1, 2, 3] (append_entries ?its ?b)"
    by (intro process_lazy) simp_all
  also have "append_entries ?its ?b = deployed_client ''w''"
    by (simp add: append_deployed deployed_client_def)
  also have "process ?w [0, 20, 3, 1, 2, 3] (deployed_client ''w'') = Inr ([([0, 20, 3, 1, 2, 3], 20)], deployed_client ''w'')"
    using deployed_start [of "deployed_client ''w''" 0 20 "[1, 2, 3]" ?w]
    by (simp add: e deployed_id_numbers_def deployed_client_def)
  finally show ?thesis .
qed

theorem udp_in_order_witness:
  "\<exists>es c' rs. udp_events (deployed_world ''w'')
      [Ev_receive Success (Value 6) (\<lambda>n. Inr [0, 20, 3, 1, 2, 3]), Ev_send (Value ()) [7], Ev_turn (Value ()), Ev_turn (Value ())]
      fresh_up = Inr ([[7]], es, c') \<and>
    process_all (deployed_world ''w'') [[0, 20, 3, 1, 2, 3]] (base_part fresh_up) = Inr (rs, base_part c') \<and>
    messages es = message_signals rs \<and> rs = [([0, 20, 3, 1, 2, 3], 20)] \<and> transmitted es = [[7]]"
proof -
  let ?w = "deployed_world ''w''" and ?bsm = "[0, 20, 3, 1, 2, 3]"
  let ?evs = "[Ev_receive Success (Value 6) (\<lambda>n. Inr ?bsm), Ev_send (Value ()) [7], Ev_turn (Value ()), Ev_turn (Value ())]"
  note wf = udp_reach_wf [OF fresh_up_reach]
  obtain l where l: "udp_listener fresh_up = Some l" "lst_waiting l" using fresh_up_fields(3) by (auto simp: waiting_def)
  obtain l' where recv: "handle_recv_udp Success (Value 6) (\<lambda>n. Inr ?bsm) l = Inr (Posted ?bsm, l')"
    by (simp add: handle_recv_udp_def Let_def filled_buffer_def is_error_def)
  let ?c1 = "fresh_up\<lparr>udp_listener := Some l', io_tasks := [Deliver ?bsm]\<rparr>"
  let ?c2 = "?c1\<lparr>io_tasks := [Deliver ?bsm, Transmit [7]]\<rparr>"
  let ?c3 = "with_base (?c2\<lparr>io_tasks := [Transmit [7]]\<rparr>) (deployed_client ''w'')"
  have one: "io_receive Success (Value 6) (\<lambda>n. Inr ?bsm) fresh_up = Inr ?c1"
    using l recv by (simp add: io_receive_def)
  have wf1: "wf_udp ?c1" by (rule io_receive_result(3) [OF one wf])
  then have two: "udp_send (Value ()) [7] ?c1 = Inr (True, ?c2)" by (simp add: udp_send_total)
  have "process ?w ?bsm (?c2\<lparr>io_tasks := [Transmit [7]]\<rparr>) = Inr ([(?bsm, 20)], ?c3)"
    by (subst process_base) (simp add: first_bsm)
  then have three: "io_turn ?w (Value ()) ?c2 = Inr ([Emit (OnMessageReceived ?bsm 20)], ?c3)"
    by (simp add: io_turn_def message_signals_def)
  have wf2: "wf_udp ?c2" using wf1 by simp
  have c3: "wf_udp ?c3" "udp_running ?c3" "io_tasks ?c3 = [Transmit [7]]" "remote_udp_ep ?c3 = Endpoint V4 ''obu'' 1516"
    using io_turn_result(3) [OF three wf2] by simp_all
  from io_turn_transmit [OF c3(1,2,3), of ?w "Value ()"] c3(4)
  have four: "io_turn ?w (Value ()) ?c3 = Inr ([Send_to [7] (Endpoint V4 ''obu'' 1516)], ?c3\<lparr>io_tasks := []\<rparr>)" by simp
  let ?es = "[Emit (OnMessageReceived ?bsm 20), Send_to [7] (Endpoint V4 ''obu'' 1516)]" and ?c4 = "?c3\<lparr>io_tasks := []\<rparr>"
  have run: "udp_events ?w ?evs fresh_up = Inr ([[7]], ?es, ?c4)"
    using one two three four c3(2) by simp
  have "arrivals ?w ?evs fresh_up = [?bsm]"
    using l recv one two three four c3(2) by simp
  with udp_in_order [OF fresh_up_reach run] run show ?thesis
    by (auto simp: messages_def message_signals_def)
qed

end
