(* ===== verification/Mqtt_Radio_Client.thy ===== *)
theory Mqtt_Radio_Client
  imports Radio_Types
begin

text \<open>
  \<open>MqttRadioClient\<close> (\<open>mqtt_radio_client.cpp\<close>): the state added to the base class, every operation
  and every mosquitto callback handler. libmosquitto is outside the repository: its calls are
  effects, its return codes arguments.
\<close>

section \<open>State\<close>

text \<open>
  \<open>mosq\<close> is \<open>mosq_\<close> (\<open>None\<close> for \<open>nullptr\<close>); the trailing underscores of the members are dropped.
\<close>

record mqtt_client = base_client +
  mosq :: "nat option"
  mqtt_connected :: bool
  client_id :: string
  qos :: int
  reconnect_interval_sec :: int
  mqtt_topic_prefix :: string
  broker_address :: string
  broker_port :: int

definition mqtt_init :: mqtt_client where
  "mqtt_init =
     \<lparr>wave_cfg_dsrc_msg_ids = [], wave_cfg_psids = [], wave_file_path = [],
      mosq = None, mqtt_connected = False, client_id = [], qos = 0, reconnect_interval_sec = 5,
      mqtt_topic_prefix = ''Ettifos/V2X'', broker_address = [], broker_port = 1883\<rparr>"

section \<open>Library reference count\<close>

text \<open>
  The constructor and the destructor work on the static counter \<open>lib_ref_count_\<close>, passed in and
  out. The destructor closes the client first.
\<close>

definition mqtt_construct :: "int \<Rightarrow> effect list \<times> int \<times> mqtt_client" where
  "mqtt_construct lib_ref_count =
     (if lib_ref_count = 0 then [Mosq_lib_init] else [], lib_ref_count + 1, mqtt_init)"

definition setMqttConfig :: "string \<Rightarrow> int \<Rightarrow> int \<Rightarrow> string \<Rightarrow> mqtt_client \<Rightarrow> mqtt_client" where
  "setMqttConfig cid q rsec prefix c =
     c\<lparr>client_id := cid, qos := q, reconnect_interval_sec := rsec, mqtt_topic_prefix := prefix\<rparr>"

section \<open>Connecting\<close>

definition MOSQ_ERR_SUCCESS :: int where "MOSQ_ERR_SUCCESS = 0"

text \<open>The answers of the library to the calls of one \<open>connect\<close>.\<close>

record mosq_answers =
  new_result :: "nat option"
  loop_start_rc :: int
  connect_rc :: int

text \<open>
  \<open>connect\<close> returns its value, the error code (passed in, since an early return leaves it), the
  calls and the new state. The product \<open>reconnect_interval_sec_ * 10\<close> is an \<open>int\<close>
  multiplication before it is cast to \<open>unsigned int\<close>.
\<close>

definition int_range :: "int \<Rightarrow> bool" where
  "int_range i \<longleftrightarrow> - (2 ^ 31) \<le> i \<and> i < 2 ^ 31"

definition mqtt_connect ::
    "mosq_answers \<Rightarrow> string \<Rightarrow> 16 word \<Rightarrow> 16 word \<Rightarrow> error_code \<Rightarrow> mqtt_client \<Rightarrow>
     (connect_outcome \<times> error_code \<times> effect list \<times> mqtt_client) res" where
  "mqtt_connect a remote_address remote_port local_port ec c =
     (if mqtt_connected c then Inr (Returned False, ec, [], c)
      else
        let c1 = c\<lparr>broker_address := remote_address, broker_port := uint remote_port\<rparr>;
            cid = (if client_id c1 = [] then None else Some (client_id c1));
            new_call = Mosq_new cid (new_result a);
            c2 = c1\<lparr>mosq := new_result a\<rparr>
        in case new_result a of
          None \<Rightarrow> Inr (Returned False, No_memory, [new_call], c2)
        | Some h \<Rightarrow>
            let r = reconnect_interval_sec c2 in
            if \<not> int_range (r * 10) then Inl Signed_overflow
            else
              let setup = [new_call, Mosq_set_callbacks h,
                           Mosq_reconnect_delay_set h (word_of_int r) (word_of_int (r * 10)),
                           Mosq_loop_start h]
              in if loop_start_rc a \<noteq> MOSQ_ERR_SUCCESS then
                   Inr (Returned False, Connection_refused, setup @ [Mosq_destroy h], c2\<lparr>mosq := None\<rparr>)
                 else
                   let calls = setup @ [Mosq_connect h (broker_address c2) (broker_port c2) 60]
                   in if connect_rc a \<noteq> MOSQ_ERR_SUCCESS then
                        Inr (Returned False, Connection_refused,
                             calls @ [Mosq_loop_stop h True, Mosq_destroy h], c2\<lparr>mosq := None\<rparr>)
                      else Inr (Returned True, Success, calls, c2))"

definition mqtt_close :: "mqtt_client \<Rightarrow> effect list \<times> mqtt_client" where
  "mqtt_close c =
     (case mosq c of
        None \<Rightarrow> ([], c)
      | Some h \<Rightarrow>
          ([Mosq_disconnect h, Mosq_loop_stop h False, Mosq_destroy h, Emit OnDisconnect],
           c\<lparr>mqtt_connected := False, mosq := None\<rparr>))"

definition mqtt_destruct :: "int \<Rightarrow> mqtt_client \<Rightarrow> effect list \<times> int" where
  "mqtt_destruct lib_ref_count c =
     (fst (mqtt_close c) @ (if lib_ref_count = 1 then [Mosq_lib_cleanup] else []), lib_ref_count - 1)"

section \<open>Topics\<close>

text \<open>
  \<open>kEttifosPsidOverrides\<close>, in the order of the initialiser list. The list names the key
  \<open>"0082"\<close> twice; the constructor of \<open>unordered_map\<close> inserts them in this order and an insertion keeps the element
  that is there, so the first entry is the one \<open>find\<close> returns.
\<close>

definition kEttifosPsidOverrides :: "(string \<times> int) list" where
  "kEttifosPsidOverrides =
     [(''0020'', 32), (''0083'', 131), (''0082'', 2113687), (''0082'', 130), (''8010'', 144),
      (''0027'', 39), (''BFEE'', 16494)]"

definition buildPublishTopic :: "mqtt_client \<Rightarrow> string \<Rightarrow> string res" where
  "buildPublishTopic c psid_hex =
     bind_res
       (case map_of kEttifosPsidOverrides psid_hex of
          Some v \<Rightarrow> Inr v
        | None \<Rightarrow> stoi16 psid_hex)
       (\<lambda>decimal_psid. Inr (mqtt_topic_prefix c @ ''/req/J2735/'' @ to_string decimal_psid))"

definition buildSubscribeTopic :: "mqtt_client \<Rightarrow> string" where
  "buildSubscribeTopic c = mqtt_topic_prefix c @ ''/ind/J2735/#''"

definition subscribeToTopics :: "mqtt_client \<Rightarrow> effect list" where
  "subscribeToTopics c = [Mosq_subscribe (mosq c) (buildSubscribeTopic c) (qos c)]"

section \<open>Sending\<close>

text \<open>
  \<open>sendV2xMessage\<close>: \<open>message\<close> is \<open>None\<close> for a null pointer, \<open>rc\<close> the answer of
  \<open>mosquitto_publish\<close>.
\<close>

definition mqtt_send :: "int \<Rightarrow> bytes option \<Rightarrow> mqtt_client \<Rightarrow> (bool \<times> effect list) res" where
  "mqtt_send rc message c =
     (case (mosq c, message) of
        (Some h, Some m) \<Rightarrow>
          if \<not> mqtt_connected c then Inr (False, [])
          else if length m < 2 then Inr (False, [])
          else
            bind_res (u16_at m 0) (\<lambda>dsrc_msg_id.
            bind_res (psidForDsrcMsgId c (to_string dsrc_msg_id)) (\<lambda>psid0.
              let psid = (if psid0 = [] then to_string dsrc_msg_id else psid0) in
              bind_res (buildPublishTopic c psid) (\<lambda>topic.
                Inr (rc = MOSQ_ERR_SUCCESS, [Mosq_publish h topic m (qos c) False]))))
      | _ \<Rightarrow> Inr (False, []))"

section \<open>Callbacks of the network thread\<close>

definition handleConnect :: "int \<Rightarrow> mqtt_client \<Rightarrow> effect list \<times> mqtt_client" where
  "handleConnect rc c =
     (if rc = 0 then
        let c1 = c\<lparr>mqtt_connected := True\<rparr> in (subscribeToTopics c1 @ [Emit OnConnect], c1)
      else ([], c))"

definition handleDisconnect :: "int \<Rightarrow> mqtt_client \<Rightarrow> effect list \<times> mqtt_client" where
  "handleDisconnect rc c = ([], c\<lparr>mqtt_connected := False\<rparr>)"

text \<open>\<open>struct mosquitto_message\<close>: \<open>payload\<close> is the memory the pointer refers to.\<close>

record mosq_message =
  msg_topic :: string
  payload :: "bytes option"
  payloadlen :: int

definition handleMessage ::
    "world \<Rightarrow> mosq_message option \<Rightarrow> mqtt_client \<Rightarrow> (effect list \<times> mqtt_client) res" where
  "handleMessage w msg c =
     (case msg of
        None \<Rightarrow> Inr ([], c)
      | Some m \<Rightarrow>
          (case payload m of
             None \<Rightarrow> Inr ([], c)
           | Some buf \<Rightarrow>
               if payloadlen m \<le> 0 then Inr ([], c)
               else if int (length buf) < payloadlen m then Inl Out_of_bounds
               else
                 bind_res (process w (take (nat (payloadlen m)) buf) c) (\<lambda>(rs, c').
                   Inr (map Emit (message_signals rs), c'))))"

end
