(* ===== verification/Mqtt_Lifecycle.thy ===== *)
theory Mqtt_Lifecycle
  imports Mqtt_Radio_Client
begin

text \<open>
  The life of a mosquitto handle. The client's operations and the callbacks of the network thread
  are the steps of a transition system whose trace is the calls made into the library; the
  handles that exist follow from the trace. The theorems say when a handle is used, leaked or
  destroyed, and how the library's initialisation follows the reference count.
\<close>

section \<open>Handles in a trace\<close>

text \<open>The handles that exist after a call.\<close>

fun live_step :: "effect \<Rightarrow> nat set \<Rightarrow> nat set" where
  "live_step (Mosq_new i (Some h)) L = insert h L"
| "live_step (Mosq_destroy h) L = L - {h}"
| "live_step _ L = L"

definition live_after :: "effect list \<Rightarrow> nat set \<Rightarrow> nat set" where
  "live_after es L = fold live_step es L"

lemma live_after_simps [simp]:
  "live_after [] L = L"
  "live_after (e # es) L = live_after es (live_step e L)"
  "live_after (es @ fs) L = live_after fs (live_after es L)"
  by (simp_all add: live_after_def)

lemma live_after_Emit [simp]: "live_after (map Emit ss) L = L"
  by (induction ss) simp_all

text \<open>A call is safe when the handle it is given exists.\<close>

fun handle_used :: "effect \<Rightarrow> nat option option" where
  "handle_used (Mosq_set_callbacks h) = Some (Some h)"
| "handle_used (Mosq_reconnect_delay_set h a b) = Some (Some h)"
| "handle_used (Mosq_loop_start h) = Some (Some h)"
| "handle_used (Mosq_connect h a p k) = Some (Some h)"
| "handle_used (Mosq_disconnect h) = Some (Some h)"
| "handle_used (Mosq_loop_stop h f) = Some (Some h)"
| "handle_used (Mosq_destroy h) = Some (Some h)"
| "handle_used (Mosq_subscribe h t q) = Some h"
| "handle_used (Mosq_publish h t m q r) = Some (Some h)"
| "handle_used _ = None"

fun handle_safe :: "nat set \<Rightarrow> effect list \<Rightarrow> bool" where
  "handle_safe L [] = True"
| "handle_safe L (e # es) \<longleftrightarrow>
     (case handle_used e of None \<Rightarrow> True | Some None \<Rightarrow> False | Some (Some h) \<Rightarrow> h \<in> L) \<and>
     handle_safe (live_step e L) es"

lemma handle_safe_append [simp]:
  "handle_safe L (es @ fs) \<longleftrightarrow> handle_safe L es \<and> handle_safe (live_after es L) fs"
  by (induction es arbitrary: L) auto

lemma handle_safe_Emit [simp]: "handle_safe L (map Emit ss)"
  by (induction ss) simp_all

section \<open>What the operations do with their handle\<close>

lemma mqtt_connect_connected [simp]:
  "mqtt_connected c \<Longrightarrow> mqtt_connect a ra rp lp ec c = Inr (Returned False, ec, [], c)"
  by (simp add: mqtt_connect_def)

definition connect_succeeds :: "mosq_answers \<Rightarrow> bool" where
  "connect_succeeds a \<longleftrightarrow> new_result a \<noteq> None \<and> loop_start_rc a = 0 \<and> connect_rc a = 0"

lemma mqtt_connect_result:
  assumes "mqtt_connect a ra rp lp ec c = Inr (out, ec', es, c')" "\<not> mqtt_connected c"
  shows "out = Returned (connect_succeeds a)"
    and "ec' = (if new_result a = None then No_memory
                else if connect_succeeds a then Success else Connection_refused)"
    and "c' = c\<lparr>broker_address := ra, broker_port := uint rp,
                mosq := (if connect_succeeds a then new_result a else None)\<rparr>"
    and "emitted es = []"
  using assms
  by (auto simp: mqtt_connect_def connect_succeeds_def MOSQ_ERR_SUCCESS_def Let_def
      split: option.splits if_splits)

lemma mqtt_connect_live:
  assumes "mqtt_connect a ra rp lp ec c = Inr (out, ec', es, c')" "\<not> mqtt_connected c"
    "\<And>h. new_result a = Some h \<Longrightarrow> h \<notin> L"
  shows "live_after es L = (if connect_succeeds a then insert (the (new_result a)) L else L)"
    and "handle_safe L es"
  using assms
  by (auto simp: mqtt_connect_def connect_succeeds_def MOSQ_ERR_SUCCESS_def Let_def
      split: option.splits if_splits)

lemma mqtt_close_result:
  "mqtt_close c = (es, c') \<Longrightarrow>
   mosq c' = None \<and> (mqtt_connected c' \<longrightarrow> mosq c = None \<and> mqtt_connected c) \<and>
   live_after es L = L - set_option (mosq c) \<and> (set_option (mosq c) \<subseteq> L \<longrightarrow> handle_safe L es)"
  by (auto simp: mqtt_close_def split: option.splits)

lemma mqtt_send_calls:
  "mqtt_send rc msg c = Inr (b, es) \<Longrightarrow>
   es = [] \<or> (\<exists>h t m. mosq c = Some h \<and> mqtt_connected c \<and> es = [Mosq_publish h t m (qos c) False])"
  by (auto simp: mqtt_send_def bind_res_eq_Inr Let_def split: option.splits if_splits)

lemma handleMessage_result:
  assumes "handleMessage w msg c = Inr (es, c')"
  shows "mosq c' = mosq c" "mqtt_connected c' = mqtt_connected c" "\<exists>ss. es = map Emit ss"
proof -
  have "(es, c') = ([], c) \<or> (\<exists>e rs. process w e c = Inr (rs, c') \<and> es = map Emit (message_signals rs))"
    using assms by (auto simp: handleMessage_def bind_res_eq_Inr split: option.splits if_splits)
  moreover have "base_client.more c' = base_client.more c" if "process w e c = Inr (rs, c')" for e rs
    using process_outcome [OF that] by (simp add: base_ext_def)
  ultimately have "base_client.more c' = base_client.more c" and ex: "\<exists>ss. es = map Emit ss"
    by auto
  then show "mosq c' = mosq c" "mqtt_connected c' = mqtt_connected c"
    by (cases c; cases c'; simp)+
  show "\<exists>ss. es = map Emit ss" by (rule ex)
qed

lemma setMqttConfig_fields [simp]:
  "mosq (setMqttConfig i q r p c) = mosq c"
  "mqtt_connected (setMqttConfig i q r p c) = mqtt_connected c"
  by (simp_all add: setMqttConfig_def)

lemma set_path_mqtt_fields [simp]:
  "mosq (set_wave_file_path p c) = mosq c"
  "mqtt_connected (set_wave_file_path p c) = mqtt_connected c"
  by (simp_all add: set_wave_file_path_def)

section \<open>The transition system\<close>

text \<open>
  A state is a client with the handles that exist. The network thread of a handle runs its
  callbacks while the handle exists; \<open>mosquitto_new\<close> returns a handle that does not exist yet. With
  \<open>d\<close> set, \<open>connect\<close> is called only when the client holds no handle.
\<close>

inductive mqtt_step ::
    "bool \<Rightarrow> world \<Rightarrow> mqtt_client \<times> nat set \<Rightarrow> effect list \<Rightarrow> mqtt_client \<times> nat set \<Rightarrow> bool"
  for d :: bool and w :: world where
  do_connect:
    "mqtt_connect a ra rp lp ec c = Inr (out, ec', es, c') \<Longrightarrow> d \<longrightarrow> mosq c = None \<Longrightarrow>
     \<forall>h. new_result a = Some h \<longrightarrow> h \<notin> L \<Longrightarrow> mqtt_step d w (c, L) es (c', live_after es L)"
| do_close: "mqtt_close c = (es, c') \<Longrightarrow> mqtt_step d w (c, L) es (c', live_after es L)"
| do_send: "mqtt_send rc msg c = Inr (b, es) \<Longrightarrow> mqtt_step d w (c, L) es (c, live_after es L)"
| do_config: "mqtt_step d w (c, L) [] (setMqttConfig i q r p c, L)"
| do_set_path: "mqtt_step d w (c, L) [] (set_wave_file_path f c, L)"
| net_connect:
    "h \<in> L \<Longrightarrow> handleConnect rc c = (es, c') \<Longrightarrow> mqtt_step d w (c, L) es (c', live_after es L)"
| net_disconnect:
    "h \<in> L \<Longrightarrow> handleDisconnect rc c = (es, c') \<Longrightarrow> mqtt_step d w (c, L) es (c', live_after es L)"
| net_message:
    "h \<in> L \<Longrightarrow> handleMessage w msg c = Inr (es, c') \<Longrightarrow> mqtt_step d w (c, L) es (c', live_after es L)"

inductive mqtt_run ::
    "bool \<Rightarrow> world \<Rightarrow> mqtt_client \<times> nat set \<Rightarrow> effect list \<Rightarrow> mqtt_client \<times> nat set \<Rightarrow> bool"
  for d :: bool and w :: world where
  run_nil: "mqtt_run d w s [] s"
| run_step: "mqtt_run d w s es t \<Longrightarrow> mqtt_step d w t fs u \<Longrightarrow> mqtt_run d w s (es @ fs) u"

inductive_cases mqtt_step_cases: "mqtt_step d w (c, L) es s'"

definition handle_inv :: "mqtt_client \<times> nat set \<Rightarrow> bool" where
  "handle_inv s \<longleftrightarrow> snd s = set_option (mosq (fst s)) \<and> (mqtt_connected (fst s) \<longrightarrow> mosq (fst s) \<noteq> None)"

lemma mqtt_step_live: "mqtt_step d w (c, L) es (c', L') \<Longrightarrow> L' = live_after es L"
  by (erule mqtt_step_cases) auto

lemma mqtt_step_inv:
  assumes "mqtt_step True w (c, L) es s'" "handle_inv (c, L)"
  shows "handle_inv s' \<and> handle_safe L es"
  using assms(1)
proof cases
  case (do_connect a ra rp lp ec out ec' c')
  then have "\<not> mqtt_connected c" "L = {}" and fresh: "new_result a = Some h \<Longrightarrow> h \<notin> L" for h
    using assms(2) by (auto simp: handle_inv_def)
  note conn = \<open>mqtt_connect a ra rp lp ec c = Inr (out, ec', es, c')\<close>
  from mqtt_connect_result [OF conn] mqtt_connect_live [OF conn, of L] fresh
    \<open>\<not> mqtt_connected c\<close> \<open>L = {}\<close> do_connect(1)
  show ?thesis by (auto simp: handle_inv_def connect_succeeds_def split: if_splits)
next
  case (do_close c')
  with assms(2) mqtt_close_result [of c es c' L] show ?thesis
    by (auto simp: handle_inv_def)
next
  case (do_send rc msg b)
  with assms(2) mqtt_send_calls [of rc msg c b es] show ?thesis by (auto simp: handle_inv_def)
next
  case (net_connect h rc c')
  with assms(2) show ?thesis
    by (auto simp: handle_inv_def handleConnect_def subscribeToTopics_def Let_def split: if_splits)
next
  case (net_disconnect h rc c')
  with assms(2) show ?thesis by (auto simp: handle_inv_def handleDisconnect_def)
next
  case (net_message h msg c')
  with assms(2) handleMessage_result [of w msg c es c'] show ?thesis by (auto simp: handle_inv_def)
qed (use assms(2) in \<open>auto simp: handle_inv_def\<close>)

lemma mqtt_run_inv:
  assumes "mqtt_run True w s es s'" "handle_inv s"
  shows "handle_inv s' \<and> handle_safe (snd s) es \<and> snd s' = live_after es (snd s)"
  using assms
proof (induction rule: mqtt_run.induct)
  case (run_step s es t fs u)
  obtain c L c' L' where t: "t = (c, L)" "u = (c', L')" by (cases t, cases u) auto
  with run_step show ?case
    using mqtt_step_inv [of w c L fs u] mqtt_step_live [of True w c L fs c' L'] by auto
qed simp

section \<open>Properties\<close>

text \<open>
  \<open>connect\<close> on a client that is not connected, holds no handle and has a reconnect interval
  whose tenfold is an \<open>int\<close> always returns. It returns true exactly when the three library calls
  succeed; the error code tells the failing stage; on every failure the handle it created has
  been destroyed and the client holds none, so nothing leaks; no signal is emitted, and the
  client does not report being connected before the broker's acknowledgement.
\<close>

lemma mqtt_connect_contract:
  assumes "\<not> mqtt_connected c" "mosq c = None" "int_range (reconnect_interval_sec c * 10)"
    "\<forall>h. new_result a = Some h \<longrightarrow> h \<notin> L"
  shows "\<exists>es c'. mqtt_connect a ra rp lp ec c =
      Inr (Returned (new_result a \<noteq> None \<and> loop_start_rc a = 0 \<and> connect_rc a = 0),
           if new_result a = None then No_memory
           else if loop_start_rc a = 0 \<and> connect_rc a = 0 then Success else Connection_refused, es, c') \<and>
    mosq c' = (if loop_start_rc a = 0 \<and> connect_rc a = 0 then new_result a else None) \<and>
    \<not> mqtt_connected c' \<and> broker_address c' = ra \<and> broker_port c' = uint rp \<and>
    live_after es L = L \<union> set_option (mosq c') \<and> handle_safe L es \<and> emitted es = []"
  using assms
  by (auto simp: mqtt_connect_def MOSQ_ERR_SUCCESS_def Let_def split: option.splits)

text \<open>
  C26: in every run from construction in which \<open>connect\<close> is called only while the client holds no
  handle, interleaved in any way with the network thread's callbacks: no handle is used before it
  exists or after it is destroyed, exactly the handle the client holds exists (so none leaks), and
  a client that reports being connected holds one.
\<close>

theorem mqtt_handle_discipline:
  assumes "mqtt_run True w (mqtt_init, {}) es (c, L)"
  shows "handle_safe {} es \<and> L = live_after es {} \<and> L = set_option (mosq c) \<and>
    (mqtt_connected c \<longrightarrow> mosq c \<noteq> None)"
  using mqtt_run_inv [OF assms] by (auto simp: handle_inv_def mqtt_init_def)

definition ok_answers :: "nat \<Rightarrow> mosq_answers" where
  "ok_answers h = \<lparr>new_result = Some h, loop_start_rc = 0, connect_rc = 0\<rparr>"

lemma mqtt_connect_ok:
  assumes "\<not> mqtt_connected c" "reconnect_interval_sec c = 5" "client_id c = []"
  shows "mqtt_connect (ok_answers h) ra rp lp ec c =
    Inr (Returned True, Success,
         [Mosq_new None (Some h), Mosq_set_callbacks h, Mosq_reconnect_delay_set h 5 50, Mosq_loop_start h,
          Mosq_connect h ra (uint rp) 60],
         c\<lparr>broker_address := ra, broker_port := uint rp, mosq := Some h\<rparr>)"
  using assms by (simp add: mqtt_connect_def ok_answers_def MOSQ_ERR_SUCCESS_def int_range_def)

lemma mqtt_init_fields [simp]:
  "mosq mqtt_init = None" "\<not> mqtt_connected mqtt_init" "reconnect_interval_sec mqtt_init = 5"
  "client_id mqtt_init = []"
  by (simp_all add: mqtt_init_def)

lemma mqtt_run_one: "mqtt_step d w s es t \<Longrightarrow> mqtt_run d w s es t"
  using run_step [OF run_nil] by fastforce

definition connecting_client :: "nat \<Rightarrow> mqtt_client" where
  "connecting_client h = mqtt_init\<lparr>broker_address := ''obu'', broker_port := 1883, mosq := Some h\<rparr>"

lemma connecting_client_fields [simp]:
  "mosq (connecting_client h) = Some h" "\<not> mqtt_connected (connecting_client h)"
  "reconnect_interval_sec (connecting_client h) = 5" "client_id (connecting_client h) = []"
  by (simp_all add: connecting_client_def)

lemma mqtt_run_connecting: "\<exists>es. mqtt_run d w (mqtt_init, {}) es (connecting_client h, {h})"
proof -
  have "mqtt_connect (ok_answers h) ''obu'' 1883 0 Success mqtt_init =
      Inr (Returned True, Success,
         [Mosq_new None (Some h), Mosq_set_callbacks h, Mosq_reconnect_delay_set h 5 50, Mosq_loop_start h,
          Mosq_connect h ''obu'' (uint (1883 :: 16 word)) 60], connecting_client h)"
    using mqtt_connect_ok [of mqtt_init h] by (simp add: connecting_client_def)
  from do_connect [OF this, of d "{}" w] show ?thesis
    by (auto intro: mqtt_run_one)
qed

theorem mqtt_handle_discipline_witness:
  "{7} = set_option (mosq (connecting_client 7))"
proof -
  obtain es where "mqtt_run True (deployed_world ''w'') (mqtt_init, {}) es (connecting_client 7, {7})"
    using mqtt_run_connecting by blast
  from mqtt_handle_discipline [OF this] show ?thesis by simp
qed

text \<open>
  A handle the client has lost (\<open>connect\<close> called again before the broker acknowledged the first
  one) is never destroyed, whatever operations and callbacks follow.
\<close>

lemma mqtt_orphan_forever:
  assumes "mqtt_run d w s es s'" "h \<in> snd s" "mosq (fst s) \<noteq> Some h"
  shows "h \<in> snd s' \<and> mosq (fst s') \<noteq> Some h"
  using assms
proof (induction rule: mqtt_run.induct)
  case (run_step s es t fs u)
  then have t: "h \<in> snd t" "mosq (fst t) \<noteq> Some h" by auto
  from run_step.hyps(2) show ?case
  proof cases
    case (do_connect a ra rp lp ec c out ec' c' L)
    show ?thesis
    proof (cases "mqtt_connected c")
      case True
      with do_connect t show ?thesis by simp
    next
      case False
      have fresh: "new_result a = Some k \<Longrightarrow> k \<notin> L" for k using do_connect by simp
      from do_connect t mqtt_connect_result(3) [OF do_connect(3) False]
        mqtt_connect_live(1) [OF do_connect(3) False fresh] fresh
      show ?thesis by (auto split: if_splits)
    qed
  next
    case (do_close c c' L)
    with t mqtt_close_result [OF do_close(3), of L] show ?thesis by auto
  next
    case (do_send rc msg c b L)
    with t mqtt_send_calls [OF do_send(3)] show ?thesis by auto
  next
    case (net_connect h rc c c' L)
    with t show ?thesis
      by (auto simp: handleConnect_def subscribeToTopics_def Let_def split: if_splits)
  next
    case (net_message k L msg c c')
    with t handleMessage_result [OF net_message(4)] show ?thesis by auto
  qed (use t in \<open>auto simp: handleDisconnect_def\<close>)
qed simp

text \<open>
  Such a loss can leave the client unusable. There is a run of calls and callbacks from
  construction after which the client reports being connected but holds no handle; the
  acknowledgement of the lost handle made it subscribe on a null handle. In that state \<open>connect\<close> gives
  up, \<open>close\<close> does nothing and every send fails.
\<close>

lemma mqtt_stuck_connected:
  "\<exists>es c L. mqtt_run False w (mqtt_init, {}) es (c, L) \<and>
     mqtt_connected c \<and> mosq c = None \<and> \<not> handle_safe {} es \<and>
     (\<forall>a ra rp lp ec. mqtt_connect a ra rp lp ec c = Inr (Returned False, ec, [], c)) \<and>
     mqtt_close c = ([], c) \<and> (\<forall>rc m. mqtt_send rc m c = Inr (False, []))"
proof -
  let ?a = "\<lparr>new_result = Some 1, loop_start_rc = 0, connect_rc = 14\<rparr>"
  let ?c = "(connecting_client 0)\<lparr>mosq := None\<rparr>"
  let ?d = "?c\<lparr>mqtt_connected := True\<rparr>"
  obtain es where es: "mqtt_run False w (mqtt_init, {}) es (connecting_client 0, {0})"
    using mqtt_run_connecting by blast
  have "\<exists>out ec' fs. mqtt_connect ?a ''obu'' 1883 0 Success (connecting_client 0) = Inr (out, ec', fs, ?c) \<and>
      live_after fs {0} = {0}"
    by (simp add: mqtt_connect_def MOSQ_ERR_SUCCESS_def int_range_def connecting_client_def)
  then obtain out ec' fs where fs: "mqtt_connect ?a ''obu'' 1883 0 Success (connecting_client 0) = Inr (out, ec', fs, ?c)"
    and lfs: "live_after fs {0} = {0}"
    by blast
  have "mqtt_step False w (connecting_client 0, {0}) fs (?c, {0})"
    using do_connect [OF fs, of False "{0}" w] lfs by simp
  with es have run1: "mqtt_run False w (mqtt_init, {}) (es @ fs) (?c, {0})"
    by (rule run_step)
  have "handleConnect 0 ?c = ([Mosq_subscribe None (buildSubscribeTopic ?d) (qos ?d), Emit OnConnect], ?d)"
    by (simp add: handleConnect_def subscribeToTopics_def Let_def)
  then have "mqtt_step False w (?c, {0}) [Mosq_subscribe None (buildSubscribeTopic ?d) (qos ?d), Emit OnConnect] (?d, {0})"
    using net_connect [of 0 "{0}" 0 ?c _ ?d False w] by simp
  with run1 have "mqtt_run False w (mqtt_init, {})
      ((es @ fs) @ [Mosq_subscribe None (buildSubscribeTopic ?d) (qos ?d), Emit OnConnect]) (?d, {0})"
    by (rule run_step)
  moreover have "mqtt_close ?d = ([], ?d)" by (simp add: mqtt_close_def)
  moreover have "mqtt_send rc m ?d = Inr (False, [])" for rc m
    by (simp add: mqtt_send_def)
  ultimately show ?thesis
    by (intro exI conjI) (assumption | simp)+
qed

section \<open>The library's reference count\<close>

text \<open>
  Constructors and destructors of clients, from any thread, act on the counter one after the
  other (\<open>fetch_add\<close>, \<open>fetch_sub\<close>); a destructor closes the client it destroys.
\<close>

datatype lib_event = Construct | Destruct mqtt_client

fun lib_run :: "lib_event list \<Rightarrow> int \<Rightarrow> effect list \<times> int" where
  "lib_run [] n = ([], n)"
| "lib_run (Construct # evs) n =
     (let (es, n', c) = mqtt_construct n; (fs, m) = lib_run evs n' in (es @ fs, m))"
| "lib_run (Destruct c # evs) n =
     (let (es, n') = mqtt_destruct n c; (fs, m) = lib_run evs n' in (es @ fs, m))"

text \<open>No client is destroyed that was not constructed.\<close>

fun matched :: "nat \<Rightarrow> lib_event list \<Rightarrow> bool" where
  "matched n [] = True"
| "matched n (Construct # evs) = matched (Suc n) evs"
| "matched n (Destruct c # evs) = (0 < n \<and> matched (n - 1) evs)"

text \<open>
  Whether the library is initialised after a trace; \<open>None\<close> when it is initialised twice, cleaned up
  twice, or called while it is not initialised.
\<close>

fun lib_up :: "bool \<Rightarrow> effect list \<Rightarrow> bool option" where
  "lib_up b [] = Some b"
| "lib_up b (Mosq_lib_init # es) = (if b then None else lib_up True es)"
| "lib_up b (Mosq_lib_cleanup # es) = (if b then lib_up False es else None)"
| "lib_up b (e # es) = (if handle_used e \<noteq> None \<and> \<not> b then None else lib_up b es)"

lemma lib_up_close: "lib_up True (fst (mqtt_close c) @ es) = lib_up True es"
  by (simp add: mqtt_close_def split: option.split)

lemma lib_run_up:
  "matched n evs \<Longrightarrow>
   lib_up (0 < n) (fst (lib_run evs (int n))) = Some (0 < snd (lib_run evs (int n))) \<and>
   0 \<le> snd (lib_run evs (int n))"
proof (induction n evs rule: matched.induct)
  case (2 n evs)
  then show ?case
    by (cases n) (auto simp: mqtt_construct_def case_prod_beta add.commute)
next
  case (3 n c evs)
  then obtain k where n: "n = Suc k" by (cases n) auto
  with 3 show ?case
    by (cases k) (auto simp: mqtt_destruct_def case_prod_beta lib_up_close)
qed simp

text \<open>
  Over any sequence of constructions and destructions in which nothing is destroyed that was not
  constructed, the library is initialised exactly once before its first use and cleaned up exactly
  when the last client goes: it is never initialised or cleaned up twice in a row nor used while
  down, and at the end it is up exactly when the counter is positive.
\<close>

lemma mosquitto_lib_balanced:
  assumes "matched 0 evs" "lib_run evs 0 = (es, n)"
  shows "lib_up False es = Some (0 < n) \<and> 0 \<le> n"
  using lib_run_up [OF assms(1)] assms(2) by simp

end
