(* ===== verification/Radio_Interface.thy ===== *)
theory Radio_Interface
  imports Mqtt_Lifecycle Udp_Io_Thread
begin

text \<open>
  The transport interface of \<open>BaseRadioClient\<close> as the node uses it: the abstract operations
  \<open>connect\<close>, \<open>close\<close>, \<open>connected\<close> and \<open>sendV2xMessage\<close>, their contract as a locale, and
  interpretations on the UDP client, on the MQTT client and on the node's pointer to either.
\<close>

section \<open>Sequences of calls\<close>

datatype ('a, 'b) radio_op =
    Connect 'a string "16 word" "16 word" error_code
  | Close
  | Send 'b bytes

fun is_connect :: "('a, 'b) radio_op \<Rightarrow> bool" where
  "is_connect (Connect a ra rp lp ec) = True"
| "is_connect _ = False"

text \<open>A sequence of calls on a client with the operations \<open>conn\<close>, \<open>cls\<close> and \<open>snd\<close>; it ends at a fault.\<close>

fun run_ops ::
    "('a \<Rightarrow> string \<Rightarrow> 16 word \<Rightarrow> 16 word \<Rightarrow> error_code \<Rightarrow> 's \<Rightarrow>
        (connect_outcome \<times> error_code \<times> effect list \<times> 's) res) \<Rightarrow>
     ('s \<Rightarrow> (effect list \<times> 's) res) \<Rightarrow>
     ('b \<Rightarrow> bytes \<Rightarrow> 's \<Rightarrow> (bool \<times> effect list \<times> 's) res) \<Rightarrow>
     ('a, 'b) radio_op list \<Rightarrow> 's \<Rightarrow> (effect list \<times> 's) res" where
  "run_ops conn cls sendf [] s = Inr ([], s)"
| "run_ops conn cls sendf (Connect a ra rp lp ec # ops) s =
     bind_res (conn a ra rp lp ec s) (\<lambda>(out, ec', es, s1).
     bind_res (run_ops conn cls sendf ops s1) (\<lambda>(fs, s2). Inr (es @ fs, s2)))"
| "run_ops conn cls sendf (Close # ops) s =
     bind_res (cls s) (\<lambda>(es, s1).
     bind_res (run_ops conn cls sendf ops s1) (\<lambda>(fs, s2). Inr (es @ fs, s2)))"
| "run_ops conn cls sendf (Send b m # ops) s =
     bind_res (sendf b m s) (\<lambda>(r, es, s1).
     bind_res (run_ops conn cls sendf ops s1) (\<lambda>(fs, s2). Inr (es @ fs, s2)))"

section \<open>The contract\<close>

locale radio_client =
  fixes inv :: "'s \<Rightarrow> bool"
    and is_connected :: "'s \<Rightarrow> bool"
    and conn :: "'a \<Rightarrow> string \<Rightarrow> 16 word \<Rightarrow> 16 word \<Rightarrow> error_code \<Rightarrow> 's \<Rightarrow>
      (connect_outcome \<times> error_code \<times> effect list \<times> 's) res"
    and cls :: "'s \<Rightarrow> (effect list \<times> 's) res"
    and sendf :: "'b \<Rightarrow> bytes \<Rightarrow> 's \<Rightarrow> (bool \<times> effect list \<times> 's) res"
  assumes close_returns: "inv s \<Longrightarrow> \<exists>es s'. cls s = Inr (es, s') \<and> inv s' \<and> \<not> is_connected s'
      \<and> cls s' = Inr ([], s') \<and> set (emitted es) \<subseteq> {OnDisconnect}"
    and send_disconnected: "\<not> is_connected s \<Longrightarrow> sendf b m s = Inr (False, [], s)"
    and send_keeps: "inv s \<Longrightarrow> sendf b m s = Inr (r, es, s') \<Longrightarrow>
      inv s' \<and> is_connected s' = is_connected s \<and> emitted es = []"
    and connect_connected: "is_connected s \<Longrightarrow> conn a ra rp lp ec s = Inr (Returned False, ec, [], s)"
    and connect_keeps: "inv s \<Longrightarrow> conn a ra rp lp ec s = Inr (out, ec', es, s') \<Longrightarrow>
      inv s' \<and> (is_connected s' \<longrightarrow> is_connected s \<or> out = Returned True)
      \<and> set (emitted es) \<subseteq> {OnConnect} \<and> (out \<noteq> Returned True \<longrightarrow> emitted es = [])"
begin

lemma close_result:
  assumes "inv s" "cls s = Inr (es, s')"
  shows "inv s'" "\<not> is_connected s'" "cls s' = Inr ([], s')" "set (emitted es) \<subseteq> {OnDisconnect}"
  using close_returns [OF assms(1)] assms(2) by auto

lemma ops_keep:
  "run_ops conn cls sendf ops s = Inr (es, s') \<Longrightarrow> inv s \<Longrightarrow>
   inv s' \<and> set (emitted es) \<subseteq> {OnConnect, OnDisconnect}"
proof (induction ops arbitrary: s es)
  case (Cons op ops)
  show ?case
  proof (cases op)
    case (Connect a ra rp lp ec)
    with Cons.prems(1) obtain out ec' e1 s1 e2 where
      "conn a ra rp lp ec s = Inr (out, ec', e1, s1)" "run_ops conn cls sendf ops s1 = Inr (e2, s')" "es = e1 @ e2"
      by (auto simp: bind_res_eq_Inr)
    with connect_keeps [of s a ra rp lp ec out ec' e1 s1] Cons.IH [of s1 e2] Cons.prems(2)
    show ?thesis by auto
  next
    case Close
    with Cons.prems(1) obtain e1 s1 e2 where
      "cls s = Inr (e1, s1)" "run_ops conn cls sendf ops s1 = Inr (e2, s')" "es = e1 @ e2"
      by (auto simp: bind_res_eq_Inr)
    with close_result [of s e1 s1] Cons.IH [of s1 e2] Cons.prems(2) show ?thesis by auto
  next
    case (Send b m)
    with Cons.prems(1) obtain r e1 s1 e2 where
      "sendf b m s = Inr (r, e1, s1)" "run_ops conn cls sendf ops s1 = Inr (e2, s')" "es = e1 @ e2"
      by (auto simp: bind_res_eq_Inr)
    with send_keeps [of s b m r e1 s1] Cons.IH [of s1 e2] Cons.prems(2) show ?thesis by auto
  qed
qed simp

lemma closed_ops_quiet:
  assumes "\<not> is_connected s" "cls s = Inr ([], s)" "\<not> list_ex is_connect ops"
  shows "run_ops conn cls sendf ops s = Inr ([], s)"
  using assms(3)
proof (induction ops)
  case (Cons op ops)
  then show ?case
    using assms(1,2) by (cases op) (auto simp: send_disconnected)
qed simp

lemma quiet_after_close:
  assumes "inv s" "run_ops conn cls sendf ops s = Inr (es, s1)" "\<not> list_ex is_connect ops'"
  shows "\<exists>fs s2. cls s1 = Inr (fs, s2) \<and> \<not> is_connected s2 \<and> run_ops conn cls sendf ops' s2 = Inr ([], s2)"
proof -
  have "inv s1" using ops_keep [OF assms(2,1)] by simp
  then obtain fs s2 where "cls s1 = Inr (fs, s2)" "\<not> is_connected s2" "cls s2 = Inr ([], s2)"
    using close_returns by blast
  with closed_ops_quiet [OF _ _ assms(3)] show ?thesis by blast
qed

end

section \<open>The UDP client\<close>

definition udp_conn :: "udp_answers \<times> nat \<Rightarrow> string \<Rightarrow> 16 word \<Rightarrow> 16 word \<Rightarrow> error_code \<Rightarrow> udp_client \<Rightarrow>
    (connect_outcome \<times> error_code \<times> effect list \<times> udp_client) res" where
  "udp_conn an = udp_connect (fst an) (snd an)"

definition udp_sendf :: "unit answer \<Rightarrow> bytes \<Rightarrow> udp_client \<Rightarrow> (bool \<times> effect list \<times> udp_client) res" where
  "udp_sendf p m c = bind_res (udp_send p m c) (\<lambda>(b, c'). Inr (b, [], c'))"

lemma udp_connect_emits:
  assumes "wf_udp c" "udp_connect a n ra rp lp ec c = Inr (out, ec', es, c')"
  shows "set (emitted es) \<subseteq> {OnConnect} \<and> (out \<noteq> Returned True \<longrightarrow> emitted es = [])
    \<and> (udp_running c' \<longrightarrow> udp_running c \<or> out = Returned True)"
proof (cases "udp_running c")
  case False
  note eq = udp_connect_eq [OF assms(1) False]
  from assms(2) obtain r where r: "remote_endpoint a ra rp ec = Inr r" unfolding eq by (auto simp: bind_res_eq_Inr)
  show ?thesis
  proof (cases r)
    case (Inl x)
    with r assms(2) False show ?thesis unfolding eq by (auto split: prod.splits)
  next
    case (Inr ep)
    then have "end_result n lp ep c (start_end a lp ep) = (out, ec', es, c')"
      using assms(2) r unfolding eq by simp
    from end_result_facts [OF this False start_end_returns] show ?thesis
      by (cases "start_end a lp ep = Running") auto
  qed
qed (use assms in auto)

lemma udp_close_emits: "udp_close c = Inr (es, c') \<Longrightarrow> set (emitted es) \<subseteq> {OnDisconnect}"
  by (auto simp: udp_close_def bind_res_eq_Inr deleted_def split: if_splits option.splits)

interpretation udp: radio_client wf_udp udp_running udp_conn udp_close udp_sendf
proof
  fix s assume "wf_udp s"
  from udp_close_total [OF this] obtain es s' where
    "udp_close s = Inr (es, s')" "wf_udp s'" "\<not> udp_running s'" "udp_close s' = Inr ([], s')" by blast
  with udp_close_emits show "\<exists>es s'. udp_close s = Inr (es, s') \<and> wf_udp s' \<and> \<not> udp_running s'
      \<and> udp_close s' = Inr ([], s') \<and> set (emitted es) \<subseteq> {OnDisconnect}" by blast
next
  fix s b m r es s' assume "wf_udp s" "udp_sendf b m s = Inr (r, es, s')"
  then show "wf_udp s' \<and> udp_running s' = udp_running s \<and> emitted es = []"
    by (auto simp: udp_sendf_def udp_send_total split: if_splits)
next
  fix a ra rp lp ec s out ec' es s'
  assume s: "wf_udp s" and c: "udp_conn a ra rp lp ec s = Inr (out, ec', es, s')"
  from c have "udp_connect (fst a) (snd a) ra rp lp ec s = Inr (out, ec', es, s')"
    by (simp add: udp_conn_def)
  from udp_connect_wf [OF s this] udp_connect_emits [OF s this]
  show "wf_udp s' \<and> (udp_running s' \<longrightarrow> udp_running s \<or> out = Returned True)
      \<and> set (emitted es) \<subseteq> {OnConnect} \<and> (out \<noteq> Returned True \<longrightarrow> emitted es = [])" by simp
qed (simp_all add: udp_sendf_def udp_send_def udp_conn_def)

section \<open>The MQTT client\<close>

definition wf_mqtt :: "mqtt_client \<Rightarrow> bool" where
  "wf_mqtt c \<longleftrightarrow> (mqtt_connected c \<longrightarrow> mosq c \<noteq> None)"

definition mqtt_cls :: "mqtt_client \<Rightarrow> (effect list \<times> mqtt_client) res" where
  "mqtt_cls c = Inr (mqtt_close c)"

definition mqtt_sendf :: "int \<Rightarrow> bytes \<Rightarrow> mqtt_client \<Rightarrow> (bool \<times> effect list \<times> mqtt_client) res" where
  "mqtt_sendf rc m c = bind_res (mqtt_send rc (Some m) c) (\<lambda>(b, es). Inr (b, es, c))"

interpretation mqtt: radio_client wf_mqtt mqtt_connected mqtt_connect mqtt_cls mqtt_sendf
proof
  fix s assume "wf_mqtt s"
  then show "\<exists>es s'. mqtt_cls s = Inr (es, s') \<and> wf_mqtt s' \<and> \<not> mqtt_connected s'
      \<and> mqtt_cls s' = Inr ([], s') \<and> set (emitted es) \<subseteq> {OnDisconnect}"
    by (cases "mosq s") (auto simp: mqtt_cls_def mqtt_close_def wf_mqtt_def)
next
  fix s :: mqtt_client and b m assume "\<not> mqtt_connected s"
  then show "mqtt_sendf b m s = Inr (False, [], s)"
    by (cases "mosq s") (simp_all add: mqtt_sendf_def mqtt_send_def)
next
  fix s b m r es s' assume s: "wf_mqtt s" "mqtt_sendf b m s = Inr (r, es, s')"
  from s(2) have "mqtt_send b (Some m) s = Inr (r, es) \<and> s' = s"
    unfolding mqtt_sendf_def bind_res_eq_Inr by (simp add: case_prod_beta) (metis prod.collapse)
  with s(1) mqtt_send_calls [of b "Some m" s r es]
  show "wf_mqtt s' \<and> mqtt_connected s' = mqtt_connected s \<and> emitted es = []" by auto
next
  fix a ra rp lp ec s out ec' es s'
  assume s: "wf_mqtt s" and c: "mqtt_connect a ra rp lp ec s = Inr (out, ec', es, s')"
  show "wf_mqtt s' \<and> (mqtt_connected s' \<longrightarrow> mqtt_connected s \<or> out = Returned True)
      \<and> set (emitted es) \<subseteq> {OnConnect} \<and> (out \<noteq> Returned True \<longrightarrow> emitted es = [])"
  proof (cases "mqtt_connected s")
    case True
    with s c show ?thesis by simp
  next
    case False
    from mqtt_connect_result(3,4) [OF c False] False show ?thesis by (simp add: wf_mqtt_def)
  qed
qed simp

section \<open>The node's pointer\<close>

text \<open>
  \<open>std::unique_ptr<BaseRadioClient>\<close> and the virtual calls through it; the record of answers has
  the ones of either library.
\<close>

datatype radio = Udp udp_client | Mqtt mqtt_client

record connect_answers =
  udp_side :: udp_answers
  io_id :: nat
  mqtt_side :: mosq_answers

record send_answers =
  post_answer :: "unit answer"
  publish_rc :: int

fun radio_connected :: "radio \<Rightarrow> bool" where
  "radio_connected (Udp c) = udp_running c"
| "radio_connected (Mqtt c) = mqtt_connected c"

fun radio_connect :: "connect_answers \<Rightarrow> string \<Rightarrow> 16 word \<Rightarrow> 16 word \<Rightarrow> error_code \<Rightarrow> radio \<Rightarrow>
    (connect_outcome \<times> error_code \<times> effect list \<times> radio) res" where
  "radio_connect a ra rp lp ec (Udp c) =
     bind_res (udp_conn (udp_side a, io_id a) ra rp lp ec c) (\<lambda>(out, ec', es, c'). Inr (out, ec', es, Udp c'))"
| "radio_connect a ra rp lp ec (Mqtt c) =
     bind_res (mqtt_connect (mqtt_side a) ra rp lp ec c) (\<lambda>(out, ec', es, c'). Inr (out, ec', es, Mqtt c'))"

fun radio_close :: "radio \<Rightarrow> (effect list \<times> radio) res" where
  "radio_close (Udp c) = bind_res (udp_close c) (\<lambda>(es, c'). Inr (es, Udp c'))"
| "radio_close (Mqtt c) = bind_res (mqtt_cls c) (\<lambda>(es, c'). Inr (es, Mqtt c'))"

fun radio_send :: "send_answers \<Rightarrow> bytes \<Rightarrow> radio \<Rightarrow> (bool \<times> effect list \<times> radio) res" where
  "radio_send a m (Udp c) = bind_res (udp_sendf (post_answer a) m c) (\<lambda>(b, es, c'). Inr (b, es, Udp c'))"
| "radio_send a m (Mqtt c) = bind_res (mqtt_sendf (publish_rc a) m c) (\<lambda>(b, es, c'). Inr (b, es, Mqtt c'))"

fun radio_set_path :: "string \<Rightarrow> radio \<Rightarrow> radio" where
  "radio_set_path p (Udp c) = Udp (set_wave_file_path p c)"
| "radio_set_path p (Mqtt c) = Mqtt (set_wave_file_path p c)"

fun wf_radio :: "radio \<Rightarrow> bool" where
  "wf_radio (Udp c) = wf_udp c"
| "wf_radio (Mqtt c) = wf_mqtt c"

text \<open>The overload of \<open>connect\<close> without an error code ignores the one it passes.\<close>

definition radio_connect_noec ::
    "connect_answers \<Rightarrow> string \<Rightarrow> 16 word \<Rightarrow> 16 word \<Rightarrow> radio \<Rightarrow> (connect_outcome \<times> effect list \<times> radio) res" where
  "radio_connect_noec a ra rp lp r =
     bind_res (radio_connect a ra rp lp Success r) (\<lambda>(out, ec, es, r'). Inr (out, es, r'))"

interpretation node_radio: radio_client wf_radio radio_connected radio_connect radio_close radio_send
proof
  fix s assume s: "wf_radio s"
  show "\<exists>es s'. radio_close s = Inr (es, s') \<and> wf_radio s' \<and> \<not> radio_connected s'
      \<and> radio_close s' = Inr ([], s') \<and> set (emitted es) \<subseteq> {OnDisconnect}"
  proof (cases s)
    case (Udp c)
    with s udp.close_returns [of c] show ?thesis by fastforce
  next
    case (Mqtt c)
    with s mqtt.close_returns [of c] show ?thesis by fastforce
  qed
next
  fix s b m assume "\<not> radio_connected s"
  then show "radio_send b m s = Inr (False, [], s)"
    by (cases s) (simp_all add: udp.send_disconnected mqtt.send_disconnected)
next
  fix s b m r es s' assume "wf_radio s" "radio_send b m s = Inr (r, es, s')"
  then show "wf_radio s' \<and> radio_connected s' = radio_connected s \<and> emitted es = []"
    by (cases s) (auto simp: bind_res_eq_Inr dest: udp.send_keeps mqtt.send_keeps)
next
  fix s a ra rp lp ec assume "radio_connected s"
  then show "radio_connect a ra rp lp ec s = Inr (Returned False, ec, [], s)"
    by (cases s) (simp_all add: udp.connect_connected mqtt.connect_connected)
next
  fix a ra rp lp ec s out ec' es s'
  assume "wf_radio s" "radio_connect a ra rp lp ec s = Inr (out, ec', es, s')"
  then show "wf_radio s' \<and> (radio_connected s' \<longrightarrow> radio_connected s \<or> out = Returned True)
      \<and> set (emitted es) \<subseteq> {OnConnect} \<and> (out \<noteq> Returned True \<longrightarrow> emitted es = [])"
    by (cases s) (auto simp: bind_res_eq_Inr dest: udp.connect_keeps mqtt.connect_keeps)
qed

section \<open>Property\<close>

text \<open>
  C36: the contract of the transport, for either client behind the node's pointer. After any sequence of
  \<open>connect\<close>, \<open>close\<close> and \<open>sendV2xMessage\<close> calls on a well-formed client, a \<open>close\<close> returns, the
  client is not connected, and every further \<open>close\<close> and send does nothing at all and returns
  false; up to the \<open>close\<close> the calls emitted no signal but \<open>onConnect\<close> and \<open>onDisconnect\<close>.
\<close>

theorem radio_quiet_after_close:
  assumes "wf_radio r" "run_ops radio_connect radio_close radio_send ops r = Inr (es, r1)"
    "\<not> list_ex is_connect ops'"
  shows "(\<exists>fs r2. radio_close r1 = Inr (fs, r2) \<and> \<not> radio_connected r2 \<and>
      run_ops radio_connect radio_close radio_send ops' r2 = Inr ([], r2) \<and>
      (\<forall>a m. radio_send a m r2 = Inr (False, [], r2))) \<and>
    set (emitted es) \<subseteq> {OnConnect, OnDisconnect}"
  using node_radio.quiet_after_close [OF assms] node_radio.ops_keep [OF assms(2,1)]
    node_radio.send_disconnected by blast

theorem radio_quiet_after_close_witness:
  "\<exists>fs r2. radio_close (Udp (up_client udp_init 1)) = Inr (fs, r2) \<and> \<not> radio_connected r2 \<and>
     run_ops radio_connect radio_close radio_send
       [Send \<lparr>post_answer = Value (), publish_rc = 0\<rparr> [0, 20, 1, 2], Close] r2 = Inr ([], r2)"
proof -
  let ?a = "\<lparr>udp_side = ok_udp, io_id = 1, mqtt_side = ok_answers 1\<rparr>"
  have run: "\<exists>es. run_ops radio_connect radio_close radio_send [Connect ?a ''obu'' 1516 5398 Success] (Udp udp_init) =
      Inr (es, Udp (up_client udp_init 1))"
    using udp_connect_ok [OF udp_init_wf udp_init_stopped] by (simp add: udp_conn_def)
  then obtain es where "run_ops radio_connect radio_close radio_send [Connect ?a ''obu'' 1516 5398 Success] (Udp udp_init) =
      Inr (es, Udp (up_client udp_init 1))" ..
  from radio_quiet_after_close [OF _ this, of "[Send \<lparr>post_answer = Value (), publish_rc = 0\<rparr> [0, 20, 1, 2], Close]"]
  show ?thesis by auto
qed

end
