(* ===== verification/Driver_Node.thy ===== *)
theory Driver_Node
  imports Radio_Interface Node_Wave
begin

text \<open>
  \<open>V2XDriverApplication::Node\<close> (\<open>v2x_ros_driver_node.cpp\<close>) with its \<open>Config\<close>: the state, the factory of
  the radio client, the connection thread, the handlers of the two data directions, the services
  and the lifecycle callbacks. ROS is outside the repository: parameters are a store that is passed
  in, publishing is an effect; log output is left out.
\<close>

section \<open>Configuration\<close>

record config =
  protocol :: string
  v2x_radio_address :: string
  v2x_radio_listening_port :: int
  listening_port :: int
  broker_addr :: string
  cfg_broker_port :: int
  cfg_client_id :: string
  qos_default :: int
  cfg_reconnect_interval_sec :: int
  cfg_mqtt_topic_prefix :: string

definition default_config :: config where
  "default_config =
     \<lparr>protocol = ''udp'', v2x_radio_address = ''169.254.1.1'', v2x_radio_listening_port = 1516,
      listening_port = 5398, broker_addr = ''localhost'', cfg_broker_port = 1883, cfg_client_id = [],
      qos_default = 0, cfg_reconnect_interval_sec = 5, cfg_mqtt_topic_prefix = ''Ettifos/V2X''\<rparr>"

text \<open>
  The parameter store: \<open>declare_parameter\<close> returns, and \<open>get_parameter\<close> writes, the value that is set;
  otherwise the default or the old value stays.
\<close>

record params =
  int_param :: "string \<Rightarrow> int option"
  string_param :: "string \<Rightarrow> string option"

definition get_or :: "'a option \<Rightarrow> 'a \<Rightarrow> 'a" where
  "get_or x d = (case x of None \<Rightarrow> d | Some v \<Rightarrow> v)"

definition read_config :: "params \<Rightarrow> config \<Rightarrow> config" where
  "read_config p c =
     \<lparr>protocol = get_or (string_param p ''protocol'') (protocol c),
      v2x_radio_address = get_or (string_param p ''v2x_radio_address'') (v2x_radio_address c),
      v2x_radio_listening_port = get_or (int_param p ''v2x_radio_listening_port'') (v2x_radio_listening_port c),
      listening_port = get_or (int_param p ''listening_port'') (listening_port c),
      broker_addr = get_or (string_param p ''broker_address'') (broker_addr c),
      cfg_broker_port = get_or (int_param p ''broker_port'') (cfg_broker_port c),
      cfg_client_id = get_or (string_param p ''client_id'') (cfg_client_id c),
      qos_default = get_or (int_param p ''qos_default'') (qos_default c),
      cfg_reconnect_interval_sec = get_or (int_param p ''reconnect_interval_sec'') (cfg_reconnect_interval_sec c),
      cfg_mqtt_topic_prefix = get_or (string_param p ''mqtt_topic_prefix'') (cfg_mqtt_topic_prefix c)\<rparr>"

section \<open>State of the node\<close>

text \<open>
  \<open>conn_thread\<close> is \<open>connect_thread_\<close>: no object, a thread that has not done its work, one that has.
  \<open>error_slot\<close> and \<open>message_slot\<close> tell whether the node's slots are connected to the current client;
  \<open>lib_refs\<close> is \<open>MqttRadioClient::lib_ref_count_\<close>.
\<close>

datatype thread_state = No_thread_object | Pending | Done

record node =
  config :: config
  send_msg_queue :: "bytes list"
  connecting :: bool
  conn_thread :: thread_state
  wave_cfg_items :: "wave_item list"
  radio_client :: "radio option"
  radio_client_error :: error_code
  error_slot :: bool
  message_slot :: bool
  lib_refs :: int

definition node_construct :: "params \<Rightarrow> node" where
  "node_construct p =
     \<lparr>config = read_config p default_config, send_msg_queue = [], connecting = False,
      conn_thread = No_thread_object, wave_cfg_items = [], radio_client = None,
      radio_client_error = Success, error_slot = False, message_slot = False, lib_refs = 0\<rparr>"

datatype node_effect = Radio effect | Published byte_array

section \<open>Inbound messages and signals\<close>

definition onMessageReceivedHandler :: "nat \<Rightarrow> bytes \<Rightarrow> 16 word \<Rightarrow> node \<Rightarrow> node_effect list" where
  "onMessageReceivedHandler now data i nd =
     (let it = item_by_id i (wave_cfg_items nd) in
      [Published \<lparr>stamp = now, frame_id = [],
         message_type = (case it of Some e \<Rightarrow> w_name e | None \<Rightarrow> ''Unknown''), content = data\<rparr>])"

text \<open>A signal runs the slots that are connected, before the emitting call goes on.\<close>

fun run_slots :: "nat \<Rightarrow> signal \<Rightarrow> node \<Rightarrow> node_effect list \<times> node" where
  "run_slots now (OnError err) nd =
     ([], if error_slot nd then nd\<lparr>radio_client_error := err\<rparr> else nd)"
| "run_slots now (OnMessageReceived m i) nd =
     (if message_slot nd then onMessageReceivedHandler now m i nd else [], nd)"
| "run_slots now OnConnect nd = ([], nd)"
| "run_slots now OnDisconnect nd = ([], nd)"

fun dispatch :: "nat \<Rightarrow> effect list \<Rightarrow> node \<Rightarrow> node_effect list \<times> node" where
  "dispatch now [] nd = ([], nd)"
| "dispatch now (Emit s # es) nd =
     (let (fs, nd1) = run_slots now s nd; (gs, nd2) = dispatch now es nd1 in (Radio (Emit s) # fs @ gs, nd2))"
| "dispatch now (e # es) nd = (let (gs, nd2) = dispatch now es nd in (Radio e # gs, nd2))"

section \<open>Creating the client\<close>

definition radio_destruct :: "int \<Rightarrow> radio option \<Rightarrow> (effect list \<times> int) res" where
  "radio_destruct refs r =
     (case r of
        None \<Rightarrow> Inr ([], refs)
      | Some (Udp c) \<Rightarrow> bind_res (udp_destruct c) (\<lambda>es. Inr (es, refs))
      | Some (Mqtt c) \<Rightarrow> Inr (mqtt_destruct refs c))"

text \<open>The client the configuration asks for, with the calls of its constructor and the counter after it.\<close>

definition new_radio :: "node \<Rightarrow> effect list \<times> int \<times> radio" where
  "new_radio nd =
     (if protocol (config nd) = ''mqtt'' then
        let (es, refs, c) = mqtt_construct (lib_refs nd)
        in (es, refs, Mqtt (setMqttConfig (cfg_client_id (config nd)) (qos_default (config nd))
              (cfg_reconnect_interval_sec (config nd)) (cfg_mqtt_topic_prefix (config nd)) c))
      else ([], lib_refs nd, Udp udp_init))"

text \<open>The new client is made first; assigning it to the pointer destroys the old one.\<close>

definition createRadioClient :: "nat \<Rightarrow> node \<Rightarrow> (node_effect list \<times> node) res" where
  "createRadioClient now nd =
     (let (es, refs, new) = new_radio nd
      in bind_res (radio_destruct refs (radio_client nd)) (\<lambda>(ds, refs').
           let (fs, nd1) = dispatch now (es @ ds) nd
           in Inr (fs, nd1\<lparr>radio_client := Some new, lib_refs := refs', error_slot := False, message_slot := False\<rparr>)))"

section \<open>Connecting\<close>

definition radio_of :: "node \<Rightarrow> radio res" where
  "radio_of nd = deref (radio_client nd)"

text \<open>
  What the connection thread does: it connects with the configuration it finds, catches exceptions,
  and clears \<open>connecting_\<close>. Ports are converted to \<open>unsigned short\<close>.
\<close>

definition connect_body :: "nat \<Rightarrow> connect_answers \<Rightarrow> node \<Rightarrow> (node_effect list \<times> node) res" where
  "connect_body now a nd =
     bind_res (radio_of nd) (\<lambda>r.
     bind_res
       (if protocol (config nd) = ''mqtt''
        then radio_connect a (broker_addr (config nd)) (to_ushort (cfg_broker_port (config nd))) 0 Success r
        else radio_connect a (v2x_radio_address (config nd)) (to_ushort (v2x_radio_listening_port (config nd)))
               (to_ushort (listening_port (config nd))) Success r)
       (\<lambda>(out, ec, es, r').
          let (fs, nd1) = dispatch now es (nd\<lparr>radio_client := Some r'\<rparr>)
          in Inr (fs, nd1\<lparr>connecting := False, conn_thread := Done\<rparr>)))"

definition close_radio :: "nat \<Rightarrow> node \<Rightarrow> (node_effect list \<times> node) res" where
  "close_radio now nd =
     bind_res (radio_of nd) (\<lambda>r.
     bind_res (radio_close r) (\<lambda>(es, r').
       Inr (dispatch now es (nd\<lparr>radio_client := Some r'\<rparr>))))"

text \<open>
  Joining a thread that has not done its work waits until it has. Here the thread runs as a whole at the join, with
  the configuration and the client of that moment: the thread that had not started. One that is inside
  \<open>connect\<close> already when it is joined, with the arguments it read before, is \<open>connect_resume\<close> of \<open>Node_Races\<close>.
\<close>

definition join_thread :: "nat \<Rightarrow> connect_answers \<Rightarrow> node \<Rightarrow> (node_effect list \<times> node) res" where
  "join_thread now a nd =
     (case conn_thread nd of Pending \<Rightarrow> connect_body now a nd | _ \<Rightarrow> Inr ([], nd))"

definition pre_spin :: "nat \<Rightarrow> connect_answers \<Rightarrow> node \<Rightarrow> (node_effect list \<times> node) res" where
  "pre_spin now a nd =
     bind_res
       (if is_error (radio_client_error nd)
        then bind_res (close_radio now nd) (\<lambda>(es, nd1). Inr (es, nd1\<lparr>radio_client_error := Success\<rparr>))
        else Inr ([], nd))
       (\<lambda>(es, nd1).
          if connecting nd1 then Inr (es, nd1)
          else bind_res (radio_of nd1) (\<lambda>r.
            if radio_connected r then Inr (es, nd1)
            else bind_res (join_thread now a (nd1\<lparr>connecting := True\<rparr>)) (\<lambda>(fs, nd2).
              Inr (es @ fs, nd2\<lparr>conn_thread := Pending\<rparr>))))"

section \<open>Outbound messages\<close>

text \<open>What is handed to the transport: the raw content for MQTT, the packed text for UDP.\<close>

definition outbound_content :: "node \<Rightarrow> byte_array \<Rightarrow> bytes res" where
  "outbound_content nd m =
     (if protocol (config nd) = ''mqtt'' then Inr (content m) else packMessage (wave_cfg_items nd) m)"

definition sendMessageFromQueue :: "nat \<Rightarrow> send_answers \<Rightarrow> node \<Rightarrow> (node_effect list \<times> node) res" where
  "sendMessageFromQueue now a nd =
     (case send_msg_queue nd of
        [] \<Rightarrow> Inr ([], nd)
      | m # ms \<Rightarrow>
          bind_res (radio_of nd) (\<lambda>r.
          bind_res (radio_send a m r) (\<lambda>(success, es, r').
            let (fs, nd1) = dispatch now es (nd\<lparr>radio_client := Some r'\<rparr>)
            in Inr (fs, nd1\<lparr>send_msg_queue := ms\<rparr>))))"

definition onOutboundMessage :: "nat \<Rightarrow> send_answers \<Rightarrow> byte_array \<Rightarrow> node \<Rightarrow> (node_effect list \<times> node) res" where
  "onOutboundMessage now a m nd =
     bind_res (radio_of nd) (\<lambda>r.
       if \<not> radio_connected r then Inr ([], nd)
       else bind_res (outbound_content nd m) (\<lambda>message_content.
         sendMessageFromQueue now a (nd\<lparr>send_msg_queue := send_msg_queue nd @ [message_content]\<rparr>)))"

section \<open>Lifecycle\<close>

text \<open>
  \<open>share\<close> is the package's share directory, \<open>None\<close> when the lookup throws.
\<close>

definition handle_on_configure ::
    "world \<Rightarrow> nat \<Rightarrow> connect_answers \<Rightarrow> send_answers \<Rightarrow> params \<Rightarrow> string option \<Rightarrow> node \<Rightarrow> (node_effect list \<times> node) res" where
  "handle_on_configure w now a sa p share nd =
     bind_res (createRadioClient now (nd\<lparr>config := read_config p default_config\<rparr>)) (\<lambda>(es, nd1).
     bind_res (pre_spin now a nd1) (\<lambda>(fs, nd2).
     bind_res (case share of None \<Rightarrow> Inl (Thrown Library_error) | Some d \<Rightarrow> Inr (d @ ''/etc/wave.json''))
       (\<lambda>wave_cfg_file.
     bind_res (loadWaveConfig w wave_cfg_file (wave_cfg_items nd2)) (\<lambda>items.
     bind_res (radio_of nd2) (\<lambda>r.
     bind_res (sendMessageFromQueue now sa
         (nd2\<lparr>wave_cfg_items := items, radio_client := Some (radio_set_path wave_cfg_file r),
             radio_client_error := Success, error_slot := True, message_slot := True\<rparr>)) (\<lambda>(gs, nd3).
       Inr (es @ fs @ gs, nd3)))))))"

definition handle_on_shutdown :: "nat \<Rightarrow> connect_answers \<Rightarrow> node \<Rightarrow> (node_effect list \<times> node) res" where
  "handle_on_shutdown now a nd =
     bind_res (join_thread now a nd) (\<lambda>(es, nd1).
       let nd2 = nd1\<lparr>conn_thread := No_thread_object\<rparr> in
       case radio_client nd2 of
         None \<Rightarrow> Inr (es, nd2)
       | Some r \<Rightarrow> bind_res (close_radio now nd2) (\<lambda>(fs, nd3). Inr (es @ fs, nd3)))"

section \<open>Services\<close>

text \<open>The result is \<open>error_status\<close>.\<close>

definition sendMessageSrv :: "nat \<Rightarrow> send_answers \<Rightarrow> byte_array \<Rightarrow> node \<Rightarrow> (int \<times> node_effect list \<times> node) res" where
  "sendMessageSrv now a m nd =
     bind_res (radio_of nd) (\<lambda>r.
       if \<not> radio_connected r then Inr (1, [], nd)
       else bind_res (outbound_content nd m) (\<lambda>message_data.
         bind_res (radio_send a message_data r) (\<lambda>(success, es, r').
           let (fs, nd1) = dispatch now es (nd\<lparr>radio_client := Some r'\<rparr>)
           in Inr (if success then 0 else 1, fs, nd1))))"

definition reconnectSrv :: "nat \<Rightarrow> connect_answers \<Rightarrow> node \<Rightarrow> ((bool \<times> string) \<times> node_effect list \<times> node) res" where
  "reconnectSrv now a nd =
     bind_res (close_radio now nd) (\<lambda>(es, nd1).
     bind_res (pre_spin now a (nd1\<lparr>radio_client_error := Success, connecting := False\<rparr>)) (\<lambda>(fs, nd2).
       Inr ((True, ''Reconnect initiated for protocol: '' @ protocol (config nd2)), es @ fs, nd2)))"

text \<open>\<open>err_message\<close> is \<open>error_code::message\<close>.\<close>

definition getStatusSrv :: "(error_code \<Rightarrow> string) \<Rightarrow> node \<Rightarrow> (bool \<times> string) res" where
  "getStatusSrv err_message nd =
     bind_res (radio_of nd) (\<lambda>r.
       Inr (radio_connected r,
            ''protocol='' @ protocol (config nd) @ '', connected='' @
            (if radio_connected r then ''true'' else ''false'') @
            (if is_error (radio_client_error nd)
             then '', last_error='' @ err_message (radio_client_error nd) else [])))"

section \<open>Parameter updates\<close>

text \<open>
  \<open>update_params\<close> of \<open>carma_ros2_utils\<close> applied to the parameters of one request: whether it reports
  an error for a name of the type, and the value the variable has afterwards.
\<close>

record updater =
  upd_int :: "string \<Rightarrow> int \<Rightarrow> bool \<times> int"
  upd_string :: "string \<Rightarrow> string \<Rightarrow> bool \<times> string"

definition parameter_update_callback :: "updater \<Rightarrow> node \<Rightarrow> bool \<times> node" where
  "parameter_update_callback u nd =
     (let c = config nd;
          (e1, v1) = upd_int u ''listening_port'' (listening_port c);
          (e2, v2) = upd_int u ''v2x_radio_listening_port'' (v2x_radio_listening_port c);
          (e3, v3) = upd_string u ''v2x_radio_address'' (v2x_radio_address c);
          (e4, v4) = upd_string u ''protocol'' (protocol c);
          (e5, v5) = upd_string u ''broker_address'' (broker_addr c);
          (e6, v6) = upd_int u ''broker_port'' (cfg_broker_port c);
          (e7, v7) = upd_string u ''client_id'' (cfg_client_id c);
          (e8, v8) = upd_int u ''qos_default'' (qos_default c);
          (e9, v9) = upd_int u ''reconnect_interval_sec'' (cfg_reconnect_interval_sec c);
          (e10, v10) = upd_string u ''mqtt_topic_prefix'' (cfg_mqtt_topic_prefix c)
      in (\<not> e1 \<and> \<not> e2 \<and> \<not> e3 \<and> \<not> e4 \<and> \<not> e5 \<and> \<not> e6 \<and> \<not> e7 \<and> \<not> e8 \<and> \<not> e9 \<and> \<not> e10,
          nd\<lparr>config := \<lparr>protocol = v4, v2x_radio_address = v3, v2x_radio_listening_port = v2, listening_port = v1,
             broker_addr = v5, cfg_broker_port = v6, cfg_client_id = v7, qos_default = v8,
             cfg_reconnect_interval_sec = v9, cfg_mqtt_topic_prefix = v10\<rparr>\<rparr>))"

section \<open>The network threads\<close>

text \<open>
  What the transport's own threads do between the node's calls: an event of the UDP client's I/O
  thread, or a callback of mosquitto.
\<close>

datatype net_event =
    Udp_net udp_event
  | Mqtt_acknowledged int
  | Mqtt_disconnected int
  | Mqtt_message "mosq_message option"

fun net_step :: "world \<Rightarrow> net_event \<Rightarrow> radio \<Rightarrow> (effect list \<times> radio) res" where
  "net_step w (Udp_net e) (Udp c) = bind_res (udp_event_step w e c) (\<lambda>(acc, es, c'). Inr (es, Udp c'))"
| "net_step w (Mqtt_acknowledged rc) (Mqtt c) = (let (es, c') = handleConnect rc c in Inr (es, Mqtt c'))"
| "net_step w (Mqtt_disconnected rc) (Mqtt c) = (let (es, c') = handleDisconnect rc c in Inr (es, Mqtt c'))"
| "net_step w (Mqtt_message m) (Mqtt c) = bind_res (handleMessage w m c) (\<lambda>(es, c'). Inr (es, Mqtt c'))"
| "net_step w _ r = Inr ([], r)"

definition node_net :: "world \<Rightarrow> nat \<Rightarrow> net_event \<Rightarrow> node \<Rightarrow> (node_effect list \<times> node) res" where
  "node_net w now e nd =
     bind_res (radio_of nd) (\<lambda>r.
     bind_res (net_step w e r) (\<lambda>(es, r').
       Inr (dispatch now es (nd\<lparr>radio_client := Some r'\<rparr>))))"

end
