(* ===== verification/Mqtt_Topics.thy ===== *)
theory Mqtt_Topics
  imports Mqtt_Radio_Client Inbound_Scan
begin

text \<open>
  The outbound path of \<open>MqttRadioClient\<close>: which topic a message is published to, what is
  published, and when nothing is. The topic is characterised for every \<open>DSRCmsgID\<close>, with the
  deployed configuration loaded and with none loaded.
\<close>

section \<open>Reading the first two bytes\<close>

lemma u16_range: "0 \<le> u16 m i" "u16 m i < 65536"
  using be16_bounds [of "m ! i" "m ! (i + 1)"] by (simp_all add: u16_def)

section \<open>The topic of a PSID\<close>

definition topic_for :: "mqtt_client \<Rightarrow> int \<Rightarrow> string" where
  "topic_for c p = mqtt_topic_prefix c @ ''/req/J2735/'' @ to_string p"

lemma topic_for_inject [simp]: "topic_for c p = topic_for c q \<longleftrightarrow> p = q"
  by (simp add: topic_for_def)

lemma buildPublishTopic_override:
  "map_of kEttifosPsidOverrides s = Some v \<Longrightarrow> buildPublishTopic c s = Inr (topic_for c v)"
  by (simp add: buildPublishTopic_def topic_for_def)

lemma buildPublishTopic_hex:
  "map_of kEttifosPsidOverrides s = None \<Longrightarrow> stoi16 s = Inr v \<Longrightarrow>
   buildPublishTopic c s = Inr (topic_for c v)"
  by (simp add: buildPublishTopic_def topic_for_def)

text \<open>An identifier printed in decimal meets the override table at one key only, \<open>8010\<close>.\<close>

lemma to_string_hd_0: "0 < n \<Longrightarrow> hd (to_string n) \<noteq> CHR ''0''"
proof -
  have "hd (digits 10 m) \<noteq> 0 \<and> hd (digits 10 m) < 10" if "0 < m" for m
    using that
  proof (induction "10::nat" m rule: digits.induct)
    case (1 n)
    then show ?case
      by (cases "n < 10") (simp_all add: digits.simps [of 10 n] hd_append)
  qed
  moreover assume "0 < n"
  ultimately have "hd (digits 10 (nat n)) \<noteq> 0 \<and> hd (digits 10 (nat n)) < 10" by simp
  moreover have "digit_char d \<noteq> CHR ''0''" if "d \<noteq> 0" "d < 16" for d
    using less_16_cases [OF that(2)] that(1) by (auto simp: digit_char_def)
  ultimately show ?thesis using \<open>0 < n\<close> by (simp add: to_string_def hd_map)
qed

lemma to_string_8010: "to_string 8010 = ''8010''"
  by (simp add: to_string_def digits.simps [of 10 8010] digits.simps [of 10 801]
        digits.simps [of 10 80] digits.simps [of 10 8] digit_char_def)

lemma decimal_as_hex_18: "decimal_as_hex 18 = 24"
proof -
  have "digits 10 18 = [1, 8]"
    using digits.simps [of 10 18] digits.simps [of 10 1] by simp
  then show ?thesis by (simp add: decimal_as_hex_def digits_value_def)
qed

lemma to_string_digits_only: "0 \<le> n \<Longrightarrow> c \<in> set (to_string n) \<Longrightarrow> c \<in> set ''0123456789''"
proof -
  assume "0 \<le> n" "c \<in> set (to_string n)"
  then obtain d where d: "d \<in> set (digits 10 (nat n))" "c = digit_char d"
    by (auto simp: to_string_def)
  then have "d < 10" using digits_bound [of 10] by simp
  then have "d \<in> {0,1,2,3,4,5,6,7,8,9}" by simp arith
  with d(2) show ?thesis by (auto simp: digit_char_def)
qed

lemma override_raw:
  assumes "0 \<le> n"
  shows "map_of kEttifosPsidOverrides (to_string n) = (if n = 8010 then Some 144 else None)"
proof (cases "n = 8010")
  case True
  then show ?thesis by (simp add: to_string_8010 kEttifosPsidOverrides_def)
next
  case False
  then have "to_string n \<noteq> ''8010''"
    by (metis to_string_8010 to_string_inject)
  moreover have "to_string n \<noteq> CHR ''0'' # x # r" for x r
  proof (cases "n = 0")
    case True
    then have "to_string n = ''0''" by (simp add: to_string_def digits.simps [of 10 0] digit_char_def)
    then show ?thesis by simp
  next
    case False
    with assms to_string_hd_0 [of n] show ?thesis by auto
  qed
  moreover have "to_string n \<noteq> ''BFEE''"
    using to_string_digits_only [OF assms, of "CHR ''B''"] by auto
  ultimately show ?thesis using False by (simp add: kEttifosPsidOverrides_def)
qed

text \<open>The number a raw identifier ends up as in the topic.\<close>

definition raw_topic_number :: "int \<Rightarrow> int" where
  "raw_topic_number n = (if n = 8010 then 144 else int (decimal_as_hex (nat n)))"

lemma buildPublishTopic_raw:
  assumes "0 \<le> n" "n < 65536"
  shows "buildPublishTopic c (to_string n) = Inr (topic_for c (raw_topic_number n))"
  using assms
  by (cases "n = 8010")
    (simp_all add: raw_topic_number_def override_raw buildPublishTopic_override buildPublishTopic_hex
      stoi16_to_string)

section \<open>One publish per message\<close>

lemma mqtt_send_not_ready:
  "\<not> mqtt_connected c \<or> mosq c = None \<or> length m < 2 \<Longrightarrow> mqtt_send rc (Some m) c = Inr (False, [])"
  by (auto simp: mqtt_send_def split: option.splits)

lemma mqtt_send_ready:
  assumes "mosq c = Some h" "mqtt_connected c" "2 \<le> length m"
  shows "mqtt_send rc (Some m) c =
    bind_res (psidForDsrcMsgId c (to_string (u16 m 0))) (\<lambda>p.
    bind_res (buildPublishTopic c (if p = [] then to_string (u16 m 0) else p)) (\<lambda>t.
      Inr (rc = MOSQ_ERR_SUCCESS, [Mosq_publish h t m (qos c) False])))"
  using assms by (simp add: mqtt_send_def)

text \<open>
  For every configuration, answer of the broker library and message: when \<open>sendV2xMessage\<close>
  returns, either it returned false without calling the library (not connected, no handle, null
  or shorter than two bytes), or it published the message bytes unchanged, once, not retained, at the
  configured QoS, on a topic under \<open><prefix>/req/J2735/\<close> that ends in an \<open>int\<close>, and it returned
  true exactly when the library accepted the publish.
\<close>

lemma mqtt_send_outcome:
  assumes "mqtt_send rc msg c = Inr (b, es)"
  shows "(b = False \<and> es = [] \<and>
      (\<not> mqtt_connected c \<or> mosq c = None \<or> msg = None \<or> length (the msg) < 2)) \<or>
    (\<exists>h m p. mosq c = Some h \<and> mqtt_connected c \<and> msg = Some m \<and> 2 \<le> length m \<and>
       es = [Mosq_publish h (mqtt_topic_prefix c @ ''/req/J2735/'' @ to_string p) m (qos c) False] \<and>
       - (2 ^ 31) \<le> p \<and> p < 2 ^ 31 \<and> b = (rc = 0))"
proof (cases "\<exists>h m. mosq c = Some h \<and> mqtt_connected c \<and> msg = Some m \<and> 2 \<le> length m")
  case True
  then obtain h m where hm: "mosq c = Some h" "mqtt_connected c" "msg = Some m" "2 \<le> length m"
    by auto
  from assms obtain s t where t: "buildPublishTopic c s = Inr t"
    and es: "es = [Mosq_publish h t m (qos c) False]" "b = (rc = MOSQ_ERR_SUCCESS)"
    unfolding hm(3) mqtt_send_ready [OF hm(1,2,4)] by (auto simp: bind_res_eq_Inr)
  have "map_of kEttifosPsidOverrides s = Some v \<Longrightarrow> - (2 ^ 31) \<le> v \<and> v < 2 ^ 31" for v
    by (auto simp: kEttifosPsidOverrides_def split: if_splits)
  with t obtain p where "t = mqtt_topic_prefix c @ ''/req/J2735/'' @ to_string p"
    "- (2 ^ 31) \<le> p \<and> p < 2 ^ 31"
    by (auto simp: buildPublishTopic_def bind_res_eq_Inr dest: stoi16_range split: option.splits)
  with hm es show ?thesis by (auto simp: MOSQ_ERR_SUCCESS_def)
next
  case False
  then show ?thesis
    using assms by (auto simp: mqtt_send_def split: option.splits if_splits)
qed

section \<open>Topics under the deployed configuration\<close>

text \<open>\<open>has_deployed_ids\<close>: the identifier lists are those of \<open>etc/wave.json\<close>.\<close>

definition has_deployed_ids :: "mqtt_client \<Rightarrow> bool" where
  "has_deployed_ids c \<longleftrightarrow> wave_cfg_dsrc_msg_ids c = deployed_ids \<and> wave_cfg_psids c = deployed_psids"

definition deployed_topic_number :: "int \<Rightarrow> int" where
  "deployed_topic_number n =
     (if n = 20 then 32
      else if n = 18 \<or> n = 19 then 2113687
      else if n = 31 then 131
      else if n = 32 then 39
      else if n = 41 then 144
      else if 240 \<le> n \<and> n \<le> 243 then 16494
      else if n = 244 \<or> n = 245 then 32771
      else if n = 246 \<or> n = 247 then 32773
      else raw_topic_number n)"

lemma map_of_zip_inj:
  "inj f \<Longrightarrow> map_of (zip (map f xs) ys) (f x) = map_of (zip xs ys) x"
proof (induction xs arbitrary: ys)
  case (Cons a xs)
  then show ?case by (cases ys) (auto dest: injD)
qed simp

lemma deployed_lookup:
  "has_deployed_ids c \<Longrightarrow>
   psidForDsrcMsgId c (to_string n) =
     Inr (case map_of (zip deployed_id_numbers deployed_psids) n of None \<Rightarrow> [] | Some p \<Rightarrow> p)"
proof -
  assume c: "has_deployed_ids c"
  then have "wf_base c"
    by (simp add: has_deployed_ids_def wf_base_def deployed_ids_def deployed_psids_def)
  moreover have "psid_table c (to_string n) = map_of (zip deployed_id_numbers deployed_psids) n"
    using c by (simp add: has_deployed_ids_def psid_table_def deployed_ids_print map_of_zip_inj inj_def)
  ultimately show ?thesis by (simp add: psidForDsrcMsgId_eq)
qed

lemma deployed_psid_topics:
  "buildPublishTopic c ''0020'' = Inr (topic_for c 32)"
  "buildPublishTopic c ''0082'' = Inr (topic_for c 2113687)"
  "buildPublishTopic c ''0083'' = Inr (topic_for c 131)"
  "buildPublishTopic c ''0027'' = Inr (topic_for c 39)"
  "buildPublishTopic c ''8010'' = Inr (topic_for c 144)"
  "buildPublishTopic c ''BFEE'' = Inr (topic_for c 16494)"
  "buildPublishTopic c ''8003'' = Inr (topic_for c 32771)"
  "buildPublishTopic c ''8005'' = Inr (topic_for c 32773)"
  by (simp_all add: buildPublishTopic_override buildPublishTopic_hex kEttifosPsidOverrides_def
      stoi16_xdigits is_xdigit_def digit_val_def chars_value_def digits_value_def)

lemma interval_240: "240 \<le> n \<and> n \<le> 243 \<longleftrightarrow> n = 240 \<or> n = 241 \<or> n = 242 \<or> n = (243::int)"
  by arith

lemma deployed_topic:
  assumes "has_deployed_ids c" "0 \<le> n" "n < 65536"
  shows "bind_res (psidForDsrcMsgId c (to_string n))
      (\<lambda>p. buildPublishTopic c (if p = [] then to_string n else p)) =
    Inr (topic_for c (deployed_topic_number n))"
  unfolding deployed_lookup [OF assms(1)] deployed_topic_number_def interval_240
  using assms(2,3)
  by (simp add: deployed_id_numbers_def deployed_psids_def deployed_psid_topics buildPublishTopic_raw)

lemma mqtt_send_deployed_eq:
  assumes "has_deployed_ids c" "mosq c = Some h" "mqtt_connected c" "2 \<le> length m"
  shows "mqtt_send rc (Some m) c =
    Inr (rc = 0, [Mosq_publish h (topic_for c (deployed_topic_number (u16 m 0))) m (qos c) False])"
proof -
  have "mqtt_send rc (Some m) c =
      bind_res (bind_res (psidForDsrcMsgId c (to_string (u16 m 0)))
        (\<lambda>p. buildPublishTopic c (if p = [] then to_string (u16 m 0) else p)))
        (\<lambda>t. Inr (rc = MOSQ_ERR_SUCCESS, [Mosq_publish h t m (qos c) False]))"
    using mqtt_send_ready [OF assms(2-4)]
    by (cases "psidForDsrcMsgId c (to_string (u16 m 0))") simp_all
  also have "\<dots> = Inr (rc = 0, [Mosq_publish h (topic_for c (deployed_topic_number (u16 m 0))) m (qos c) False])"
    using assms(1) by (simp add: deployed_topic u16_range MOSQ_ERR_SUCCESS_def)
  finally show ?thesis .
qed

text \<open>A connected client with the deployed lists, for the witnesses.\<close>

definition connected_client :: "string list \<Rightarrow> string list \<Rightarrow> mqtt_client" where
  "connected_client ids psids =
     mqtt_init\<lparr>wave_cfg_dsrc_msg_ids := ids, wave_cfg_psids := psids, mosq := Some 1, mqtt_connected := True\<rparr>"

lemma connected_client_fields [simp]:
  "wave_cfg_dsrc_msg_ids (connected_client ids psids) = ids"
  "wave_cfg_psids (connected_client ids psids) = psids"
  "mosq (connected_client ids psids) = Some 1"
  "mqtt_connected (connected_client ids psids)"
  "qos (connected_client ids psids) = 0"
  "mqtt_topic_prefix (connected_client ids psids) = ''Ettifos/V2X''"
  by (simp_all add: connected_client_def mqtt_init_def)

lemma connected_client_deployed [simp]: "has_deployed_ids (connected_client deployed_ids deployed_psids)"
  by (simp add: has_deployed_ids_def)

text \<open>
  C22: with the deployed configuration and a connection, no message of two bytes or more makes
  \<open>sendV2xMessage\<close> fail, and the topic it publishes to is the one of the table
  \<open>deployed_topic_number\<close> for the number in its first two bytes: 32 for BSM, 2113687 for MAP and
  SPAT, 131 for TIM, 39 for PSM, 144 for SDSM, 16494 for the mobility messages, 32771 and 32773 for
  the traffic control and emergency vehicle messages.
\<close>

theorem mqtt_send_deployed:
  assumes "has_deployed_ids c" "mosq c = Some h" "mqtt_connected c" "2 \<le> length m"
  shows "mqtt_send rc (Some m) c =
    Inr (rc = 0, [Mosq_publish h
       (mqtt_topic_prefix c @ ''/req/J2735/'' @ to_string (deployed_topic_number (be16 (m ! 0) (m ! 1))))
       m (qos c) False])"
  using mqtt_send_deployed_eq [OF assms] by (simp add: topic_for_def u16_def)

theorem mqtt_send_deployed_witness:
  "mqtt_send 0 (Some [0, 18, 1, 9]) (connected_client deployed_ids deployed_psids) =
     Inr (True, [Mosq_publish 1 (''Ettifos/V2X/req/J2735/'' @ to_string 2113687) [0, 18, 1, 9] 0 False])"
  using mqtt_send_deployed [of "connected_client deployed_ids deployed_psids" 1 "[0, 18, 1, 9]" 0]
  by (simp add: be16_eq deployed_topic_number_def)

text \<open>
  The override meant for SPAT is never used. Under the deployed configuration no message with a
  configured identifier is published to the topic that ends in 130, since the table's key
  \<open>0082\<close> is taken by the entry before it (MAP, 2113687); SPAT messages go to MAP's topic.
\<close>

lemma spat_override_unreachable:
  assumes "has_deployed_ids c" "to_string (be16 hi lo) \<in> set deployed_ids"
    "mqtt_send rc (Some (hi # lo # p)) c = Inr (b, es)"
    "Mosq_publish h t m q r \<in> set es"
  shows "t \<noteq> mqtt_topic_prefix c @ ''/req/J2735/'' @ to_string 130 \<and>
    (be16 hi lo = 19 \<longrightarrow> t = mqtt_topic_prefix c @ ''/req/J2735/'' @ to_string 2113687)"
proof -
  have ready: "mqtt_connected c \<and> mosq c \<noteq> None"
  proof (rule ccontr)
    assume "\<not> (mqtt_connected c \<and> mosq c \<noteq> None)"
    then have "mqtt_send rc (Some (hi # lo # p)) c = Inr (False, [])"
      by (intro mqtt_send_not_ready) auto
    with assms(3,4) show False by simp
  qed
  then obtain h' where h': "mosq c = Some h'" by auto
  have t: "t = topic_for c (deployed_topic_number (be16 hi lo))"
    using mqtt_send_deployed_eq [OF assms(1) h', of "hi # lo # p" rc] ready assms(3,4)
    by (auto simp: u16_def)
  from assms(2) have "be16 hi lo \<in> set deployed_id_numbers"
    by (auto simp: deployed_ids_print)
  then have "deployed_topic_number (be16 hi lo) \<noteq> 130"
    by (auto simp: deployed_id_numbers_def deployed_topic_number_def)
  with t show ?thesis
    by (auto simp: topic_for_def deployed_topic_number_def)
qed

section \<open>Topics before the configuration is loaded\<close>

text \<open>
  C23: \<open>sendV2xMessage\<close> does not load the configuration; only the inbound scan does. As long as the
  lists are empty every message is published under its decimal identifier read as base 16 (a MAP
  under 24, a BSM under 32), except for the identifier 8010, which meets the override table.
\<close>

theorem mqtt_send_unloaded:
  assumes "wave_cfg_dsrc_msg_ids c = []" "mosq c = Some h" "mqtt_connected c" "2 \<le> length m"
  shows "mqtt_send rc (Some m) c =
    Inr (rc = 0, [Mosq_publish h
       (mqtt_topic_prefix c @ ''/req/J2735/'' @
          to_string (if be16 (m ! 0) (m ! 1) = 8010 then 144
                     else int (decimal_as_hex (nat (be16 (m ! 0) (m ! 1))))))
       m (qos c) False])"
  using assms u16_range [of m 0]
  by (simp add: mqtt_send_ready psidForDsrcMsgId_def buildPublishTopic_raw topic_for_def
      raw_topic_number_def MOSQ_ERR_SUCCESS_def u16_def)

theorem mqtt_send_unloaded_witness:
  "mqtt_send 0 (Some [0, 18, 1, 9]) (connected_client [] []) =
     Inr (True, [Mosq_publish 1 (''Ettifos/V2X/req/J2735/'' @ to_string 24) [0, 18, 1, 9] 0 False])"
  using mqtt_send_unloaded [of "connected_client [] []" 1 "[0, 18, 1, 9]" 0]
  by (simp add: be16_eq decimal_as_hex_18)

end
