(* ===== verification/Node_Properties.thy ===== *)
theory Node_Properties
  imports Driver_Node Mqtt_Topics
begin

text \<open>
  What the node guarantees: outbound messages are handed over once and never kept, the services report
  what happened, configuring builds the client the parameters ask for; and what it does not: two
  quick reconnections lose a connection, a parameter update changes the format but not the transport.
\<close>

section \<open>Effects that carry no message\<close>

lemma dispatch_no_message:
  "set (emitted es) \<subseteq> {OnConnect, OnDisconnect} \<Longrightarrow> dispatch now es nd = (map Radio es, nd)"
proof (induction es arbitrary: nd)
  case (Cons e es)
  then show ?case
  proof (cases e)
    case (Emit s)
    with Cons show ?thesis by (cases s) auto
  qed auto
qed simp

lemma dispatch_quiet: "emitted es = [] \<Longrightarrow> dispatch now es nd = (map Radio es, nd)"
  by (rule dispatch_no_message) simp

lemma radio_of_eq [simp]: "radio_client nd = Some r \<Longrightarrow> radio_of nd = Inr r"
  by (simp add: radio_of_def)

lemma radio_of_None [simp]: "radio_client nd = None \<Longrightarrow> radio_of nd = Inl Null_dereference"
  by (simp add: radio_of_def)

lemma radio_send_effects:
  "wf_radio r \<Longrightarrow> radio_send a m r = Inr (b, es, r') \<Longrightarrow> dispatch now es nd = (map Radio es, nd)"
  using node_radio.send_keeps dispatch_quiet by blast

section \<open>Outbound messages\<close>

lemma onOutboundMessage_eq:
  assumes "radio_client nd = Some r" "wf_radio r" "send_msg_queue nd = []" "radio_connected r"
    "outbound_content nd m = Inr ct" "radio_send a ct r = Inr (b, es, r')"
  shows "onOutboundMessage now a m nd = Inr (map Radio es, nd\<lparr>radio_client := Some r'\<rparr>)"
proof -
  have "nd\<lparr>send_msg_queue := [ct], radio_client := Some r', send_msg_queue := []\<rparr> = nd\<lparr>radio_client := Some r'\<rparr>"
    using assms(3) by (cases nd) simp
  then show ?thesis
    using assms radio_send_effects [OF assms(2,6)]
    by (simp add: onOutboundMessage_def sendMessageFromQueue_def radio_of_def)
qed

text \<open>
  A message from the ROS side is handed to the transport exactly once or dropped. Starting with an
  empty queue, when \<open>onOutboundMessage\<close> returns the queue is empty again; without a connection nothing at
  all happens; with one, the effects are those of a single \<open>sendV2xMessage\<close> of the content in the
  format of the protocol, and only the client's state changed. A failed send is not retried.
\<close>

lemma onOutboundMessage_once:
  assumes "radio_client nd = Some r" "wf_radio r" "send_msg_queue nd = []"
    "onOutboundMessage now a m nd = Inr (es, nd')"
  shows "send_msg_queue nd' = [] \<and>
    (if radio_connected r
     then \<exists>ct b fs r'. outbound_content nd m = Inr ct \<and> radio_send a ct r = Inr (b, fs, r') \<and>
            es = map Radio fs \<and> nd' = nd\<lparr>radio_client := Some r'\<rparr>
     else es = [] \<and> nd' = nd)"
proof (cases "radio_connected r")
  case True
  with assms(1,4) obtain ct where ct: "outbound_content nd m = Inr ct"
    by (auto simp: onOutboundMessage_def bind_res_eq_Inr)
  with True assms(1,3,4) obtain b fs r' where send: "radio_send a ct r = Inr (b, fs, r')"
    by (auto simp: onOutboundMessage_def sendMessageFromQueue_def radio_of_def bind_res_eq_Inr)
  from onOutboundMessage_eq [OF assms(1,2,3) True ct send] assms(3,4) have
    "es = map Radio fs" "nd' = nd\<lparr>radio_client := Some r'\<rparr>" by simp_all
  with True ct send assms(3) show ?thesis by auto
next
  case False
  with assms show ?thesis by (simp add: onOutboundMessage_def)
qed

definition bsm_out :: byte_array where
  "bsm_out = \<lparr>stamp = 0, frame_id = [], message_type = ''BSM'', content = [0, 20, 1, 255]\<rparr>"

definition mqtt_node :: "mqtt_client \<Rightarrow> node" where
  "mqtt_node c =
     (node_construct \<lparr>int_param = (\<lambda>k. None), string_param = (\<lambda>k. if k = ''protocol'' then Some ''mqtt'' else None)\<rparr>)
       \<lparr>wave_cfg_items := deployed_items, radio_client := Some (Mqtt c), error_slot := True, message_slot := True\<rparr>"

lemma mqtt_node_fields [simp]:
  "radio_client (mqtt_node c) = Some (Mqtt c)" "send_msg_queue (mqtt_node c) = []"
  "protocol (config (mqtt_node c)) = ''mqtt''" "wave_cfg_items (mqtt_node c) = deployed_items"
  "message_slot (mqtt_node c)" "error_slot (mqtt_node c)" "radio_client_error (mqtt_node c) = Success"
  "conn_thread (mqtt_node c) = No_thread_object" "\<not> connecting (mqtt_node c)" "lib_refs (mqtt_node c) = 0"
  by (simp_all add: mqtt_node_def node_construct_def read_config_def get_or_def)

lemma mqtt_node_set [simp]: "(mqtt_node c)\<lparr>radio_client := Some (Mqtt d)\<rparr> = mqtt_node d"
  by (simp add: mqtt_node_def)

lemma wf_mqtt_connected_client [simp]: "wf_mqtt (connected_client ids psids)"
  by (simp add: wf_mqtt_def)

lemma send_bsm_out:
  "mqtt_send rc (Some [0, 20, 1, 255]) (connected_client deployed_ids deployed_psids) =
     Inr (rc = 0, [Mosq_publish 1 (''Ettifos/V2X/req/J2735/'' @ to_string 32) [0, 20, 1, 255] 0 False])"
  using mqtt_send_deployed_eq [of "connected_client deployed_ids deployed_psids" 1 "[0, 20, 1, 255]" rc]
  by (simp add: u16_def be16_eq deployed_topic_number_def topic_for_def)

definition any_answers :: send_answers where
  "any_answers = \<lparr>post_answer = Value (), publish_rc = 0\<rparr>"

lemma outbound_bsm:
  "onOutboundMessage now any_answers bsm_out (mqtt_node (connected_client deployed_ids deployed_psids)) =
     Inr ([Radio (Mosq_publish 1 (''Ettifos/V2X/req/J2735/'' @ to_string 32) [0, 20, 1, 255] 0 False)],
          mqtt_node (connected_client deployed_ids deployed_psids))"
  using onOutboundMessage_eq [of "mqtt_node (connected_client deployed_ids deployed_psids)"
      "Mqtt (connected_client deployed_ids deployed_psids)" bsm_out "[0, 20, 1, 255]" any_answers True _ _ now]
  by (simp add: outbound_content_def bsm_out_def mqtt_sendf_def send_bsm_out any_answers_def)

text \<open>
  The send service reports what happened. When it returns, its status is 0 exactly when the client is
  connected and its \<open>sendV2xMessage\<close> returned true; the queue of outbound messages is not used.
\<close>

lemma sendMessageSrv_status:
  assumes "radio_client nd = Some r" "wf_radio r" "sendMessageSrv now a m nd = Inr (status, es, nd')"
  shows "(status = 0 \<longleftrightarrow> radio_connected r \<and>
      (\<exists>ct fs r'. outbound_content nd m = Inr ct \<and> radio_send a ct r = Inr (True, fs, r') \<and> es = map Radio fs)) \<and>
    (status = 0 \<or> status = 1) \<and> send_msg_queue nd' = send_msg_queue nd"
proof (cases "radio_connected r")
  case True
  with assms(1,3) obtain ct where ct: "outbound_content nd m = Inr ct"
    by (auto simp: sendMessageSrv_def bind_res_eq_Inr)
  with True assms(1,3) obtain b fs r' where send: "radio_send a ct r = Inr (b, fs, r')"
    by (auto simp: sendMessageSrv_def bind_res_eq_Inr)
  have "sendMessageSrv now a m nd = Inr (if b then 0 else 1, map Radio fs, nd\<lparr>radio_client := Some r'\<rparr>)"
    using True assms(1) ct send radio_send_effects [OF assms(2) send]
    by (simp add: sendMessageSrv_def)
  with assms(3) True ct send show ?thesis by (cases b) auto
qed (use assms in \<open>auto simp: sendMessageSrv_def\<close>)

section \<open>Configuring\<close>

text \<open>The client the parameters ask for, before it connects.\<close>

definition fresh_radio :: "config \<Rightarrow> string \<Rightarrow> radio" where
  "fresh_radio c path =
     (if protocol c = ''mqtt''
      then Mqtt (set_wave_file_path path (setMqttConfig (cfg_client_id c) (qos_default c)
             (cfg_reconnect_interval_sec c) (cfg_mqtt_topic_prefix c) mqtt_init))
      else Udp (set_wave_file_path path udp_init))"

definition configured :: "params \<Rightarrow> params \<Rightarrow> wave_item list \<Rightarrow> string \<Rightarrow> node" where
  "configured p0 p items path =
     (node_construct p0)
       \<lparr>config := read_config p default_config, connecting := True, conn_thread := Pending,
        wave_cfg_items := items, radio_client := Some (fresh_radio (read_config p default_config) path),
        error_slot := True, message_slot := True,
        lib_refs := (if protocol (read_config p default_config) = ''mqtt'' then 1 else 0)\<rparr>"

lemma is_error_Success [simp]: "\<not> is_error Success"
  by (simp add: is_error_def)

lemma configure_eq:
  assumes "validator_sound w wave_schema_items"
  shows "handle_on_configure w now a sa p (Some d) (node_construct p0) =
    Inr (if protocol (read_config p default_config) = ''mqtt'' then [Radio Mosq_lib_init] else [],
      configured p0 p (map entry_item (accepted_entries w wave_schema_items (d @ ''/etc/wave.json'')))
        (d @ ''/etc/wave.json''))"
proof (cases "protocol (read_config p default_config) = ''mqtt''")
  case True
  then show ?thesis
    using assms
    by (simp add: handle_on_configure_def createRadioClient_def new_radio_def mqtt_construct_def radio_destruct_def
        node_construct_def pre_spin_def radio_of_def join_thread_def loadWaveConfig_eq
        sendMessageFromQueue_def configured_def fresh_radio_def)
next
  case False
  then show ?thesis
    using assms
    by (simp add: handle_on_configure_def createRadioClient_def new_radio_def radio_destruct_def
        node_construct_def pre_spin_def radio_of_def join_thread_def loadWaveConfig_eq
        sendMessageFromQueue_def configured_def fresh_radio_def)
qed

text \<open>
  C37: configuring a new node succeeds for all parameters and all wave files. The configuration is that
  of the parameters over the defaults; the client is the MQTT client exactly for the protocol \<open>mqtt\<close>,
  with its four settings, and the UDP client for every other text; it is not connected yet, its
  connection thread is started, it has the path of the wave file; the node has the entries of the
  accepted file; nothing but the library's initialisation was called.
\<close>

theorem handle_on_configure_contract:
  assumes "validator_sound w wave_schema_items" "cfg = read_config p default_config"
    "path = d @ ''/etc/wave.json''"
  shows "\<exists>es nd r. handle_on_configure w now a sa p (Some d) (node_construct p0) = Inr (es, nd) \<and>
    config nd = cfg \<and> radio_client nd = Some r \<and> \<not> radio_connected r \<and> wf_radio r \<and>
    conn_thread nd = Pending \<and> connecting nd \<and> send_msg_queue nd = [] \<and> message_slot nd \<and>
    wave_cfg_items nd = map entry_item (accepted_entries w wave_schema_items path) \<and>
    (if protocol cfg = ''mqtt''
     then es = [Radio Mosq_lib_init] \<and>
       (\<exists>c. r = Mqtt c \<and> mosq c = None \<and> client_id c = cfg_client_id cfg \<and> qos c = qos_default cfg \<and>
            reconnect_interval_sec c = cfg_reconnect_interval_sec cfg \<and>
            mqtt_topic_prefix c = cfg_mqtt_topic_prefix cfg \<and> wave_file_path c = path)
     else es = [] \<and> (\<exists>c. r = Udp c \<and> wave_file_path c = path))"
proof -
  have wf: "wf_mqtt (set_wave_file_path path (setMqttConfig i q t x mqtt_init))"
    "wf_udp (set_wave_file_path path udp_init)" for i q t x
    by (simp_all add: wf_mqtt_def)
  show ?thesis
    using configure_eq [OF assms(1), of now a sa p d p0] wf assms(2,3)
    by (auto simp: configured_def fresh_radio_def node_construct_def setMqttConfig_def
        set_wave_file_path_def mqtt_init_def udp_init_def)
qed

definition mqtt_params :: params where
  "mqtt_params = \<lparr>int_param = (\<lambda>k. None), string_param = (\<lambda>k. if k = ''protocol'' then Some ''mqtt'' else None)\<rparr>"

definition no_answers :: connect_answers where
  "no_answers = \<lparr>udp_side = ok_udp, io_id = 1, mqtt_side = ok_answers 1\<rparr>"

lemma mqtt_params_config [simp]:
  "protocol (read_config mqtt_params default_config) = ''mqtt''"
  "cfg_mqtt_topic_prefix (read_config mqtt_params default_config) = ''Ettifos/V2X''"
  by (simp_all add: read_config_def mqtt_params_def get_or_def default_config_def)

theorem handle_on_configure_contract_witness:
  "\<exists>es nd c. handle_on_configure (deployed_world ''/opt/etc/wave.json'') 0 no_answers any_answers mqtt_params
      (Some ''/opt'') (node_construct mqtt_params) = Inr (es, nd) \<and>
    radio_client nd = Some (Mqtt c) \<and> mqtt_topic_prefix c = ''Ettifos/V2X'' \<and>
    wave_file_path c = ''/opt/etc/wave.json''"
  using handle_on_configure_contract [of "deployed_world ''/opt/etc/wave.json''" _ mqtt_params _ "''/opt''" 0
      no_answers any_answers mqtt_params, OF deployed_world_sound refl refl]
  by auto

section \<open>Bringing up the MQTT connection\<close>

fun radio_calls :: "node_effect list \<Rightarrow> effect list" where
  "radio_calls [] = []"
| "radio_calls (Radio e # es) = e # radio_calls es"
| "radio_calls (Published m # es) = radio_calls es"

lemma radio_calls_append [simp]: "radio_calls (xs @ ys) = radio_calls xs @ radio_calls ys"
  by (induction xs rule: radio_calls.induct) simp_all

lemma radio_calls_Radio [simp]: "radio_calls (map Radio es) = es"
  by (induction es) simp_all

definition mosq_side :: "nat \<Rightarrow> connect_answers" where
  "mosq_side h = \<lparr>udp_side = ok_udp, io_id = 1, mqtt_side = ok_answers h\<rparr>"

text \<open>The calls of a successful \<open>connect\<close>.\<close>

definition connect_calls :: "nat \<Rightarrow> string \<Rightarrow> 16 word \<Rightarrow> mqtt_client \<Rightarrow> effect list" where
  "connect_calls h ra rp c =
     [Mosq_new (if client_id c = [] then None else Some (client_id c)) (Some h), Mosq_set_callbacks h,
      Mosq_reconnect_delay_set h (word_of_int (reconnect_interval_sec c)) (word_of_int (reconnect_interval_sec c * 10)),
      Mosq_loop_start h, Mosq_connect h ra (uint rp) 60]"

lemma mqtt_connect_calls:
  assumes "\<not> mqtt_connected c" "int_range (reconnect_interval_sec c * 10)"
  shows "mqtt_connect (ok_answers h) ra rp lp ec c =
    Inr (Returned True, Success, connect_calls h ra rp c,
         c\<lparr>broker_address := ra, broker_port := uint rp, mosq := Some h\<rparr>)"
  using assms by (simp add: mqtt_connect_def ok_answers_def MOSQ_ERR_SUCCESS_def connect_calls_def Let_def)

lemma connect_calls_quiet [simp]: "emitted (connect_calls h ra rp c) = []"
  by (simp add: connect_calls_def)

lemma connect_body_mqtt:
  assumes "radio_client nd = Some (Mqtt c)" "protocol (config nd) = ''mqtt''" "\<not> mqtt_connected c"
    "int_range (reconnect_interval_sec c * 10)"
  shows "connect_body now (mosq_side h) nd =
    Inr (map Radio (connect_calls h (broker_addr (config nd)) (to_ushort (cfg_broker_port (config nd))) c),
      nd\<lparr>radio_client := Some (Mqtt (c\<lparr>broker_address := broker_addr (config nd),
           broker_port := uint (to_ushort (cfg_broker_port (config nd))), mosq := Some h\<rparr>)),
         connecting := False, conn_thread := Done\<rparr>)"
  using assms mqtt_connect_calls [OF assms(3,4)]
  by (simp add: connect_body_def mosq_side_def dispatch_quiet)

text \<open>
  C38: a node configured for MQTT gets connected. After its connection thread ran with a library that
  answers success, and the broker acknowledged, the client is connected and the status service says so;
  the broker was called at the configured address and at the configured port modulo 65536, and the
  only subscription is to \<open><prefix>/ind/J2735/#\<close> at the configured QoS.
\<close>

theorem mqtt_bring_up:
  assumes "validator_sound w wave_schema_items" "cfg = read_config p default_config"
    "protocol cfg = ''mqtt''" "int_range (cfg_reconnect_interval_sec cfg * 10)"
  shows "\<exists>es1 nd1 es2 nd2 es3 nd3.
    handle_on_configure w now a sa p (Some d) (node_construct p0) = Inr (es1, nd1) \<and>
    connect_body now (mosq_side h) nd1 = Inr (es2, nd2) \<and>
    node_net w now (Mqtt_acknowledged 0) nd2 = Inr (es3, nd3) \<and>
    getStatusSrv msg nd3 = Inr (True, ''protocol=mqtt, connected=true'') \<and>
    Radio (Mosq_connect h (broker_addr cfg) (cfg_broker_port cfg mod 65536) 60) \<in> set es2 \<and>
    es3 = [Radio (Mosq_subscribe (Some h) (cfg_mqtt_topic_prefix cfg @ ''/ind/J2735/#'') (qos_default cfg)),
           Radio (Emit OnConnect)]"
proof -
  let ?path = "d @ ''/etc/wave.json''"
  let ?nd1 = "configured p0 p (map entry_item (accepted_entries w wave_schema_items ?path)) ?path"
  let ?c1 = "set_wave_file_path ?path (setMqttConfig (cfg_client_id cfg) (qos_default cfg)
      (cfg_reconnect_interval_sec cfg) (cfg_mqtt_topic_prefix cfg) mqtt_init)"
  let ?c2 = "?c1\<lparr>broker_address := broker_addr cfg,
      broker_port := uint (to_ushort (cfg_broker_port cfg)), mosq := Some h\<rparr>"
  let ?nd2 = "?nd1\<lparr>radio_client := Some (Mqtt ?c2), connecting := False, conn_thread := Done\<rparr>"
  let ?c3 = "?c2\<lparr>mqtt_connected := True\<rparr>"
  have nd1: "radio_client ?nd1 = Some (Mqtt ?c1)" "config ?nd1 = cfg" "radio_client_error ?nd1 = Success"
    using assms(2,3) by (simp_all add: configured_def fresh_radio_def node_construct_def)
  have c1: "reconnect_interval_sec ?c1 = cfg_reconnect_interval_sec cfg" "qos ?c1 = qos_default cfg"
    "mqtt_topic_prefix ?c1 = cfg_mqtt_topic_prefix cfg" "\<not> mqtt_connected ?c1"
    by (simp_all add: set_wave_file_path_def setMqttConfig_def mqtt_init_def)
  have body: "connect_body now (mosq_side h) ?nd1 =
      Inr (map Radio (connect_calls h (broker_addr cfg) (to_ushort (cfg_broker_port cfg)) ?c1), ?nd2)"
    using connect_body_mqtt [OF nd1(1)] nd1(2) assms(3,4) c1 by simp
  have "node_net w now (Mqtt_acknowledged 0) ?nd2 =
      Inr ([Radio (Mosq_subscribe (Some h) (cfg_mqtt_topic_prefix cfg @ ''/ind/J2735/#'') (qos_default cfg)),
            Radio (Emit OnConnect)], ?nd2\<lparr>radio_client := Some (Mqtt ?c3)\<rparr>)"
    using c1 by (simp add: node_net_def radio_of_def handleConnect_def subscribeToTopics_def
        buildSubscribeTopic_def Let_def)
  moreover have "getStatusSrv msg (?nd2\<lparr>radio_client := Some (Mqtt ?c3)\<rparr>) =
      Inr (True, ''protocol=mqtt, connected=true'')"
    using nd1 assms(3) by (simp add: getStatusSrv_def radio_of_def)
  moreover have "Radio (Mosq_connect h (broker_addr cfg) (cfg_broker_port cfg mod 65536) 60) \<in>
      set (map Radio (connect_calls h (broker_addr cfg) (to_ushort (cfg_broker_port cfg)) ?c1))"
    by (simp add: connect_calls_def uint_to_ushort)
  moreover note configure_eq [OF assms(1), of now a sa p d p0] body
  ultimately show ?thesis by blast
qed

theorem mqtt_bring_up_witness:
  "\<exists>es1 nd1 es2 nd2 es3 nd3.
    handle_on_configure (deployed_world ''/opt/etc/wave.json'') 0 no_answers any_answers mqtt_params
      (Some ''/opt'') (node_construct mqtt_params) = Inr (es1, nd1) \<and>
    connect_body 0 (mosq_side 5) nd1 = Inr (es2, nd2) \<and>
    node_net (deployed_world ''/opt/etc/wave.json'') 0 (Mqtt_acknowledged 0) nd2 = Inr (es3, nd3) \<and>
    getStatusSrv (\<lambda>e. []) nd3 = Inr (True, ''protocol=mqtt, connected=true'')"
proof -
  have "int_range (cfg_reconnect_interval_sec (read_config mqtt_params default_config) * 10)"
    by (simp add: read_config_def mqtt_params_def get_or_def default_config_def int_range_def)
  from mqtt_bring_up [OF deployed_world_sound refl mqtt_params_config(1) this,
      of "''/opt/etc/wave.json''" 0 no_answers any_answers "''/opt''" mqtt_params 5 "\<lambda>e. []"]
  show ?thesis by blast
qed

section \<open>Two quick reconnections\<close>

lemma reconnect_idle:
  assumes "radio_client nd = Some (Mqtt c)" "mosq c = None" "\<not> mqtt_connected c"
  shows "reconnectSrv now a nd =
    bind_res (join_thread now a (nd\<lparr>radio_client_error := Success, connecting := True\<rparr>)) (\<lambda>(fs, nd2).
      Inr ((True, ''Reconnect initiated for protocol: '' @ protocol (config nd2)), fs, nd2\<lparr>conn_thread := Pending\<rparr>))"
proof -
  have "nd\<lparr>radio_client := Some (Mqtt c)\<rparr> = nd" using assms(1) by (cases nd) simp
  then have "close_radio now nd = Inr ([], nd)"
    using assms by (simp add: close_radio_def mqtt_cls_def mqtt_close_def)
  then show ?thesis
    using assms
    by (cases "join_thread now a (nd\<lparr>radio_client_error := Success, connecting := True\<rparr>)")
      (simp_all add: reconnectSrv_def pre_spin_def radio_of_def case_prod_beta)
qed

text \<open>
  C32: two calls of the reconnect service in a row lose a connection. On a node whose MQTT client holds no
  handle, when the second call comes before the first one's connection thread ran: the second call waits
  for that thread, which connects with handle \<open>h1\<close>, and starts another, which connects with \<open>h2\<close>, since
  \<open>connected\<close> is false until the broker acknowledges. Both handles exist then, the client knows only
  \<open>h2\<close>, and no later call or callback on the client destroys \<open>h1\<close>, nor does the client's destructor: its
  callbacks keep a pointer to a client that is gone.
\<close>

theorem reconnect_twice_leaks:
  assumes "radio_client nd = Some (Mqtt c)" "mosq c = None" "\<not> mqtt_connected c"
    "protocol (config nd) = ''mqtt''" "int_range (reconnect_interval_sec c * 10)"
    "conn_thread nd \<noteq> Pending" "h1 \<noteq> h2"
  shows "\<exists>r1 es1 nd1 r2 es2 nd2 es3 nd3 c3.
    reconnectSrv now a nd = Inr (r1, es1, nd1) \<and>
    reconnectSrv now (mosq_side h1) nd1 = Inr (r2, es2, nd2) \<and>
    connect_body now (mosq_side h2) nd2 = Inr (es3, nd3) \<and>
    radio_client nd3 = Some (Mqtt c3) \<and> mosq c3 = Some h2 \<and>
    live_after (radio_calls (es1 @ es2 @ es3)) {} = {h1, h2} \<and>
    (\<forall>w es c' L. mqtt_run False w (c3, {h1, h2}) es (c', L) \<longrightarrow>
       h1 \<in> L \<and> (\<forall>n. h1 \<in> live_after (fst (mqtt_destruct n c')) L))"
proof -
  let ?ra = "broker_addr (config nd)" and ?rp = "to_ushort (cfg_broker_port (config nd))"
  let ?nd0 = "nd\<lparr>radio_client_error := Success, connecting := True\<rparr>"
  let ?nd1 = "?nd0\<lparr>conn_thread := Pending\<rparr>"
  let ?c2 = "c\<lparr>broker_address := ?ra, broker_port := uint ?rp, mosq := Some h1\<rparr>"
  let ?nd2 = "?nd1\<lparr>radio_client := Some (Mqtt ?c2), connecting := False, conn_thread := Done,
      conn_thread := Pending\<rparr>"
  let ?c3 = "?c2\<lparr>broker_address := ?ra, broker_port := uint ?rp, mosq := Some h2\<rparr>"
  have "join_thread now a ?nd0 = Inr ([], ?nd0)"
    using assms(6) by (cases "conn_thread nd") (simp_all add: join_thread_def)
  then have one: "reconnectSrv now a nd =
      Inr ((True, ''Reconnect initiated for protocol: '' @ protocol (config nd)), [], ?nd1)"
    using reconnect_idle [OF assms(1-3), of now a] by simp
  have body: "connect_body now (mosq_side h1) ?nd1 = Inr (map Radio (connect_calls h1 ?ra ?rp c),
      ?nd1\<lparr>radio_client := Some (Mqtt ?c2), connecting := False, conn_thread := Done\<rparr>)"
    using connect_body_mqtt [of ?nd1 c now h1] assms by simp
  have again: "?nd1\<lparr>radio_client_error := Success, connecting := True\<rparr> = ?nd1" by simp
  have "join_thread now (mosq_side h1) ?nd1 = connect_body now (mosq_side h1) ?nd1"
    by (simp add: join_thread_def)
  with reconnect_idle [of ?nd1 c now "mosq_side h1", unfolded again] assms(1-3) body
  have two: "reconnectSrv now (mosq_side h1) ?nd1 =
      Inr ((True, ''Reconnect initiated for protocol: '' @ protocol (config nd)),
        map Radio (connect_calls h1 ?ra ?rp c), ?nd2)"
    by simp
  have "radio_client ?nd2 = Some (Mqtt ?c2)" by simp
  from connect_body_mqtt [OF this, of now h2] assms(3,4,5)
  obtain es3 nd3 where three: "connect_body now (mosq_side h2) ?nd2 = Inr (es3, nd3)"
    "es3 = map Radio (connect_calls h2 ?ra ?rp ?c2)" "radio_client nd3 = Some (Mqtt ?c3)"
    by auto
  have "live_after (radio_calls ([] @ map Radio (connect_calls h1 ?ra ?rp c) @ es3)) {} = {h1, h2}"
    unfolding three(2) by (auto simp: connect_calls_def)
  moreover have "h1 \<in> L \<and> (\<forall>n. h1 \<in> live_after (fst (mqtt_destruct n c')) L)"
    if "mqtt_run False w (?c3, {h1, h2}) es (c', L)" for w es c' L
  proof -
    from mqtt_orphan_forever [OF that, of h1] assms(7) have "h1 \<in> L" "mosq c' \<noteq> Some h1" by simp_all
    then show ?thesis by (cases "mosq c'") (auto simp: mqtt_destruct_def mqtt_close_def)
  qed
  moreover have "mosq ?c3 = Some h2" by simp
  ultimately show ?thesis using one two three(1,3) by blast
qed

theorem reconnect_twice_leaks_witness:
  "\<exists>r1 es1 nd1 r2 es2 nd2 es3 nd3 c3.
    reconnectSrv 0 (mosq_side 9) (mqtt_node mqtt_init) = Inr (r1, es1, nd1) \<and>
    reconnectSrv 0 (mosq_side 1) nd1 = Inr (r2, es2, nd2) \<and>
    connect_body 0 (mosq_side 2) nd2 = Inr (es3, nd3) \<and>
    radio_client nd3 = Some (Mqtt c3) \<and> mosq c3 = Some 2 \<and>
    live_after (radio_calls (es1 @ es2 @ es3)) {} = {1, 2}"
proof -
  have range: "int_range (reconnect_interval_sec mqtt_init * 10)" by (simp add: int_range_def)
  have idle: "conn_thread (mqtt_node mqtt_init) \<noteq> Pending" by simp
  have "(1::nat) \<noteq> 2" by simp
  from reconnect_twice_leaks [OF mqtt_node_fields(1) mqtt_init_fields(1,2) mqtt_node_fields(3) range idle this,
      of 0 "mosq_side 9"]
  show ?thesis by (elim exE conjE) (intro exI conjI; assumption)
qed

section \<open>Changing the protocol at run time\<close>

text \<open>
  C40: a parameter update can set the protocol to \<open>mqtt\<close> on a node that runs the UDP client. The update is
  reported as successful and does not touch the client, so from then on messages leave over UDP as
  raw content, without the WAVE text the radio expects.
\<close>

theorem protocol_update_mismatch:
  assumes "radio_client nd = Some (Udp c)" "wf_udp c" "udp_running c" "send_msg_queue nd = []"
    "upd_string u ''protocol'' (protocol (config nd)) = (False, ''mqtt'')"
    "\<forall>k v. k \<noteq> ''protocol'' \<longrightarrow> upd_string u k v = (False, v)" "\<forall>k v. upd_int u k v = (False, v)"
  shows "\<exists>nd1 nd2. parameter_update_callback u nd = (True, nd1) \<and> radio_client nd1 = Some (Udp c) \<and>
    onOutboundMessage now any_answers m nd1 = Inr ([], nd2) \<and>
    radio_client nd2 = Some (Udp (c\<lparr>io_tasks := io_tasks c @ [Transmit (content m)]\<rparr>))"
proof -
  let ?nd1 = "nd\<lparr>config := (config nd)\<lparr>protocol := ''mqtt''\<rparr>\<rparr>"
  have upd: "parameter_update_callback u nd = (True, ?nd1)"
    using assms(5,6,7) by (simp add: parameter_update_callback_def Let_def)
  have "radio_send any_answers (content m) (Udp c) =
      Inr (True, [], Udp (c\<lparr>io_tasks := io_tasks c @ [Transmit (content m)]\<rparr>))"
    using assms(2,3) by (simp add: udp_sendf_def udp_send_total any_answers_def)
  with onOutboundMessage_eq [of ?nd1 "Udp c" m "content m" any_answers True _ _ now] assms(1-4)
  have "onOutboundMessage now any_answers m ?nd1 =
      Inr ([], ?nd1\<lparr>radio_client := Some (Udp (c\<lparr>io_tasks := io_tasks c @ [Transmit (content m)]\<rparr>))\<rparr>)"
    by (simp add: outbound_content_def)
  with upd assms(1) show ?thesis by auto
qed

definition udp_node :: "udp_client \<Rightarrow> node" where
  "udp_node c =
     (node_construct \<lparr>int_param = (\<lambda>k. None), string_param = (\<lambda>k. None)\<rparr>)
       \<lparr>wave_cfg_items := deployed_items, radio_client := Some (Udp c), error_slot := True, message_slot := True\<rparr>"

lemma udp_node_fields [simp]:
  "radio_client (udp_node c) = Some (Udp c)" "send_msg_queue (udp_node c) = []"
  "protocol (config (udp_node c)) = ''udp''" "wave_cfg_items (udp_node c) = deployed_items"
  "message_slot (udp_node c)" "error_slot (udp_node c)"
  by (simp_all add: udp_node_def node_construct_def read_config_def get_or_def default_config_def)

definition set_protocol :: updater where
  "set_protocol = \<lparr>upd_int = (\<lambda>k v. (False, v)),
     upd_string = (\<lambda>k v. (False, if k = ''protocol'' then ''mqtt'' else v))\<rparr>"

theorem protocol_update_mismatch_witness:
  "\<exists>nd1 nd2. parameter_update_callback set_protocol (udp_node (up_client udp_init 1)) = (True, nd1) \<and>
    onOutboundMessage 0 any_answers bsm_out nd1 = Inr ([], nd2) \<and>
    (\<exists>c. radio_client nd2 = Some (Udp c) \<and> io_tasks c = [Transmit [0, 20, 1, 255]])"
proof -
  have "upd_string set_protocol ''protocol'' (protocol (config (udp_node (up_client udp_init 1)))) = (False, ''mqtt'')"
    "\<forall>k v. k \<noteq> ''protocol'' \<longrightarrow> upd_string set_protocol k v = (False, v)"
    "\<forall>k v. upd_int set_protocol k v = (False, v)"
    by (simp_all add: set_protocol_def)
  from protocol_update_mismatch [OF udp_node_fields(1) up_init_wf up_client_running udp_node_fields(2) this, of 0 bsm_out]
  show ?thesis by (auto simp: bsm_out_def)
qed

end
