(* ===== verification/Transport_Equivalence.thy ===== *)
theory Transport_Equivalence
  imports Node_Properties Base_Frame
begin

text \<open>
  The two transports handle what they receive alike: a payload in a broker message and the same bytes in
  a datagram lead to the same signals, the same ROS messages and the same loaded configuration.
\<close>

section \<open>A run seen from outside\<close>

text \<open>The effects and the base part of the client, or the failure.\<close>

definition observed :: "(effect list \<times> 'a base_client_scheme) res \<Rightarrow> (effect list \<times> base_client) res" where
  "observed r = bind_res r (\<lambda>(es, c). Inr (es, base_part c))"

lemma observed_simps [simp]: "observed (Inl f) = Inl f" "observed (Inr (es, c)) = Inr (es, base_part c)"
  by (simp_all add: observed_def)

text \<open>What \<open>process\<close> does to a base part.\<close>

definition heard :: "world \<Rightarrow> bytes \<Rightarrow> base_client \<Rightarrow> (effect list \<times> base_client) res" where
  "heard w d b = bind_res (process w d b) (\<lambda>(rs, b'). Inr (map Emit (message_signals rs), b'))"

lemma base_part_tasks [simp]: "base_part (c\<lparr>io_tasks := ts\<rparr>) = base_part c"
  by (cases c) (simp add: base_part_defs)

lemma io_turn_heard:
  assumes "io_tasks c = Deliver d # ts"
  shows "observed (io_turn w r c) = heard w d (base_part c)"
  using assms
  by (cases "process w d (base_part c)")
    (auto simp: io_turn_def heard_def process_base [of w d "c\<lparr>io_tasks := ts\<rparr>"])

lemma handleMessage_heard:
  assumes "payload m = Some buf" "0 \<le> payloadlen m" "payloadlen m \<le> int (length buf)"
  shows "observed (handleMessage w (Some m) c) = heard w (take (nat (payloadlen m)) buf) (base_part c)"
proof (cases "payloadlen m = 0")
  case True
  then show ?thesis using assms(1) by (simp add: handleMessage_def heard_def process_def message_signals_def)
next
  case False
  then show ?thesis using assms
    by (cases "process w (take (nat (payloadlen m)) buf) (base_part c)")
      (auto simp: handleMessage_def heard_def process_base [of w _ c])
qed

text \<open>The node's slots see the signals, its entries and whether they are connected, not the client.\<close>

lemma dispatch_alike:
  "wave_cfg_items nd' = wave_cfg_items nd \<Longrightarrow> message_slot nd' = message_slot nd \<Longrightarrow>
   fst (dispatch now es nd') = fst (dispatch now es nd)"
proof (induction es arbitrary: nd nd')
  case (Cons e es)
  note rest = Cons.IH [of nd' nd, OF Cons.prems]
  have slots: "fst (run_slots now s nd') = fst (run_slots now s nd)" for s
    using Cons.prems by (cases s) (simp_all add: onMessageReceivedHandler_def)
  have after: "fst (dispatch now es (snd (run_slots now s nd'))) = fst (dispatch now es (snd (run_slots now s nd)))" for s
    using Cons.prems by (intro Cons.IH; cases s) simp_all
  from rest slots after show ?case by (cases e) (simp_all add: case_prod_beta)
qed simp

definition node_observed :: "(node_effect list \<times> node) res \<Rightarrow> (node_effect list \<times> base_client option) res" where
  "node_observed r = bind_res r (\<lambda>(es, nd). Inr (es,
     case radio_client nd of None \<Rightarrow> None | Some (Udp c) \<Rightarrow> Some (base_part c) | Some (Mqtt c) \<Rightarrow> Some (base_part c)))"

lemma dispatch_client: "radio_client (snd (dispatch now es nd)) = radio_client nd"
proof (induction es arbitrary: nd)
  case (Cons e es)
  then show ?case
  proof (cases e)
    case (Emit s)
    with Cons show ?thesis by (cases s) (simp_all add: case_prod_beta)
  qed (simp_all add: case_prod_beta)
qed simp

text \<open>
  C11: the transport does not matter for what the node makes of a message. Two nodes with the same wave entries and
  slots, one with a running UDP client whose oldest handler delivers a datagram, one with an MQTT client
  in any state that gets the same bytes as a payload, and the same lists and file path in both: they publish the
  same ROS messages at the same time, load the same configuration, and one fails exactly when and how the other does.
\<close>

theorem transport_independent:
  assumes "radio_client nd = Some (Udp c)" "udp_running c" "io_tasks c = Deliver d # ts"
    "radio_client nd' = Some (Mqtt c')" "base_part c' = base_part c"
    "payload m = Some (d @ rest)" "payloadlen m = int (length d)"
    "wave_cfg_items nd' = wave_cfg_items nd" "message_slot nd' = message_slot nd"
  shows "node_observed (node_net w now (Udp_net (Ev_turn r)) nd) = node_observed (node_net w now (Mqtt_message (Some m)) nd')"
proof -
  have udp: "observed (io_turn w r c) = heard w d (base_part c)" using assms(3) by (rule io_turn_heard)
  have mqtt: "observed (handleMessage w (Some m) c') = heard w d (base_part c)"
    using handleMessage_heard [of m "d @ rest" w c'] assms(5-7) by simp
  show ?thesis
  proof (cases "heard w d (base_part c)")
    case (Inl f)
    with udp mqtt have "io_turn w r c = Inl f" "handleMessage w (Some m) c' = Inl f"
      by (auto simp: observed_def bind_res_eq_Inl)
    with assms show ?thesis by (simp add: node_net_def node_observed_def)
  next
    case (Inr x)
    with udp mqtt obtain es c1 c2 where run: "io_turn w r c = Inr (es, c1)" "handleMessage w (Some m) c' = Inr (es, c2)"
      and same: "base_part c1 = base_part c2"
      by (auto simp: observed_def bind_res_eq_Inr)
    let ?nd = "nd\<lparr>radio_client := Some (Udp c1)\<rparr>" and ?nd' = "nd'\<lparr>radio_client := Some (Mqtt c2)\<rparr>"
    have "fst (dispatch now es ?nd') = fst (dispatch now es ?nd)"
      using assms(8,9) by (intro dispatch_alike) simp_all
    moreover have "radio_client (snd (dispatch now es ?nd)) = Some (Udp c1)"
      "radio_client (snd (dispatch now es ?nd')) = Some (Mqtt c2)"
      by (simp_all add: dispatch_client)
    ultimately show ?thesis using assms(1,2,4) run same
      by (cases "dispatch now es ?nd"; cases "dispatch now es ?nd'") (simp add: node_net_def node_observed_def)
  qed
qed

definition delivering :: "bytes \<Rightarrow> udp_client" where
  "delivering d = (up_client udp_init 1)\<lparr>wave_cfg_dsrc_msg_ids := deployed_ids, wave_cfg_psids := deployed_psids,
     io_tasks := [Deliver d]\<rparr>"

lemma delivering_fields [simp]:
  "udp_running (delivering d)" "io_tasks (delivering d) = [Deliver d]"
  "wave_cfg_dsrc_msg_ids (delivering d) = deployed_ids" "wave_cfg_psids (delivering d) = deployed_psids"
  "base_part (connected_client deployed_ids deployed_psids) = base_part (delivering d)"
  by (simp_all add: delivering_def up_client_def base_part_defs connected_client_def mqtt_init_def
      started_client_def reset_client_def udp_init_def)

text \<open>The same MAP message with one byte behind it in the broker's buffer: both nodes publish it.\<close>

theorem transport_independent_witness:
  "\<exists>b nd'. node_net (deployed_world ''w'') 7 (Mqtt_message (Some \<lparr>msg_topic = [], payload = Some [0, 18, 2, 8, 9, 1], payloadlen = 5\<rparr>))
      (mqtt_node (connected_client deployed_ids deployed_psids)) =
      Inr ([Radio (Emit (OnMessageReceived [0, 18, 2, 8, 9] 18)),
            Published \<lparr>stamp = 7, frame_id = [], message_type = ''MAP'', content = [0, 18, 2, 8, 9]\<rparr>], nd') \<and>
    node_observed (node_net (deployed_world ''w'') 7 (Udp_net (Ev_turn (Value ()))) (udp_node (delivering [0, 18, 2, 8, 9]))) =
      Inr ([Radio (Emit (OnMessageReceived [0, 18, 2, 8, 9] 18)),
            Published \<lparr>stamp = 7, frame_id = [], message_type = ''MAP'', content = [0, 18, 2, 8, 9]\<rparr>], Some b)"
proof -
  let ?m = "\<lparr>msg_topic = [], payload = Some ([0, 18, 2, 8, 9] @ [1]), payloadlen = 5\<rparr>"
    and ?c = "connected_client deployed_ids deployed_psids"
  have e: "message_frame 0 18 [8, 9] = [0, 18, 2, 8, 9]" "be16 0 18 = 18" "to_ushort 18 = 18"
    by (simp_all add: message_frame_def length_determinant_def be16_eq to_ushort_def)
  have "process (deployed_world ''w'') [0, 18, 2, 8, 9] ?c = Inr ([([0, 18, 2, 8, 9], 18)], ?c)"
    using deployed_start [of ?c 0 18 "[8, 9]" "deployed_world ''w''"]
    by (simp add: e deployed_id_numbers_def)
  then have mqtt: "handleMessage (deployed_world ''w'') (Some ?m) ?c = Inr ([Emit (OnMessageReceived [0, 18, 2, 8, 9] 18)], ?c)"
    by (simp add: handleMessage_def message_signals_def eval_nat_numeral)
  have id: "to_string 18 = ''18''" by code_simp
  have "node_net (deployed_world ''w'') 7 (Mqtt_message (Some ?m)) (mqtt_node ?c) =
      Inr ([Radio (Emit (OnMessageReceived [0, 18, 2, 8, 9] 18)),
            Published \<lparr>stamp = 7, frame_id = [], message_type = ''MAP'', content = [0, 18, 2, 8, 9]\<rparr>], mqtt_node ?c)"
    using mqtt by (simp add: node_net_def onMessageReceivedHandler_def item_by_id_def deployed_items_def id)
  with transport_independent [OF udp_node_fields(1) delivering_fields(1,2) mqtt_node_fields(1) delivering_fields(5),
      of ?m "[0, 18, 2, 8, 9]" "[1]" "deployed_world ''w''" 7 "Value ()"]
  show ?thesis by (simp add: node_observed_def)
qed

end
