(* ===== verification/Mqtt_Link.thy ===== *)
theory Mqtt_Link
  imports Mqtt_Lifecycle
begin

text \<open>
  An abstract specification of the MQTT client, a link to one broker, and the proof that the
  client with the callbacks of its network threads implements it: every step of \<open>mqtt_step\<close> is one step of the
  link, with the same calls into the library. What holds of the calls of every run of the link then holds of the
  client's. The link has the states the client gets to when \<open>connect\<close> is called again before the
  broker acknowledged the first call: handles it has lost, whose callbacks go on, and a state that is
  connected without a handle.
\<close>

section \<open>The link\<close>

datatype status = Down | Joining nat | Joined nat | Stuck

text \<open>A status, and the handles that exist and are not the client's.\<close>

type_synonym link = "status \<times> nat set"

text \<open>The calls that matter: a handle made or destroyed, a subscription, a message.\<close>

datatype link_call = Began nat | Ended nat | Subscribed "nat option" | Published_on nat bytes

datatype link_label =
    Join nat
  | Join_failed "nat option"
  | Acknowledged "nat option"
  | Lost
  | Left nat
  | Given nat bytes
  | Quiet

fun label_calls :: "link_label \<Rightarrow> link_call list" where
  "label_calls (Join h) = [Began h]"
| "label_calls (Join_failed None) = []"
| "label_calls (Join_failed (Some h)) = [Began h, Ended h]"
| "label_calls (Acknowledged x) = [Subscribed x]"
| "label_calls Lost = []"
| "label_calls (Left h) = [Ended h]"
| "label_calls (Given h m) = [Published_on h m]"
| "label_calls Quiet = []"

fun link_handle :: "status \<Rightarrow> nat option" where
  "link_handle Down = None"
| "link_handle (Joining h) = Some h"
| "link_handle (Joined h) = Some h"
| "link_handle Stuck = None"

fun link_up :: "status \<Rightarrow> bool" where
  "link_up (Joined h) = True"
| "link_up Stuck = True"
| "link_up _ = False"

fun raise_link :: "status \<Rightarrow> status" where
  "raise_link Down = Stuck"
| "raise_link (Joining h) = Joined h"
| "raise_link s = s"

fun lower_link :: "status \<Rightarrow> status" where
  "lower_link Stuck = Down"
| "lower_link (Joined h) = Joining h"
| "lower_link s = s"

text \<open>The handles that exist.\<close>

definition link_live :: "link \<Rightarrow> nat set" where
  "link_live l = set_option (link_handle (fst l)) \<union> snd l"

text \<open>
  A link that is not up is joined with a new handle, or stays down and keeps none; the handle it had, if any, is lost,
  not destroyed. A broker acknowledges any handle that exists, also again after the connection was
  lost, and every time the link subscribes with its own handle, the null handle included. Messages are given
  to a joined link only, and only the link's own handle is destroyed when the link is left.
\<close>

inductive link_step :: "link \<Rightarrow> link_label \<Rightarrow> link \<Rightarrow> bool" where
  join: "\<not> link_up s \<Longrightarrow> h \<notin> link_live (s, R) \<Longrightarrow> link_step (s, R) (Join h) (Joining h, link_live (s, R))"
| join_failed:
    "\<not> link_up s \<Longrightarrow> set_option x \<inter> link_live (s, R) = {} \<Longrightarrow>
     link_step (s, R) (Join_failed x) (Down, link_live (s, R))"
| acknowledge: "link_live (s, R) \<noteq> {} \<Longrightarrow> link_step (s, R) (Acknowledged (link_handle s)) (raise_link s, R)"
| lose: "link_live (s, R) \<noteq> {} \<Longrightarrow> link_step (s, R) Lost (lower_link s, R)"
| leave: "link_handle s = Some h \<Longrightarrow> link_step (s, R) (Left h) (Down, R)"
| give: "link_step (Joined h, R) (Given h m) (Joined h, R)"
| quiet: "link_step l Quiet l"

inductive link_run :: "link \<Rightarrow> link_label list \<Rightarrow> link \<Rightarrow> bool" where
  link_nil: "link_run s [] s"
| link_snoc: "link_run s ls t \<Longrightarrow> link_step t l u \<Longrightarrow> link_run s (ls @ [l]) u"

inductive_cases link_step_cases: "link_step s l t"

text \<open>A link moves deterministically: the label tells the next state.\<close>

lemma link_step_deterministic: "link_step s l t \<Longrightarrow> link_step s l u \<Longrightarrow> t = u"
  by (erule link_step.cases; erule link_step.cases) auto

definition run_calls :: "link_label list \<Rightarrow> link_call list" where
  "run_calls ls = concat (map label_calls ls)"

lemma run_calls_simps [simp]: "run_calls [] = []" "run_calls (ls @ [l]) = run_calls ls @ label_calls l"
  by (simp_all add: run_calls_def)

section \<open>Messages go out after a subscription\<close>

definition subscribed_since :: "nat \<Rightarrow> link_call list \<Rightarrow> bool" where
  "subscribed_since h cs \<longleftrightarrow> (\<exists>a b. cs = a @ Subscribed (Some h) # b \<and> Ended h \<notin> set b)"

lemma subscribed_since_Nil [simp]: "\<not> subscribed_since h []"
  by (simp add: subscribed_since_def)


text \<open>Every message in the calls has a subscription before it on the same handle, not destroyed since.\<close>

definition publishes_subscribed :: "link_call list \<Rightarrow> bool" where
  "publishes_subscribed cs \<longleftrightarrow> (\<forall>pre h m post. cs = pre @ Published_on h m # post \<longrightarrow> subscribed_since h pre)"

lemma publishes_subscribed_Nil [simp]: "publishes_subscribed []"
  by (simp add: publishes_subscribed_def)



lemma lower_link_Joined [simp]: "lower_link s \<noteq> Joined h"
  by (cases s) auto


section \<open>The client as a link\<close>

definition status_of :: "mqtt_client \<Rightarrow> status" where
  "status_of c = (case mosq c of
     None \<Rightarrow> if mqtt_connected c then Stuck else Down
   | Some h \<Rightarrow> if mqtt_connected c then Joined h else Joining h)"

definition link_of :: "mqtt_client \<times> nat set \<Rightarrow> link" where
  "link_of s = (status_of (fst s), snd s - set_option (mosq (fst s)))"

lemma status_of_simps [simp]:
  "link_handle (status_of c) = mosq c" "link_up (status_of c) = mqtt_connected c"
  by (simp_all add: status_of_def split: option.split)

lemma status_of_settings [simp]:
  "status_of (setMqttConfig i q r p c) = status_of c" "status_of (set_wave_file_path f c) = status_of c"
  by (simp_all add: status_of_def split: option.split)

text \<open>The handle of the client exists.\<close>

definition holds_live :: "mqtt_client \<times> nat set \<Rightarrow> bool" where
  "holds_live s \<longleftrightarrow> set_option (mosq (fst s)) \<subseteq> snd s"

lemma link_live_of: "holds_live (c, L) \<Longrightarrow> link_live (link_of (c, L)) = L"
  by (auto simp: holds_live_def link_live_def link_of_def)

fun call_of :: "effect \<Rightarrow> link_call list" where
  "call_of (Mosq_new i (Some h)) = [Began h]"
| "call_of (Mosq_destroy h) = [Ended h]"
| "call_of (Mosq_subscribe h t q) = [Subscribed h]"
| "call_of (Mosq_publish h t m q r) = [Published_on h m]"
| "call_of _ = []"

definition link_calls :: "effect list \<Rightarrow> link_call list" where
  "link_calls es = concat (map call_of es)"

lemma link_calls_simps [simp]:
  "link_calls [] = []" "link_calls (e # es) = call_of e @ link_calls es"
  "link_calls (es @ fs) = link_calls es @ link_calls fs"
  by (simp_all add: link_calls_def)

lemma link_calls_Emit [simp]: "link_calls (map Emit ss) = []"
  by (induction ss) simp_all

section \<open>The simulation\<close>

text \<open>What a step of the client is to show.\<close>

definition simulated :: "mqtt_client \<times> nat set \<Rightarrow> effect list \<Rightarrow> mqtt_client \<times> nat set \<Rightarrow> bool" where
  "simulated s es t \<longleftrightarrow>
     holds_live t \<and> (\<exists>l. link_step (link_of s) l (link_of t) \<and> link_calls es = label_calls l)"

lemma simulatedI: "link_step (link_of s) l (link_of t) \<Longrightarrow> link_calls es = label_calls l \<Longrightarrow> holds_live t \<Longrightarrow> simulated s es t"
  unfolding simulated_def by blast

lemma simulated_idle:
  assumes "holds_live (c, L)" "status_of c' = status_of c" "mosq c' = mosq c" "link_calls es = []" "L' = L"
  shows "simulated (c, L) es (c', L')"
  using assms quiet [of "link_of (c, L)"] by (intro simulatedI [of _ Quiet]) (simp_all add: link_of_def holds_live_def)

lemma simulated_connect:
  assumes conn: "mqtt_connect a ra rp lp ec c = Inr (out, ec', es, c')"
    and fresh: "\<forall>h. new_result a = Some h \<longrightarrow> h \<notin> L" and inv: "holds_live (c, L)"
  shows "simulated (c, L) es (c', live_after es L)"
proof (cases "mqtt_connected c")
  case True
  with conn inv show ?thesis by (auto intro: simulated_idle)
next
  case down: False
  note after = mqtt_connect_result [OF conn down] mqtt_connect_live [OF conn down, of L]
  have step: "link_live (status_of c, L - set_option (mosq c)) = L" "\<not> link_up (status_of c)"
    using link_live_of [OF inv] down by (simp_all add: link_of_def)
  show ?thesis
  proof (cases "connect_succeeds a")
    case True
    then obtain h where h: "new_result a = Some h" "h \<notin> L" using fresh by (auto simp: connect_succeeds_def)
    with after True fresh down have t: "link_of (c', live_after es L) = (Joining h, L)" "mosq c' = Some h"
      "live_after es L = insert h L"
      by (auto simp: link_of_def status_of_def)
    from conn down True h have "link_calls es = label_calls (Join h)"
      by (auto simp: mqtt_connect_def Let_def connect_succeeds_def MOSQ_ERR_SUCCESS_def split: if_splits)
    with join [of "status_of c" h "L - set_option (mosq c)"] step h t show ?thesis
      by (intro simulatedI [of _ "Join h"]) (simp_all add: link_of_def holds_live_def)
  next
    case False
    with after fresh down have t: "link_of (c', live_after es L) = (Down, L)" "mosq c' = None" "live_after es L = L"
      by (auto simp: link_of_def status_of_def)
    from conn down False have "link_calls es = label_calls (Join_failed (new_result a))"
      by (cases "new_result a")
        (auto simp: mqtt_connect_def Let_def connect_succeeds_def MOSQ_ERR_SUCCESS_def split: if_splits)
    moreover have "set_option (new_result a) \<inter> L = {}" using fresh by (cases "new_result a") auto
    ultimately show ?thesis
      using join_failed [of "status_of c" "new_result a" "L - set_option (mosq c)"] step t
      by (intro simulatedI [of _ "Join_failed (new_result a)"]) (simp_all add: link_of_def holds_live_def)
  qed
qed

lemma simulated_close:
  assumes "mqtt_close c = (es, c')" "holds_live (c, L)"
  shows "simulated (c, L) es (c', live_after es L)"
proof (cases "mosq c")
  case None
  with assms show ?thesis by (intro simulated_idle) (auto simp: mqtt_close_def)
next
  case (Some h)
  with assms have "link_of (c', live_after es L) = (Down, L - {h})" "link_calls es = label_calls (Left h)"
    "mosq c' = None"
    by (auto simp: mqtt_close_def link_of_def status_of_def)
  with leave [of "status_of c" h "L - {h}"] Some show ?thesis
    by (intro simulatedI [of _ "Left h"]) (simp_all add: link_of_def holds_live_def)
qed

lemma simulated_send:
  assumes "mqtt_send rc msg c = Inr (b, es)" "holds_live (c, L)"
  shows "simulated (c, L) es (c, live_after es L)"
  using mqtt_send_calls [OF assms(1)]
proof (elim disjE exE conjE)
  fix h t m assume h: "mosq c = Some h" "mqtt_connected c" "es = [Mosq_publish h t m (qos c) False]"
  with give [of h "L - {h}" m] assms(2) show ?thesis
    by (intro simulatedI [of _ "Given h m"]) (simp_all add: link_of_def status_of_def)
qed (use assms(2) in \<open>auto intro: simulated_idle\<close>)

lemma simulated_handleConnect:
  assumes "handleConnect rc c = (es, c')" "h \<in> L" "holds_live (c, L)"
  shows "simulated (c, L) es (c', live_after es L)"
proof (cases "rc = 0")
  case True
  with assms(1) have c': "c' = c\<lparr>mqtt_connected := True\<rparr>" and es: "link_calls es = [Subscribed (mosq c)]" "live_after es L = L"
    by (auto simp: handleConnect_def subscribeToTopics_def Let_def)
  have "status_of c' = raise_link (status_of c)" by (simp add: c' status_of_def split: option.split)
  with acknowledge [of "status_of c" "L - set_option (mosq c)"] link_live_of [OF assms(3)] assms(2,3) es show ?thesis
    by (intro simulatedI [of _ "Acknowledged (mosq c)"]) (auto simp: link_of_def holds_live_def c')
next
  case False
  with assms show ?thesis by (intro simulated_idle) (auto simp: handleConnect_def)
qed

lemma simulated_handleDisconnect:
  assumes "handleDisconnect rc c = (es, c')" "h \<in> L" "holds_live (c, L)"
  shows "simulated (c, L) es (c', live_after es L)"
proof -
  from assms(1) have c': "c' = c\<lparr>mqtt_connected := False\<rparr>" and es: "link_calls es = []" "live_after es L = L"
    by (auto simp: handleDisconnect_def)
  have "status_of c' = lower_link (status_of c)" by (simp add: c' status_of_def split: option.split)
  with lose [of "status_of c" "L - set_option (mosq c)"] link_live_of [OF assms(3)] assms(2,3) es show ?thesis
    by (intro simulatedI [of _ Lost]) (auto simp: link_of_def holds_live_def c')
qed

lemma step_simulated:
  assumes "mqtt_step d w (c, L) es (c', L')" "holds_live (c, L)"
  shows "simulated (c, L) es (c', L')"
  using assms(1)
proof cases
  case (net_message h msg)
  from handleMessage_result [OF net_message(3)] assms(2) net_message(1) show ?thesis
    by (intro simulated_idle) (auto simp: status_of_def split: option.split)
next
  case (do_connect a ra rp lp ec out ec')
  with simulated_connect [OF do_connect(2)] assms(2) show ?thesis by simp
next
  case (do_close)
  with simulated_close [OF do_close(2)] assms(2) show ?thesis by simp
next
  case (do_send rc msg b)
  with simulated_send [OF do_send(3)] assms(2) show ?thesis by simp
next
  case (net_connect h rc)
  with simulated_handleConnect [OF net_connect(3,2)] assms(2) show ?thesis by simp
next
  case (net_disconnect h rc)
  with simulated_handleDisconnect [OF net_disconnect(3,2)] assms(2) show ?thesis by simp
qed (use assms(2) in \<open>auto intro!: simulated_idle\<close>)

lemma link_simulates_run:
  "mqtt_run d w s es t \<Longrightarrow> holds_live s \<Longrightarrow> link_of s = (Down, {}) \<Longrightarrow>
   holds_live t \<and> (\<exists>ls. link_run (Down, {}) ls (link_of t) \<and> link_calls es = run_calls ls)"
proof (induction rule: mqtt_run.induct)
  case (run_nil s)
  then show ?case using link_nil [of "(Down, {})"] by (auto intro!: exI [of _ "[]"])
next
  case (run_step s es t fs u)
  obtain c L c' L' where t: "t = (c, L)" "u = (c', L')" by (cases t, cases u) auto
  from run_step obtain ls where ls: "link_run (Down, {}) ls (link_of t)" "link_calls es = run_calls ls" by auto
  have "simulated t fs u" using step_simulated [of d w c L fs c' L'] run_step by (simp add: t)
  then obtain l where "holds_live u" "link_step (link_of t) l (link_of u)" "link_calls fs = label_calls l"
    by (auto simp: simulated_def)
  with ls link_snoc [OF ls(1)] show ?case by (intro conjI exI [of _ "ls @ [l]"]) simp_all
qed

lemma mqtt_run_live: "mqtt_run d w s es t \<Longrightarrow> snd t = live_after es (snd s)"
proof (induction rule: mqtt_run.induct)
  case (run_step s es t fs u)
  then show ?case by (cases t; cases u) (auto dest: mqtt_step_live)
qed simp

lemma init_link [simp]: "holds_live (mqtt_init, {})" "link_of (mqtt_init, {}) = (Down, {})"
  by (simp_all add: holds_live_def link_of_def status_of_def)

section \<open>Properties\<close>

text \<open>
  C24: the MQTT client refines the link. Every run from construction, each operation and callback taken as
  one step, is a run of the link, also one in which \<open>connect\<close> is called again while a handle is held:
  the handles made and destroyed, the subscriptions and the messages published are those of the link, in the
  same order; the link holds the client's handle and is up exactly when the client reports being
  connected; the handles that exist are its own and those it lost. When \<open>connect\<close> is called only
  without a handle, none is lost and the link is never stuck.
\<close>

theorem mqtt_refines_link:
  assumes "mqtt_run d w (mqtt_init, {}) es (c, L)"
  shows "(\<exists>ls. link_run (Down, {}) ls (link_of (c, L)) \<and> link_calls es = run_calls ls) \<and>
    link_live (link_of (c, L)) = L \<and> L = live_after es {} \<and>
    (d \<longrightarrow> snd (link_of (c, L)) = {} \<and> fst (link_of (c, L)) \<noteq> Stuck)"
proof -
  from link_simulates_run [OF assms] have run: "holds_live (c, L)"
    "\<exists>ls. link_run (Down, {}) ls (link_of (c, L)) \<and> link_calls es = run_calls ls" by simp_all
  have "snd (link_of (c, L)) = {} \<and> fst (link_of (c, L)) \<noteq> Stuck" if d
  proof -
    from that assms have "mqtt_run True w (mqtt_init, {}) es (c, L)" by simp
    from mqtt_run_inv [OF this] have "L = set_option (mosq c)" "mqtt_connected c \<longrightarrow> mosq c \<noteq> None"
      by (auto simp: handle_inv_def)
    then show ?thesis by (auto simp: link_of_def status_of_def split: option.split)
  qed
  with run link_live_of [OF run(1)] mqtt_run_live [OF assms] show ?thesis by simp
qed

text \<open>A client whose broker acknowledged, and its first message.\<close>

definition joined_client :: "nat \<Rightarrow> mqtt_client" where
  "joined_client h = (connecting_client h)\<lparr>mqtt_connected := True\<rparr>"

lemma mqtt_run_joined:
  "\<exists>es. mqtt_run d w (mqtt_init, {})
     (es @ [Mosq_subscribe (Some h) (buildSubscribeTopic (joined_client h)) 0, Emit OnConnect]) (joined_client h, {h})"
proof -
  obtain es where es: "mqtt_run d w (mqtt_init, {}) es (connecting_client h, {h})"
    using mqtt_run_connecting by blast
  have "handleConnect 0 (connecting_client h) =
      ([Mosq_subscribe (Some h) (buildSubscribeTopic (joined_client h)) 0, Emit OnConnect], joined_client h)"
    by (simp add: handleConnect_def subscribeToTopics_def Let_def joined_client_def connecting_client_def mqtt_init_def)
  with run_step [OF es net_connect [of h "{h}" 0]] show ?thesis by auto
qed

theorem mqtt_refines_link_witness:
  "(\<exists>ls. link_run (Down, {}) ls (Joined 7, {})) \<and> (\<exists>ls R. link_run (Down, {}) ls (Stuck, R))"
proof
  obtain es where "mqtt_run True (deployed_world ''w'') (mqtt_init, {})
     (es @ [Mosq_subscribe (Some 7) (buildSubscribeTopic (joined_client 7)) 0, Emit OnConnect]) (joined_client 7, {7})"
    using mqtt_run_joined by blast
  from mqtt_refines_link [OF this] show "\<exists>ls. link_run (Down, {}) ls (Joined 7, {})"
    by (auto simp: link_of_def status_of_def joined_client_def)
  obtain es c L where "mqtt_run False (deployed_world ''w'') (mqtt_init, {}) es (c, L)" "mqtt_connected c" "mosq c = None"
    using mqtt_stuck_connected by blast
  with mqtt_refines_link [OF this(1)] show "\<exists>ls R. link_run (Down, {}) ls (Stuck, R)"
    by (auto simp: link_of_def status_of_def)
qed




end
