(* ===== verification/Mqtt_Send.thy ===== *)
theory Mqtt_Send
  imports Mqtt_Lifecycle Mqtt_Topics
begin

text \<open>
  What \<open>sendV2xMessage\<close> of the MQTT client can come to in any state it gets to: the two identifier
  lists stay parallel through every operation and callback, so the only failures left are the
  exceptions of \<open>std::stoi\<close> on a configured PSID.
\<close>

section \<open>The lists stay parallel\<close>

lemma wf_base_update [simp]:
  "wf_base (c\<lparr>mosq := h\<rparr>) = wf_base c" "wf_base (c\<lparr>mqtt_connected := b\<rparr>) = wf_base c"
  "wf_base (c\<lparr>broker_address := a\<rparr>) = wf_base c" "wf_base (c\<lparr>broker_port := p\<rparr>) = wf_base c"
  "wf_base (setMqttConfig i q r x c) = wf_base c"
  by (simp_all add: wf_base_def setMqttConfig_def)

lemma wf_base_mqtt_init [simp]: "wf_base mqtt_init"
  by (simp add: wf_base_def mqtt_init_def)

lemma wf_base_mqtt_close [simp]: "wf_base (snd (mqtt_close c)) = wf_base c"
  by (simp add: mqtt_close_def split: option.split)

lemma wf_base_mqtt_connect:
  assumes "mqtt_connect a ra rp lp ec c = Inr (out, ec', es, c')" "wf_base c"
  shows "wf_base c'"
  using assms mqtt_connect_result(3) [OF assms(1)] by (cases "mqtt_connected c") auto

lemma wf_base_handleMessage:
  assumes "handleMessage w msg c = Inr (es, c')" "wf_base c"
  shows "wf_base c'"
proof -
  have "c' = c \<or> (\<exists>e rs. process w e c = Inr (rs, c'))"
    using assms(1) by (auto simp: handleMessage_def bind_res_eq_Inr split: option.splits if_splits)
  with assms(2) show ?thesis by (auto dest: process_wf)
qed

lemma mqtt_step_wf_base: "mqtt_step d w s es t \<Longrightarrow> wf_base (fst s) \<Longrightarrow> wf_base (fst t)"
proof (induction rule: mqtt_step.induct)
  case (do_connect a ra rp lp ec c out ec' es c' L)
  then show ?case using wf_base_mqtt_connect by auto
next
  case (do_close c es c' L)
  then show ?case using wf_base_mqtt_close [of c] by simp
next
  case (net_connect h L rc c es c')
  then show ?case by (auto simp: handleConnect_def Let_def split: if_splits)
next
  case (net_disconnect h L rc c es c')
  then show ?case by (auto simp: handleDisconnect_def)
next
  case (net_message h L msg c es c')
  then show ?case using wf_base_handleMessage by auto
qed simp_all

lemma mqtt_run_wf_base: "mqtt_run d w s es t \<Longrightarrow> wf_base (fst s) \<Longrightarrow> wf_base (fst t)"
  by (induction rule: mqtt_run.induct) (auto dest: mqtt_step_wf_base)

section \<open>The failures of a send\<close>

lemma stoi16_fault: "stoi16 s = Inl f \<Longrightarrow> f = Thrown Invalid_argument \<or> f = Thrown Out_of_range"
  by (auto simp: stoi16_def split: option.splits if_splits)

lemma buildPublishTopic_fault:
  "buildPublishTopic c s = Inl f \<Longrightarrow> f = Thrown Invalid_argument \<or> f = Thrown Out_of_range"
  by (auto simp: buildPublishTopic_def bind_res_eq_Inl stoi16_fault split: option.splits)

lemma mqtt_send_fault:
  assumes "wf_base c" "mqtt_send rc msg c = Inl f"
  shows "(f = Thrown Invalid_argument \<or> f = Thrown Out_of_range) \<and> mqtt_connected c \<and> mosq c \<noteq> None"
proof -
  have "\<exists>h m. mosq c = Some h \<and> mqtt_connected c \<and> msg = Some m \<and> 2 \<le> length m"
    using assms(2) by (auto simp: mqtt_send_def split: option.splits if_splits)
  then obtain h m where hm: "mosq c = Some h" "mqtt_connected c" "msg = Some m" "2 \<le> length m" by blast
  with assms show ?thesis
    by (auto simp: mqtt_send_ready psidForDsrcMsgId_eq bind_res_eq_Inl dest: buildPublishTopic_fault)
qed

text \<open>
  Exactly when a send throws: the identifier in the first two bytes has a configured PSID that is not
  empty, has no fixed topic number and is no number to \<open>std::stoi\<close>. An identifier without a PSID, read as
  hexadecimal in its place, never throws.
\<close>

definition psid_throws :: "mqtt_client \<Rightarrow> bytes \<Rightarrow> fault \<Rightarrow> bool" where
  "psid_throws c m f \<longleftrightarrow> 2 \<le> length m \<and>
     (case psid_table c (to_string (u16 m 0)) of
        None \<Rightarrow> False
      | Some p \<Rightarrow> p \<noteq> [] \<and> map_of kEttifosPsidOverrides p = None \<and> stoi16 p = Inl f)"

lemma mqtt_send_throws:
  assumes "wf_base c"
  shows "mqtt_send rc (Some m) c = Inl f \<longleftrightarrow> mqtt_connected c \<and> mosq c \<noteq> None \<and> psid_throws c m f"
proof (cases "\<exists>h. mosq c = Some h \<and> mqtt_connected c \<and> 2 \<le> length m")
  case True
  then obtain h where h: "mosq c = Some h" "mqtt_connected c" "2 \<le> length m" by blast
  have raw: "buildPublishTopic c (to_string (u16 m 0)) = Inr (topic_for c (raw_topic_number (u16 m 0)))"
    using u16_range [of m 0] by (intro buildPublishTopic_raw) simp_all
  have hex: "buildPublishTopic c p = Inl f \<longleftrightarrow> map_of kEttifosPsidOverrides p = None \<and> stoi16 p = Inl f" for p
    by (auto simp: buildPublishTopic_def bind_res_eq_Inl split: option.split)
  from hex [of "to_string (u16 m 0)"] have
    "\<not> (map_of kEttifosPsidOverrides (to_string (u16 m 0)) = None \<and> stoi16 (to_string (u16 m 0)) = Inl f)"
    by (simp add: raw)
  with h assms show ?thesis
    by (auto simp: mqtt_send_ready psidForDsrcMsgId_eq psid_throws_def bind_res_eq_Inl hex split: option.split)
next
  case False
  then show ?thesis by (auto simp: mqtt_send_def psid_throws_def split: option.split)
qed

text \<open>
  C16: in every state the client gets to, under any sequence of calls and callbacks and any wave file,
  and for every answer of the broker library and every message, \<open>sendV2xMessage\<close> ends in one of three
  ways. It throws what \<open>std::stoi\<close> throws, \<open>invalid_argument\<close> or \<open>out_of_range\<close>, and never reads
  outside a vector; or it returns false without calling the library (not connected, no handle, null or
  shorter than two bytes); or it published the message bytes unchanged, once, not retained, at the
  configured QoS on a topic under \<open><prefix>/req/J2735/\<close> that ends in an \<open>int\<close>, and returned true
  exactly when the library accepted the publish.
\<close>

theorem mqtt_send_ends:
  assumes "mqtt_run d w (mqtt_init, {}) tr (c, L)"
  shows "mqtt_send rc msg c \<in> {Inl (Thrown Invalid_argument), Inl (Thrown Out_of_range)} \<or>
    (mqtt_send rc msg c = Inr (False, []) \<and>
      (\<not> mqtt_connected c \<or> mosq c = None \<or> msg = None \<or> length (the msg) < 2)) \<or>
    (\<exists>h m p. mosq c = Some h \<and> mqtt_connected c \<and> msg = Some m \<and> 2 \<le> length m \<and>
       mqtt_send rc msg c = Inr (rc = 0,
         [Mosq_publish h (mqtt_topic_prefix c @ ''/req/J2735/'' @ to_string p) m (qos c) False]) \<and>
       - (2 ^ 31) \<le> p \<and> p < 2 ^ 31)"
proof (cases "mqtt_send rc msg c")
  case (Inl f)
  have "wf_base c" using mqtt_run_wf_base [OF assms] by simp
  with Inl mqtt_send_fault show ?thesis by blast
next
  case (Inr r)
  obtain b es where "r = (b, es)" by (cases r)
  with Inr mqtt_send_outcome [of rc msg c b es] show ?thesis by auto
qed

theorem mqtt_send_ends_witness:
  "mqtt_send 0 (Some [0, 20, 1]) (connecting_client 7) = Inr (False, [])"
proof -
  obtain tr where "mqtt_run True (deployed_world ''w'') (mqtt_init, {}) tr (connecting_client 7, {7})"
    using mqtt_run_connecting by blast
  from mqtt_send_ends [OF this, of 0 "Some [0, 20, 1]"] show ?thesis
    by (auto simp: mqtt_send_def)
qed

end
