(* ===== verification/Load_Race.thy ===== *)
theory Load_Race
  imports Mqtt_Send
begin

text \<open>
  The wave lists are filled by the network thread, in the scan of the first inbound message, while the
  executor reads them in \<open>sendV2xMessage\<close>; nothing orders the two. The loop of \<open>loadWaveConfigIds\<close> is cut
  into its calls of \<open>emplace_back\<close>, two per entry, and a message is sent between two of them.
\<close>

section \<open>The load, one \<open>emplace_back\<close> at a time\<close>

text \<open>The state after the first \<open>n\<close> calls.\<close>

fun load_steps :: "nat \<Rightarrow> json list \<Rightarrow> 'a base_client_scheme \<Rightarrow> 'a base_client_scheme res" where
  "load_steps n [] c = Inr c"
| "load_steps 0 its c = Inr c"
| "load_steps (Suc 0) (it # its) c =
     bind_res (get_string it ''dsrc_msg_id'') (\<lambda>d.
       Inr (c\<lparr>wave_cfg_dsrc_msg_ids := wave_cfg_dsrc_msg_ids c @ [d]\<rparr>))"
| "load_steps (Suc (Suc n)) (it # its) c =
     bind_res (get_string it ''dsrc_msg_id'') (\<lambda>d.
     bind_res (get_string it ''psid'') (\<lambda>p.
     load_steps n its (c\<lparr>wave_cfg_dsrc_msg_ids := wave_cfg_dsrc_msg_ids c @ [d],
                         wave_cfg_psids := wave_cfg_psids c @ [p]\<rparr>)))"

text \<open>All the calls are the loop.\<close>

lemma load_steps_all: "load_steps (2 * length its) its c = push_ids its c"
  by (induction its arbitrary: c) simp_all

text \<open>After \<open>n\<close> calls the first list has one entry more than the second when \<open>n\<close> is odd.\<close>

lemma load_steps_eq:
  "list_all conforms_item its \<Longrightarrow> load_steps n its c =
     Inr (c\<lparr>wave_cfg_dsrc_msg_ids := wave_cfg_dsrc_msg_ids c @ take (Suc n div 2) (map (\<lambda>it. field_text it ''dsrc_msg_id'') its),
            wave_cfg_psids := wave_cfg_psids c @ take (n div 2) (map (\<lambda>it. field_text it ''psid'') its)\<rparr>)"
proof (induction n its c rule: load_steps.induct)
  case (3 it its c)
  then have "get_string it ''dsrc_msg_id'' = Inr (field_text it ''dsrc_msg_id'')"
    by (intro get_string_conforms) (simp_all add: wave_props_def)
  then show ?case by simp
next
  case (4 n it its c)
  then have "get_string it k = Inr (field_text it k)" if "k \<in> set wave_props" for k
    using that by (simp add: get_string_conforms)
  then have "get_string it ''dsrc_msg_id'' = Inr (field_text it ''dsrc_msg_id'')"
    "get_string it ''psid'' = Inr (field_text it ''psid'')"
    by (simp_all add: wave_props_def)
  with 4 show ?case by simp
qed simp_all

lemma accepted_conform:
  assumes "validator_sound w t"
  shows "list_all conforms_item (accepted_entries w t f)"
proof -
  have "list_all conforms_item its" if "json_parse w t = Some sd" "schema_accepts w sd (JArray its)" for sd its
    using assms that unfolding validator_sound_def by (metis conforms_wave_schema.simps(1))
  then show ?thesis by (auto simp: accepted_entries_def split: option.split json.split)
qed

section \<open>The lookup during the load\<close>

text \<open>The position of the first entry of an identifier; the length of the list when there is none.\<close>

definition first_entry :: "string \<Rightarrow> json list \<Rightarrow> nat" where
  "first_entry m its = length (takeWhile (\<lambda>it. field_text it ''dsrc_msg_id'' \<noteq> m) its)"

lemma first_entry_le: "first_entry m its \<le> length its"
  by (simp add: first_entry_def length_takeWhile_le)

lemma psid_lookup_first:
  "psid_lookup m ds i ps =
     (let k = length (takeWhile (\<lambda>d. d \<noteq> m) ds) in if k < length ds then at ps (i + k) else Inr [])"
  by (induction ds arbitrary: i) (simp_all add: Let_def)

lemma length_takeWhile_take: "length (takeWhile P (take j xs)) = min j (length (takeWhile P xs))"
  by (induction xs arbitrary: j) (auto simp: take_Cons' min_def not_less)

lemma length_takeWhile_map: "length (takeWhile P (map f xs)) = length (takeWhile (\<lambda>x. P (f x)) xs)"
  by (induction xs) simp_all

lemma lookup_taken:
  assumes "k = first_entry m its"
  shows "psid_lookup m (take j (map (\<lambda>it. field_text it ''dsrc_msg_id'') its)) 0
      (take l (map (\<lambda>it. field_text it ''psid'') its)) =
    (if k < j \<and> k < length its then
       (if k < l then Inr (field_text (its ! k) ''psid'') else Inl Out_of_bounds)
     else Inr [])"
proof -
  have "length (takeWhile (\<lambda>d. d \<noteq> m) (take j (map (\<lambda>it. field_text it ''dsrc_msg_id'') its))) = min j k"
    by (simp add: assms first_entry_def length_takeWhile_take length_takeWhile_map)
  with first_entry_le [of m its] assms show ?thesis
    by (auto simp: psid_lookup_first Let_def min_def at_def)
qed

lemma send_by_lookup:
  assumes "mosq c = mosq c'" "mqtt_connected c = mqtt_connected c'" "mqtt_topic_prefix c = mqtt_topic_prefix c'"
    "qos c = qos c'" "2 \<le> length m"
    "psidForDsrcMsgId c (to_string (u16 m 0)) = psidForDsrcMsgId c' (to_string (u16 m 0))"
  shows "mqtt_send rc (Some m) c = mqtt_send rc (Some m) c'"
proof -
  have "buildPublishTopic c s = buildPublishTopic c' s" for s using assms(3) by (simp add: buildPublishTopic_def)
  with assms show ?thesis by (simp add: mqtt_send_def split: option.split)
qed

text \<open>
  C30: the load of the configuration is visible half done. A connected MQTT client has empty lists; the network
  thread has made \<open>n\<close> calls of \<open>emplace_back\<close> when a message is sent, and the first entry of the message's
  identifier is number \<open>k\<close>. Up to \<open>2k\<close> calls the message goes out as without a configuration; from \<open>2k + 2\<close> on
  as with the whole of it; after \<open>2k + 1\<close>, when the identifier is in and its PSID is not, the lookup reads past the
  end of the list of PSIDs. An identifier without an entry is never affected.
\<close>

theorem mqtt_send_during_load:
  assumes "validator_sound w wave_schema_ids" "its = accepted_entries w wave_schema_ids (wave_file_path c)"
    "wave_cfg_dsrc_msg_ids c = []" "wave_cfg_psids c = []" "mosq c = Some h" "mqtt_connected c" "2 \<le> length m"
    "load_steps n its c = Inr c'" "loadWaveConfigIds w (wave_file_path c) c = Inr cl"
    "k = first_entry (to_string (be16 (m ! 0) (m ! 1))) its"
  shows "mqtt_send rc (Some m) c' =
    (if k < length its \<and> n = 2 * k + 1 then Inl Out_of_bounds
     else if n \<le> 2 * k then mqtt_send rc (Some m) c else mqtt_send rc (Some m) cl)"
proof -
  let ?D = "map (\<lambda>it. field_text it ''dsrc_msg_id'') its" and ?P = "map (\<lambda>it. field_text it ''psid'') its"
  let ?id = "to_string (u16 m 0)"
  have c': "c' = c\<lparr>wave_cfg_dsrc_msg_ids := take (Suc n div 2) ?D, wave_cfg_psids := take (n div 2) ?P\<rparr>"
    using assms(3,4,8) load_steps_eq [of its n c] accepted_conform [OF assms(1), of "wave_file_path c"] assms(2) by simp
  have cl: "cl = c\<lparr>wave_cfg_dsrc_msg_ids := ?D, wave_cfg_psids := ?P\<rparr>"
    using assms(3,4,9) loadWaveConfigIds_eq [OF assms(1), of "wave_file_path c" c] assms(2)
    by (simp add: append_entries_def)
  have k: "k = first_entry ?id its" using assms(10) by (simp add: u16_def)
  have part: "psidForDsrcMsgId c' ?id = (if k < Suc n div 2 \<and> k < length its then
       (if k < n div 2 then Inr (field_text (its ! k) ''psid'') else Inl Out_of_bounds) else Inr [])"
    unfolding c' psidForDsrcMsgId_def using lookup_taken [OF k] by simp
  have whole: "psidForDsrcMsgId cl ?id = (if k < length its then Inr (field_text (its ! k) ''psid'') else Inr [])"
    unfolding cl psidForDsrcMsgId_def using lookup_taken [OF k, of "length its" "length its"] by simp
  have none: "psidForDsrcMsgId c ?id = Inr []" using assms(3) by (simp add: psidForDsrcMsgId_def)
  consider (half) "k < length its" "n = 2 * k + 1" | (before) "n \<le> 2 * k \<or> \<not> k < length its" | (after) "2 * k + 2 \<le> n"
    by linarith
  then show ?thesis
  proof cases
    case half
    with part have "psidForDsrcMsgId c' ?id = Inl Out_of_bounds" by simp
    moreover have "mosq c' = Some h" "mqtt_connected c'" using assms(5,6) by (simp_all add: c')
    ultimately show ?thesis using half assms(7) by (simp add: mqtt_send_ready)
  next
    case before
    then have miss: "\<not> (k < Suc n div 2 \<and> k < length its)" by auto
    have "mqtt_send rc (Some m) c' = mqtt_send rc (Some m) c"
      by (rule send_by_lookup) (use part none miss assms(7) in \<open>simp_all add: c'\<close>)
    moreover have "mqtt_send rc (Some m) cl = mqtt_send rc (Some m) c" if "\<not> k < length its"
      by (rule send_by_lookup) (use whole none that assms(7) in \<open>simp_all add: cl\<close>)
    ultimately show ?thesis using before by auto
  next
    case after
    then have hit: "k < Suc n div 2" "k < n div 2" by auto
    have "mqtt_send rc (Some m) c' = mqtt_send rc (Some m) cl"
      by (rule send_by_lookup) (use part whole hit assms(7) in \<open>simp_all add: c' cl\<close>)
    then show ?thesis using after by auto
  qed
qed

text \<open>The deployed configuration: a MAP message, entry number 1, sent after three calls.\<close>

theorem mqtt_send_during_load_witness:
  "\<exists>c'. load_steps 3 (accepted_entries (deployed_world ''w'') wave_schema_ids ''w'')
        ((connected_client [] [])\<lparr>wave_file_path := ''w''\<rparr>) = Inr c' \<and>
     mqtt_send 0 (Some [0, 18, 1, 9]) c' = Inl Out_of_bounds"
proof -
  let ?w = "deployed_world ''w''" and ?c = "(connected_client [] [])\<lparr>wave_file_path := ''w''\<rparr>"
  let ?its = "accepted_entries ?w wave_schema_ids ''w''"
  obtain c' where c': "load_steps 3 ?its ?c = Inr c'"
    using load_steps_eq [OF accepted_conform [OF deployed_world_sound [of "''w''" wave_schema_ids], of "''w''"], of 3 ?c] by blast
  obtain cl where cl: "loadWaveConfigIds ?w (wave_file_path ?c) ?c = Inr cl"
    using loadWaveConfigIds_eq [OF deployed_world_sound [of "''w''" wave_schema_ids], of "wave_file_path ?c" ?c] by blast
  have "to_string 18 = ''18''" by code_simp
  then have k: "1 = first_entry (to_string (be16 ([0, 18, 1, 9] ! 0) ([0, 18, 1, 9] ! 1))) ?its"
    by (simp add: first_entry_def deployed_entries wave_schema_ids_def wave_json_def be16_eq c_str_id)
  have len: "1 < length ?its" by (simp add: deployed_entries wave_schema_ids_def wave_json_def)
  have c: "?its = accepted_entries ?w wave_schema_ids (wave_file_path ?c)" "wave_cfg_dsrc_msg_ids ?c = []"
    "wave_cfg_psids ?c = []" "mosq ?c = Some 1" "mqtt_connected ?c" "2 \<le> length [0, 18, 1, 9 :: byte]"
    by simp_all
  have "mqtt_send 0 (Some [0, 18, 1, 9]) c' = Inl Out_of_bounds"
    unfolding mqtt_send_during_load [OF deployed_world_sound c c' cl k] by (rule if_P) (use len in simp)
  with c' show ?thesis by blast
qed

end
