(* ===== verification/Node_Run.thy ===== *)
theory Node_Run
  imports Node_Properties Mqtt_Send Udp_Io_Thread
begin

text \<open>
  The life of the node in the process: \<open>main.cpp\<close> constructs it, the executor runs its callbacks one at
  a time, between them the connection thread and the transport's threads run, and at the end it is
  destroyed. The theory has the runs, the invariant of every state in them, and what follows for
  outbound messages, the reconnect service and the end of the process.
\<close>

section \<open>Callbacks\<close>

text \<open>
  What can run, with the answers it gets: the transition to configured, \<open>handle_on_shutdown\<close> (which no code of
  the repository calls), the callbacks bound to the ROS entities in \<open>handle_on_configure\<close>, the connection
  thread, a transport's thread.
\<close>

datatype callback =
    On_configure connect_answers send_answers params "string option"
  | On_shutdown connect_answers
  | On_parameters updater
  | On_outbound send_answers byte_array
  | On_send_service send_answers byte_array
  | On_reconnect_service connect_answers
  | Connection_thread connect_answers
  | Network net_event

text \<open>
  With \<open>d\<close> set, mosquitto calls back only for a handle the client holds; without it the callbacks of
  a handle the client has lost act on it too.
\<close>

fun network_runs :: "bool \<Rightarrow> net_event \<Rightarrow> node \<Rightarrow> bool" where
  "network_runs d (Udp_net e) nd = True"
| "network_runs d e nd =
     (d \<longrightarrow> (case radio_client nd of Some (Mqtt c) \<Rightarrow> mosq c \<noteq> None | _ \<Rightarrow> True))"

text \<open>
  The entities exist once \<open>handle_on_configure\<close> made the client and created them; before that nothing is
  called. A connection thread runs once.
\<close>

fun run_callback :: "bool \<Rightarrow> world \<Rightarrow> nat \<Rightarrow> callback \<Rightarrow> node \<Rightarrow> (node_effect list \<times> node) res" where
  "run_callback d w now (On_configure a sa p share) nd = handle_on_configure w now a sa p share nd"
| "run_callback d w now (On_shutdown a) nd = handle_on_shutdown now a nd"
| "run_callback d w now (On_parameters u) nd =
     Inr ([], if radio_client nd = None then nd else snd (parameter_update_callback u nd))"
| "run_callback d w now (On_outbound a m) nd =
     (if radio_client nd = None then Inr ([], nd) else onOutboundMessage now a m nd)"
| "run_callback d w now (On_send_service a m) nd =
     (if radio_client nd = None then Inr ([], nd)
      else bind_res (sendMessageSrv now a m nd) (\<lambda>(status, es, nd'). Inr (es, nd')))"
| "run_callback d w now (On_reconnect_service a) nd =
     (if radio_client nd = None then Inr ([], nd)
      else bind_res (reconnectSrv now a nd) (\<lambda>(response, es, nd'). Inr (es, nd')))"
| "run_callback d w now (Connection_thread a) nd =
     (if conn_thread nd = Pending then connect_body now a nd else Inr ([], nd))"
| "run_callback d w now (Network e) nd =
     (if radio_client nd = None \<or> \<not> network_runs d e nd then Inr ([], nd) else node_net w now e nd)"

text \<open>A run takes the time of each callback with it.\<close>

fun run_callbacks :: "bool \<Rightarrow> world \<Rightarrow> (nat \<times> callback) list \<Rightarrow> node \<Rightarrow> (node_effect list \<times> node) res" where
  "run_callbacks d w [] nd = Inr ([], nd)"
| "run_callbacks d w ((now, cb) # cbs) nd =
     bind_res (run_callback d w now cb nd) (\<lambda>(es, nd1).
     bind_res (run_callbacks d w cbs nd1) (\<lambda>(fs, nd2). Inr (es @ fs, nd2)))"

section \<open>Destruction and the program\<close>

text \<open>
  \<open>Node\<close> declares no destructor: its members are destroyed, last declared first, so the client before the
  thread object. Destroying a thread object that was not joined ends the program, whether its function has
  returned or not.
\<close>

definition node_destruct :: "node \<Rightarrow> (node_effect list \<times> int) res" where
  "node_destruct nd =
     bind_res (radio_destruct (lib_refs nd) (radio_client nd)) (\<lambda>(es, refs).
       if conn_thread nd = No_thread_object then Inr (map Radio es, refs) else Inl Terminated)"

text \<open>\<open>main\<close>: the node is constructed, the executor spins, the node is destroyed and 0 returned.\<close>

definition main_run :: "bool \<Rightarrow> world \<Rightarrow> params \<Rightarrow> (nat \<times> callback) list \<Rightarrow> (int \<times> node_effect list) res" where
  "main_run d w p cbs =
     bind_res (run_callbacks d w cbs (node_construct p)) (\<lambda>(es, nd).
     bind_res (node_destruct nd) (\<lambda>(fs, refs). Inr (0, es @ fs)))"

section \<open>The client's part of the invariant\<close>

fun radio_inv :: "bool \<Rightarrow> radio \<Rightarrow> bool" where
  "radio_inv d (Udp c) \<longleftrightarrow> wf_udp c \<and> wf_base c"
| "radio_inv d (Mqtt c) \<longleftrightarrow> wf_base c \<and> (d \<longrightarrow> wf_mqtt c)"

fun radio_refs :: "radio \<Rightarrow> int" where
  "radio_refs (Udp c) = 0"
| "radio_refs (Mqtt c) = 1"

text \<open>What an operation leaves: the invariant, and a client of the same class.\<close>

definition radio_keeps :: "bool \<Rightarrow> radio \<Rightarrow> radio \<Rightarrow> bool" where
  "radio_keeps d r r' \<longleftrightarrow> (radio_inv d r \<longrightarrow> radio_inv d r') \<and> radio_refs r' = radio_refs r"

lemma radio_keeps_refl [simp, intro]: "radio_keeps d r r"
  by (simp add: radio_keeps_def)

lemma wf_base_udp_update [simp]:
  "wf_base (c\<lparr>udp_listener := l\<rparr>) = wf_base c" "wf_base (c\<lparr>io_tasks := ts\<rparr>) = wf_base c"
  "wf_base (c\<lparr>io_thread := t\<rparr>) = wf_base c" "wf_base (c\<lparr>udp_running := b\<rparr>) = wf_base c"
  "wf_base (c\<lparr>udp_out_socket := x\<rparr>) = wf_base c" "wf_base (c\<lparr>work := x\<rparr>) = wf_base c"
  "wf_base (c\<lparr>io_stopped := b\<rparr>) = wf_base c" "wf_base (reset_client n ep c) = wf_base c"
  "wf_base (started_client n lp ep c) = wf_base c"
  by (simp_all add: wf_base_def started_client_def)

lemma wf_base_udp_init [simp]: "wf_base udp_init"
  by (simp add: wf_base_def udp_init_def)

lemma wf_base_end_result: "end_result n lp ep c e = (out, ec', es, c') \<Longrightarrow> wf_base c' = wf_base c"
  by (cases e) auto

lemma wf_base_udp_connect:
  assumes "wf_udp c" "udp_connect a n ra rp lp ec c = Inr (out, ec', es, c')"
  shows "wf_base c' = wf_base c"
proof (cases "udp_running c")
  case False
  note eq = udp_connect_eq [OF assms(1) False]
  from assms(2) obtain r where r: "remote_endpoint a ra rp ec = Inr r" unfolding eq by (auto simp: bind_res_eq_Inr)
  with assms(2) show ?thesis unfolding eq
    by (cases r) (auto dest: wf_base_end_result split: prod.splits)
qed (use assms in auto)

lemma wf_base_udp_close: "udp_close c = Inr (es, c') \<Longrightarrow> wf_base c' = wf_base c"
  by (auto simp: udp_close_def bind_res_eq_Inr split: if_splits)

lemma wf_base_udp_event:
  assumes "udp_event_step w e c = Inr (acc, es, c')" "wf_base c" "wf_udp c"
  shows "wf_base c'"
proof (cases e)
  case (Ev_send p m)
  with assms show ?thesis by (auto simp: udp_send_total split: if_splits)
next
  case (Ev_turn r)
  have "wf_base c1" if "io_turn w r c = Inr (fs, c1)" for fs c1
    using that assms(2) by (auto simp: io_turn_def bind_res_eq_Inr dest: process_wf split: list.splits task.splits)
  with Ev_turn assms show ?thesis by (auto simp: bind_res_eq_Inr split: if_splits)
next
  case (Ev_receive ec avail recv)
  with assms show ?thesis by (auto simp: io_receive_def bind_res_eq_Inr split: if_splits)
qed

lemma radio_connect_inv:
  assumes "radio_inv d r" "radio_connect a ra rp lp ec r = Inr (out, ec', es, r')"
  shows "radio_keeps d r r'"
proof (cases r)
  case (Udp c)
  with assms obtain c' where "udp_connect (udp_side a) (io_id a) ra rp lp ec c = Inr (out, ec', es, c')" "r' = Udp c'"
    by (auto simp: bind_res_eq_Inr udp_conn_def)
  with Udp assms(1) show ?thesis
    by (auto simp: radio_keeps_def wf_base_udp_connect dest: udp_connect_wf)
next
  case (Mqtt c)
  with assms obtain c' where c': "mqtt_connect (mqtt_side a) ra rp lp ec c = Inr (out, ec', es, c')" "r' = Mqtt c'"
    by (auto simp: bind_res_eq_Inr)
  with Mqtt assms(1) show ?thesis
    using mqtt.connect_keeps [OF _ c'(1)] by (auto simp: radio_keeps_def dest: wf_base_mqtt_connect)
qed

lemma radio_close_inv:
  assumes "radio_inv d r" "radio_close r = Inr (es, r')"
  shows "radio_keeps d r r' \<and> (d \<longrightarrow> \<not> radio_connected r')"
proof (cases r)
  case (Udp c)
  with assms obtain c' where c': "udp_close c = Inr (es, c')" "r' = Udp c'" by (auto simp: bind_res_eq_Inr)
  with Udp assms(1) show ?thesis
    using udp.close_result [OF _ c'(1)] wf_base_udp_close [OF c'(1)] by (auto simp: radio_keeps_def)
next
  case (Mqtt c)
  with assms have c': "mqtt_cls c = Inr (es, snd (mqtt_close c))" "r' = Mqtt (snd (mqtt_close c))"
    by (cases "mqtt_close c"; auto simp: bind_res_eq_Inr mqtt_cls_def)+
  with Mqtt assms(1) show ?thesis
    using mqtt.close_result [OF _ c'(1)] by (auto simp: radio_keeps_def)
qed

lemma radio_send_inv:
  assumes "radio_inv d r" "radio_send a m r = Inr (b, es, r')"
  shows "radio_keeps d r r'"
proof (cases r)
  case (Udp c)
  with assms show ?thesis
    by (auto simp: bind_res_eq_Inr udp_sendf_def udp_send_total radio_keeps_def split: if_splits)
next
  case (Mqtt c)
  with assms(2) have "r' = r" by (auto simp: bind_res_eq_Inr mqtt_sendf_def)
  then show ?thesis by simp
qed

lemma net_step_inv:
  assumes "radio_inv d r" "net_step w e r = Inr (es, r')"
    "\<And>c. r = Mqtt c \<Longrightarrow> d \<Longrightarrow> mosq c \<noteq> None \<or> (\<exists>u. e = Udp_net u)"
  shows "radio_keeps d r r'"
proof (cases r)
  case (Udp c)
  show ?thesis
  proof (cases e)
    case (Udp_net u)
    with Udp assms(2) obtain acc c' where "udp_event_step w u c = Inr (acc, es, c')" "r' = Udp c'"
      by (auto simp: bind_res_eq_Inr)
    with Udp assms(1) show ?thesis
      by (auto simp: radio_keeps_def dest: udp_event_step_result wf_base_udp_event)
  qed (use Udp assms(2) in auto)
next
  case (Mqtt c)
  show ?thesis
  proof (cases e)
    case (Mqtt_message m)
    with Mqtt assms(2) obtain c' where c': "handleMessage w m c = Inr (es, c')" "r' = Mqtt c'"
      by (auto simp: bind_res_eq_Inr)
    with Mqtt show ?thesis
      using handleMessage_result(1,2) [OF c'(1)] wf_base_handleMessage [OF c'(1)]
      by (auto simp: radio_keeps_def wf_mqtt_def)
  qed (use Mqtt assms in \<open>auto simp: radio_keeps_def wf_mqtt_def handleConnect_def handleDisconnect_def Let_def
         split: if_splits\<close>)
qed


section \<open>The invariant of the node\<close>

text \<open>
  The outbound queue is empty between callbacks; \<open>connecting_\<close> is set only while a connection thread has
  not done its work; there is a client as soon as there is a thread; \<open>b\<close> tells whether both slots are connected to
  it, which they are but for a part of \<open>handle_on_configure\<close>; the library's counter is the number of MQTT
  clients.
\<close>

definition node_inv :: "bool \<Rightarrow> bool \<Rightarrow> node \<Rightarrow> bool" where
  "node_inv d b nd \<longleftrightarrow> send_msg_queue nd = [] \<and> (connecting nd \<longrightarrow> conn_thread nd = Pending) \<and>
     (case radio_client nd of
        None \<Rightarrow> conn_thread nd = No_thread_object \<and> lib_refs nd = 0 \<and> radio_client_error nd = Success
      | Some r \<Rightarrow> radio_inv d r \<and> lib_refs nd = radio_refs r \<and> error_slot nd = b \<and> message_slot nd = b)"

text \<open>Signals change nothing of the node but the stored error.\<close>

lemma dispatch_keeps: "dispatch now es nd = (fs, nd') \<Longrightarrow> \<exists>e. nd' = nd\<lparr>radio_client_error := e\<rparr>"
proof (induction now es nd arbitrary: fs nd' rule: dispatch.induct)
  case (1 now nd)
  then show ?case by (auto intro: exI [of _ "radio_client_error nd"])
next
  case (2 now s es nd)
  obtain f1 n1 f2 n2 where s: "run_slots now s nd = (f1, n1)" "dispatch now es n1 = (f2, n2)"
    by (metis prod.exhaust)
  have "\<exists>e. n1 = nd\<lparr>radio_client_error := e\<rparr>"
    using s(1) by (cases s) (auto intro: exI [of _ "radio_client_error nd"] split: if_splits)
  moreover have "nd' = n2" using 2(2) s by simp
  ultimately show ?case using 2(1) [OF s(1) [symmetric] refl] s(2) by auto
qed (auto split: prod.splits)

text \<open>
  A change of the client by an operation of it, with the signals it emitted, and of the fields the
  invariant does not speak of.
\<close>

definition node_moves :: "bool \<Rightarrow> node \<Rightarrow> node \<Rightarrow> bool" where
  "node_moves d nd nd' \<longleftrightarrow>
     (\<exists>r r' e. radio_client nd = Some r \<and> radio_keeps d r r' \<and>
        nd' = nd\<lparr>radio_client := Some r', radio_client_error := e\<rparr>)"

lemma node_moves_inv:
  assumes "node_moves d nd nd'" "node_inv d b nd"
  shows "node_inv d b nd'" "radio_client nd' \<noteq> None" "conn_thread nd' = conn_thread nd"
    "connecting nd' = connecting nd" "config nd' = config nd"
  using assms by (auto simp: node_moves_def node_inv_def radio_keeps_def)

lemma dispatch_moves:
  assumes "radio_client nd = Some r" "radio_keeps d r r'" "dispatch now es (nd\<lparr>radio_client := Some r'\<rparr>) = (fs, nd')"
  shows "node_moves d nd nd'"
  using dispatch_keeps [OF assms(3)] assms(1,2) by (auto simp: node_moves_def)

lemma node_inv_client: "node_inv d b nd \<Longrightarrow> radio_client nd = Some r \<Longrightarrow> radio_inv d r"
  by (simp add: node_inv_def)

lemma close_radio_moves:
  assumes "node_inv d b nd" "close_radio now nd = Inr (es, nd')"
  shows "node_moves d nd nd'"
proof -
  from assms(2) obtain r fs r' where r: "radio_client nd = Some r" "radio_close r = Inr (fs, r')"
    and d: "dispatch now fs (nd\<lparr>radio_client := Some r'\<rparr>) = (es, nd')"
    by (auto simp: close_radio_def radio_of_def bind_res_eq_Inr)
  from radio_close_inv [OF node_inv_client [OF assms(1) r(1)] r(2)] have "radio_keeps d r r'" by simp
  with r(1) show ?thesis using d by (rule dispatch_moves)
qed

text \<open>Where the connection thread connects to: address, remote port and local port.\<close>

definition connect_target :: "config \<Rightarrow> string \<times> 16 word \<times> 16 word" where
  "connect_target c =
     (if protocol c = ''mqtt'' then (broker_addr c, to_ushort (cfg_broker_port c), 0)
      else (v2x_radio_address c, to_ushort (v2x_radio_listening_port c), to_ushort (listening_port c)))"

lemma connect_body_target:
  assumes "radio_client nd = Some r" "connect_target (config nd) = (ra, rp, lp)"
  shows "connect_body now a nd =
    bind_res (radio_connect a ra rp lp Success r) (\<lambda>(out, ec, es, r').
      let (fs, nd1) = dispatch now es (nd\<lparr>radio_client := Some r'\<rparr>)
      in Inr (fs, nd1\<lparr>connecting := False, conn_thread := Done\<rparr>))"
  using assms by (auto simp: connect_body_def connect_target_def split: if_splits)

lemma connect_bodyE:
  assumes "connect_body now a nd = Inr (es, nd')"
  obtains r ra rp lp out ec fs r' nd1 where "radio_client nd = Some r"
    "radio_connect a ra rp lp Success r = Inr (out, ec, fs, r')"
    "dispatch now fs (nd\<lparr>radio_client := Some r'\<rparr>) = (es, nd1)"
    "nd' = nd1\<lparr>connecting := False, conn_thread := Done\<rparr>"
proof -
  obtain r where r: "radio_client nd = Some r"
    using assms by (cases "radio_client nd") (auto simp: connect_body_def)
  obtain ra rp lp where t: "connect_target (config nd) = (ra, rp, lp)" by (cases "connect_target (config nd)")
  from assms obtain out ec fs r' where conn: "radio_connect a ra rp lp Success r = Inr (out, ec, fs, r')"
    by (auto simp: connect_body_target [OF r t] bind_res_eq_Inr)
  obtain gs nd1 where "dispatch now fs (nd\<lparr>radio_client := Some r'\<rparr>) = (gs, nd1)" by fastforce
  with assms conn that [OF r conn, of nd1] show ?thesis by (simp add: connect_body_target [OF r t])
qed

lemma connect_body_inv:
  assumes "node_inv d b nd" "connect_body now a nd = Inr (es, nd')"
  shows "node_inv d b nd'" "conn_thread nd' = Done" "radio_client nd' \<noteq> None" "\<not> connecting nd'"
proof -
  from assms(2) obtain r ra rp lp out ec fs r' nd1 where r: "radio_client nd = Some r"
    and conn: "radio_connect a ra rp lp Success r = Inr (out, ec, fs, r')"
    and d: "dispatch now fs (nd\<lparr>radio_client := Some r'\<rparr>) = (es, nd1)"
    and nd': "nd' = nd1\<lparr>connecting := False, conn_thread := Done\<rparr>"
    by (rule connect_bodyE)
  have keeps: "radio_keeps d r r'" using radio_connect_inv [OF node_inv_client [OF assms(1) r] conn] .
  from node_moves_inv [OF dispatch_moves [OF r keeps d] assms(1)]
  have "node_inv d b nd1" "radio_client nd1 \<noteq> None" by simp_all
  then show "node_inv d b nd'" "conn_thread nd' = Done" "radio_client nd' \<noteq> None" "\<not> connecting nd'"
    unfolding nd' by (auto simp: node_inv_def)
qed

lemma join_thread_inv:
  assumes "node_inv d b nd" "join_thread now a nd = Inr (es, nd')"
  shows "node_inv d b nd'" "conn_thread nd' \<noteq> Pending" "radio_client nd' = None \<longleftrightarrow> radio_client nd = None"
  using assms connect_body_inv [of d b nd now a es nd']
  by (auto simp: join_thread_def node_inv_def split: thread_state.splits)

text \<open>\<open>pre_spin\<close> closes the client after an error, and starts a thread unless it gives up before.\<close>

lemma pre_spinE:
  assumes "pre_spin now a nd = Inr (es, nd')"
  obtains nd1 where
    "nd1 = nd \<or> (\<exists>fs n. close_radio now nd = Inr (fs, n) \<and> nd1 = n\<lparr>radio_client_error := Success\<rparr>)"
    "nd' = nd1 \<or> (\<exists>gs nd2. join_thread now a (nd1\<lparr>connecting := True\<rparr>) = Inr (gs, nd2) \<and>
       nd' = nd2\<lparr>conn_thread := Pending\<rparr>)"
proof -
  have rest: "nd' = nd1 \<or> (\<exists>gs nd2. join_thread now a (nd1\<lparr>connecting := True\<rparr>) = Inr (gs, nd2) \<and>
       nd' = nd2\<lparr>conn_thread := Pending\<rparr>)"
    if "(if connecting nd1 then Inr (fs, nd1)
          else bind_res (radio_of nd1) (\<lambda>r.
            if radio_connected r then Inr (fs, nd1)
            else bind_res (join_thread now a (nd1\<lparr>connecting := True\<rparr>)) (\<lambda>(gs, nd2).
              Inr (fs @ gs, nd2\<lparr>conn_thread := Pending\<rparr>)))) = Inr (es, nd')" for nd1 fs
    using that by (auto simp: bind_res_eq_Inr split: if_splits)
  show ?thesis
  proof (cases "is_error (radio_client_error nd)")
    case True
    with assms obtain fs n where close: "close_radio now nd = Inr (fs, n)"
      by (auto simp: pre_spin_def bind_res_eq_Inr)
    show ?thesis
    proof (rule that)
      show "n\<lparr>radio_client_error := Success\<rparr> = nd \<or> (\<exists>fs m. close_radio now nd = Inr (fs, m) \<and>
          n\<lparr>radio_client_error := Success\<rparr> = m\<lparr>radio_client_error := Success\<rparr>)"
        using close by blast
      show "nd' = n\<lparr>radio_client_error := Success\<rparr> \<or>
          (\<exists>gs nd2. join_thread now a (n\<lparr>radio_client_error := Success, connecting := True\<rparr>) = Inr (gs, nd2) \<and>
            nd' = nd2\<lparr>conn_thread := Pending\<rparr>)"
        using True assms close rest [of "n\<lparr>radio_client_error := Success\<rparr>" fs] by (simp add: pre_spin_def)
    qed
  next
    case False
    with assms rest [of nd "[]"] that [of nd] show ?thesis by (simp add: pre_spin_def)
  qed
qed

text \<open>
  After \<open>pre_spin\<close> the node has a thread object: it starts one unless a connection is being made or
  there is one already.
\<close>

lemma pre_spin_inv:
  assumes "node_inv d b nd" "radio_client nd \<noteq> None" "pre_spin now a nd = Inr (es, nd')"
  shows "node_inv d b nd'" "radio_client nd' \<noteq> None"
    "conn_thread nd \<noteq> No_thread_object \<Longrightarrow> conn_thread nd' \<noteq> No_thread_object"
proof -
  from assms(3) obtain nd1 where
    first: "nd1 = nd \<or> (\<exists>fs n. close_radio now nd = Inr (fs, n) \<and> nd1 = n\<lparr>radio_client_error := Success\<rparr>)"
    and last: "nd' = nd1 \<or> (\<exists>gs nd2. join_thread now a (nd1\<lparr>connecting := True\<rparr>) = Inr (gs, nd2) \<and>
       nd' = nd2\<lparr>conn_thread := Pending\<rparr>)"
    by (rule pre_spinE)
  have nd1: "node_inv d b nd1 \<and> radio_client nd1 \<noteq> None \<and> conn_thread nd1 = conn_thread nd"
    using first
  proof (elim disjE exE conjE)
    fix fs n assume c: "close_radio now nd = Inr (fs, n)" and n: "nd1 = n\<lparr>radio_client_error := Success\<rparr>"
    from node_moves_inv [OF close_radio_moves [OF assms(1) c] assms(1)] n show ?thesis by (auto simp: node_inv_def)
  qed (use assms(1,2) in simp)
  have started: "node_inv d b (nd2\<lparr>conn_thread := Pending\<rparr>) \<and> radio_client nd2 \<noteq> None"
    if join: "join_thread now a (nd1\<lparr>connecting := True\<rparr>) = Inr (gs, nd2)" for gs nd2
  proof (cases "conn_thread nd1 = Pending")
    case True
    then have "node_inv d b (nd1\<lparr>connecting := True\<rparr>)" using nd1
      by (cases "radio_client nd1") (simp_all add: node_inv_def)
    with join_thread_inv [OF _ join] nd1 show ?thesis by (auto simp: node_inv_def split: option.splits)
  next
    case False
    with join have "nd2 = nd1\<lparr>connecting := True\<rparr>"
      by (cases "conn_thread nd1") (simp_all add: join_thread_def)
    with nd1 show ?thesis by (auto simp: node_inv_def)
  qed
  show "node_inv d b nd'" "radio_client nd' \<noteq> None"
    "conn_thread nd \<noteq> No_thread_object \<Longrightarrow> conn_thread nd' \<noteq> No_thread_object"
    using last nd1 started by auto
qed


section \<open>Every callback keeps it\<close>

lemma radio_destruct_refs:
  "radio_destruct n (Some r) = Inr (es, m) \<Longrightarrow> m = n - radio_refs r"
  by (cases r) (auto simp: radio_destruct_def mqtt_destruct_def bind_res_eq_Inr)

lemma new_radio_fresh:
  assumes "new_radio nd = (es, refs, r)"
  shows "radio_inv d r" "\<not> radio_connected r" "refs = lib_refs nd + radio_refs r" "emitted es = []"
  using assms
  by (auto simp: new_radio_def mqtt_construct_def wf_mqtt_def split: if_splits)

lemma createRadioClient_inv:
  assumes "node_inv d b nd" "createRadioClient now nd = Inr (es, nd')"
  shows "node_inv d False nd' \<and> conn_thread nd' = conn_thread nd \<and>
    (\<exists>r. radio_client nd' = Some r \<and> \<not> radio_connected r) \<and>
    (radio_client nd = None \<longrightarrow> radio_client_error nd' = Success)"
proof -
  obtain cs refs r where new: "new_radio nd = (cs, refs, r)" by (cases "new_radio nd")
  note fresh = new_radio_fresh [OF new]
  from assms(2) new obtain ds refs' where ds: "radio_destruct refs (radio_client nd) = Inr (ds, refs')"
    by (auto simp: createRadioClient_def bind_res_eq_Inr)
  obtain fs nd1 where d: "dispatch now (cs @ ds) nd = (fs, nd1)" by fastforce
  from assms(2) new ds d have nd': "nd' = nd1\<lparr>radio_client := Some r, lib_refs := refs', error_slot := False, message_slot := False\<rparr>"
    by (simp add: createRadioClient_def)
  obtain e where nd1: "nd1 = nd\<lparr>radio_client_error := e\<rparr>" using dispatch_keeps [OF d] by blast
  have "refs' = radio_refs r \<and> (radio_client nd = None \<longrightarrow> e = Success)"
  proof (cases "radio_client nd")
    case None
    with ds have "ds = []" "refs' = refs" by (simp_all add: radio_destruct_def)
    with d fresh(4) have "nd1 = nd" by (simp add: dispatch_quiet)
    with nd1 have "radio_client_error nd = radio_client_error (nd\<lparr>radio_client_error := e\<rparr>)" by metis
    then have "radio_client_error nd = e" by simp
    with None \<open>refs' = refs\<close> fresh(3) assms(1) show ?thesis by (simp add: node_inv_def)
  next
    case (Some q)
    with ds radio_destruct_refs [of refs q ds refs'] fresh(3) assms(1) show ?thesis by (simp add: node_inv_def)
  qed
  with nd' nd1 fresh(1,2) assms(1) show ?thesis by (auto simp: node_inv_def split: option.splits)
qed

lemma node_inv_config [simp]: "node_inv d b (nd\<lparr>config := c\<rparr>) = node_inv d b nd"
  by (cases "radio_client nd") (simp_all add: node_inv_def)

lemma pre_spin_starts:
  assumes "node_inv d b nd" "radio_client nd = Some r" "\<not> radio_connected r" "radio_client_error nd = Success"
    "pre_spin now a nd = Inr (es, nd')"
  shows "conn_thread nd' = Pending"
  using assms by (auto simp: pre_spin_def bind_res_eq_Inr node_inv_def split: if_splits)

lemma radio_set_path_keeps: "radio_keeps d r (radio_set_path p r)"
  by (cases r) (auto simp: radio_keeps_def wf_mqtt_def)

lemma sendMessageFromQueue_empty: "send_msg_queue nd = [] \<Longrightarrow> sendMessageFromQueue now a nd = Inr ([], nd)"
  by (simp add: sendMessageFromQueue_def)

lemma handle_on_configure_inv:
  assumes "node_inv d True nd" "handle_on_configure w now a sa p share nd = Inr (es, nd')"
  shows "node_inv d True nd'" "radio_client nd' \<noteq> None"
    "radio_client nd = None \<or> conn_thread nd \<noteq> No_thread_object \<Longrightarrow> conn_thread nd' \<noteq> No_thread_object"
proof -
  let ?nd0 = "nd\<lparr>config := read_config p default_config\<rparr>"
  from assms(2) obtain e1 nd1 e2 nd2 items path r where create: "createRadioClient now ?nd0 = Inr (e1, nd1)"
    and spin: "pre_spin now a nd1 = Inr (e2, nd2)" and r: "radio_client nd2 = Some r"
    and send: "\<exists>gs. sendMessageFromQueue now sa
         (nd2\<lparr>wave_cfg_items := items, radio_client := Some (radio_set_path path r),
             radio_client_error := Success, error_slot := True, message_slot := True\<rparr>) = Inr (gs, nd')"
    by (auto simp: handle_on_configure_def bind_res_eq_Inr radio_of_def split: option.splits) metis
  have nd1: "node_inv d False nd1" "conn_thread nd1 = conn_thread nd" "radio_client nd1 \<noteq> None"
    "radio_client nd = None \<Longrightarrow> conn_thread nd2 = Pending"
    using createRadioClient_inv [of d True ?nd0 now e1 nd1] create assms(1) pre_spin_starts [OF _ _ _ _ spin]
    by (auto 0 3)
  note nd2 = pre_spin_inv [OF nd1(1,3) spin]
  have "send_msg_queue nd2 = []" using nd2(1) by (simp add: node_inv_def)
  with send have nd': "nd' = nd2\<lparr>wave_cfg_items := items, radio_client := Some (radio_set_path path r),
             radio_client_error := Success, error_slot := True, message_slot := True\<rparr>"
    by (auto simp: sendMessageFromQueue_empty)
  show "node_inv d True nd'" "radio_client nd' \<noteq> None"
    using nd2(1) r radio_set_path_keeps [of d r path] by (auto simp: nd' node_inv_def radio_keeps_def)
  show "conn_thread nd' \<noteq> No_thread_object" if "radio_client nd = None \<or> conn_thread nd \<noteq> No_thread_object"
    using that nd1(2,4) nd2(3) by (auto simp: nd')
qed


text \<open>The rest of the callbacks keep the thread object, but for the shutdown.\<close>

lemma onOutboundMessage_inv:
  assumes "node_inv d b nd" "onOutboundMessage now a m nd = Inr (es, nd')"
  shows "node_inv d b nd' \<and> conn_thread nd' = conn_thread nd \<and> radio_client nd' \<noteq> None"
proof -
  obtain r where r: "radio_client nd = Some r"
    using assms(2) by (cases "radio_client nd") (auto simp: onOutboundMessage_def)
  have empty: "send_msg_queue nd = []" using assms(1) by (simp add: node_inv_def)
  show ?thesis
  proof (cases "radio_connected r")
    case True
    with assms(2) r empty obtain ct x fs r' where send: "radio_send a ct r = Inr (x, fs, r')"
      and nd': "\<exists>gs nd1. dispatch now fs (nd\<lparr>send_msg_queue := [ct], radio_client := Some r'\<rparr>) = (gs, nd1) \<and>
        nd' = nd1\<lparr>send_msg_queue := []\<rparr>"
      by (auto simp: onOutboundMessage_def sendMessageFromQueue_def radio_of_def bind_res_eq_Inr case_prod_beta)
        (metis prod.collapse)
    then obtain e where "nd' = nd\<lparr>send_msg_queue := [ct], radio_client := Some r', radio_client_error := e, send_msg_queue := []\<rparr>"
      using dispatch_keeps by blast
    with radio_send_inv [OF node_inv_client [OF assms(1) r] send] assms(1) r show ?thesis
      by (simp add: node_inv_def radio_keeps_def)
  qed (use assms r in \<open>simp add: onOutboundMessage_def\<close>)
qed

lemma sendMessageSrv_inv:
  assumes "node_inv d b nd" "sendMessageSrv now a m nd = Inr (status, es, nd')"
  shows "node_inv d b nd' \<and> conn_thread nd' = conn_thread nd \<and> radio_client nd' \<noteq> None"
proof -
  obtain r where r: "radio_client nd = Some r"
    using assms(2) by (cases "radio_client nd") (auto simp: sendMessageSrv_def)
  show ?thesis
  proof (cases "radio_connected r")
    case True
    with assms(2) r obtain ct x fs r' where send: "radio_send a ct r = Inr (x, fs, r')"
      and d: "dispatch now fs (nd\<lparr>radio_client := Some r'\<rparr>) = (es, nd')"
      by (auto simp: sendMessageSrv_def bind_res_eq_Inr split: prod.splits)
    from radio_send_inv [OF node_inv_client [OF assms(1) r] send] have "radio_keeps d r r'" .
    from node_moves_inv [OF dispatch_moves [OF r this d] assms(1)] show ?thesis by simp
  qed (use assms r in \<open>simp add: sendMessageSrv_def\<close>)
qed

lemma reconnectSrv_inv:
  assumes "node_inv d b nd" "reconnectSrv now a nd = Inr (response, es, nd')"
  shows "node_inv d b nd' \<and> radio_client nd' \<noteq> None \<and>
    (conn_thread nd \<noteq> No_thread_object \<longrightarrow> conn_thread nd' \<noteq> No_thread_object)"
proof -
  from assms(2) obtain e1 nd1 e2 where c: "close_radio now nd = Inr (e1, nd1)"
    and spin: "pre_spin now a (nd1\<lparr>radio_client_error := Success, connecting := False\<rparr>) = Inr (e2, nd')"
    by (auto simp: reconnectSrv_def bind_res_eq_Inr)
  note nd1 = node_moves_inv [OF close_radio_moves [OF assms(1) c] assms(1)]
  have "node_inv d b (nd1\<lparr>radio_client_error := Success, connecting := False\<rparr>)"
    using nd1(1) by (auto simp: node_inv_def split: option.splits)
  from pre_spin_inv [OF this _ spin] nd1(2,3) show ?thesis by simp
qed

lemma handle_on_shutdown_inv:
  assumes "node_inv d b nd" "handle_on_shutdown now a nd = Inr (es, nd')"
  shows "node_inv d b nd' \<and> conn_thread nd' = No_thread_object \<and> (radio_client nd' = None \<longleftrightarrow> radio_client nd = None)"
proof -
  from assms(2) obtain e1 nd1 where join: "join_thread now a nd = Inr (e1, nd1)"
    and rest: "(case radio_client nd1 of
         None \<Rightarrow> Inr (e1, nd1\<lparr>conn_thread := No_thread_object\<rparr>)
       | Some r \<Rightarrow> bind_res (close_radio now (nd1\<lparr>conn_thread := No_thread_object\<rparr>)) (\<lambda>(fs, nd3). Inr (e1 @ fs, nd3)))
      = Inr (es, nd')"
    by (auto simp: handle_on_shutdown_def bind_res_eq_Inr Let_def cong: option.case_cong)
  note nd1 = join_thread_inv [OF assms(1) join]
  have inv: "node_inv d b (nd1\<lparr>conn_thread := No_thread_object\<rparr>)"
    using nd1(1,2) by (cases "radio_client nd1") (auto simp: node_inv_def)
  show ?thesis
  proof (cases "radio_client nd1")
    case None
    with rest inv nd1(3) show ?thesis by auto
  next
    case (Some r)
    with rest obtain fs where "close_radio now (nd1\<lparr>conn_thread := No_thread_object\<rparr>) = Inr (fs, nd')"
      by (auto simp: bind_res_eq_Inr)
    from node_moves_inv [OF close_radio_moves [OF inv this] inv] nd1(3) Some show ?thesis by auto
  qed
qed

lemma node_net_inv:
  assumes "node_inv d b nd" "network_runs d e nd" "node_net w now e nd = Inr (es, nd')"
  shows "node_inv d b nd' \<and> conn_thread nd' = conn_thread nd \<and> radio_client nd' \<noteq> None"
proof -
  from assms(3) obtain r fs r' where r: "radio_client nd = Some r" and step: "net_step w e r = Inr (fs, r')"
    and d: "dispatch now fs (nd\<lparr>radio_client := Some r'\<rparr>) = (es, nd')"
    by (auto simp: node_net_def radio_of_def bind_res_eq_Inr)
  have "mosq c \<noteq> None \<or> (\<exists>u. e = Udp_net u)" if "r = Mqtt c" d for c
    using that assms(2) r by (cases e) auto
  with net_step_inv [OF node_inv_client [OF assms(1) r] step] have "radio_keeps d r r'" by blast
  from node_moves_inv [OF dispatch_moves [OF r this d] assms(1)] show ?thesis by simp
qed

section \<open>Runs\<close>

text \<open>A node that has a client has a thread object too, as long as it was not shut down.\<close>

definition unjoined :: "node \<Rightarrow> bool" where
  "unjoined nd \<longleftrightarrow> radio_client nd = None \<or> conn_thread nd \<noteq> No_thread_object"

fun is_shutdown :: "callback \<Rightarrow> bool" where
  "is_shutdown (On_shutdown a) = True"
| "is_shutdown _ = False"

lemma run_callback_inv:
  assumes "run_callback d w now cb nd = Inr (es, nd')" "node_inv d True nd"
  shows "node_inv d True nd' \<and> (unjoined nd \<and> \<not> is_shutdown cb \<longrightarrow> unjoined nd')"
proof (cases cb)
  case (On_configure a sa p share)
  with assms handle_on_configure_inv [of d nd w now a sa p share es nd'] show ?thesis by (auto simp: unjoined_def)
next
  case (On_shutdown a)
  with assms handle_on_shutdown_inv show ?thesis by simp
next
  case (On_parameters u)
  have "\<exists>c. snd (parameter_update_callback u nd) = nd\<lparr>config := c\<rparr>"
    by (auto simp: parameter_update_callback_def Let_def split: prod.split)
  with On_parameters assms show ?thesis by (auto simp: unjoined_def split: if_splits)
next
  case (On_outbound a m)
  with assms onOutboundMessage_inv [of d True nd now a m es nd'] show ?thesis
    by (auto simp: unjoined_def split: if_splits)
next
  case (On_send_service a m)
  with assms sendMessageSrv_inv [of d True nd now a m _ es nd'] show ?thesis
    by (auto simp: unjoined_def bind_res_eq_Inr split: if_splits)
next
  case (On_reconnect_service a)
  with assms reconnectSrv_inv [of d True nd now a _ es nd'] show ?thesis
    by (auto simp: unjoined_def bind_res_eq_Inr split: if_splits)
next
  case (Connection_thread a)
  with assms connect_body_inv [of d True nd now a es nd'] show ?thesis
    by (auto simp: unjoined_def split: if_splits)
next
  case (Network e)
  with assms node_net_inv [of d True nd e w now es nd'] show ?thesis
    by (auto simp: unjoined_def split: if_splits)
qed

lemma run_callbacks_inv:
  "run_callbacks d w cbs nd = Inr (es, nd') \<Longrightarrow> node_inv d True nd \<Longrightarrow>
   node_inv d True nd' \<and> (unjoined nd \<and> (\<forall>cb \<in> set cbs. \<not> is_shutdown (snd cb)) \<longrightarrow> unjoined nd')"
proof (induction cbs arbitrary: nd es)
  case (Cons tcb cbs)
  obtain now cb where tcb: "tcb = (now, cb)" by (cases tcb)
  with Cons.prems(1) obtain e1 nd1 e2 where "run_callback d w now cb nd = Inr (e1, nd1)"
    "run_callbacks d w cbs nd1 = Inr (e2, nd')"
    by (auto simp: bind_res_eq_Inr)
  with run_callback_inv [of d w now cb nd e1 nd1] Cons.IH [of nd1 e2] Cons.prems(2) tcb show ?case by auto
qed simp

lemma node_construct_inv [simp]: "node_inv d True (node_construct p)" "unjoined (node_construct p)"
  by (simp_all add: node_construct_def node_inv_def unjoined_def)

end
