(* ===== verification/Node_Ends.thy ===== *)
theory Node_Ends
  imports Node_Run
begin

text \<open>
  What holds of the node in every run of the process: its invariant, the failures an outbound message can
  lead to, what the reconnect service restores, and how the process ends.
\<close>

section \<open>The invariant\<close>

lemma run_inv:
  "run_callbacks d w cbs (node_construct p) = Inr (es, nd) \<Longrightarrow> node_inv d True nd"
  using run_callbacks_inv [of d w cbs "node_construct p" es nd] by simp

text \<open>
  C8: the state of the node after any callbacks in any order, with any messages, answers of the libraries,
  events of the network and parameters. No outbound message waits; \<open>connecting_\<close> is set only while a
  connection thread has still to run; without a client there is no thread; the node's slots are connected to
  the client it has; the count of library users is one for an MQTT client and zero for a UDP client; the
  identifier lists are parallel; the Asio objects of a UDP client are all there while it runs and belong
  to one \<open>io_service\<close>; an MQTT client that reports being connected holds a handle, provided no lost handle
  calls back.
\<close>

theorem node_invariant:
  assumes "run_callbacks d w cbs (node_construct p) = Inr (es, nd)"
  shows "send_msg_queue nd = [] \<and> (connecting nd \<longrightarrow> conn_thread nd = Pending) \<and>
    (case radio_client nd of
       None \<Rightarrow> conn_thread nd = No_thread_object \<and> lib_refs nd = 0
     | Some (Udp c) \<Rightarrow> error_slot nd \<and> message_slot nd \<and> lib_refs nd = 0 \<and> wf_base c \<and> wf_udp c
     | Some (Mqtt c) \<Rightarrow> error_slot nd \<and> message_slot nd \<and> lib_refs nd = 1 \<and> wf_base c \<and>
         (d \<longrightarrow> mqtt_connected c \<longrightarrow> mosq c \<noteq> None))"
  using run_inv [OF assms] by (auto simp: node_inv_def wf_mqtt_def split: option.split radio.split)

text \<open>A run for the witnesses: the node is configured for MQTT and its connection thread runs.\<close>

definition opt_world :: world where
  "opt_world = deployed_world ''/opt/etc/wave.json''"

lemma opt_world_sound [simp]: "validator_sound opt_world t"
  by (simp add: opt_world_def)

definition configure_call :: "params \<Rightarrow> nat \<times> callback" where
  "configure_call p = (0, On_configure no_answers any_answers p (Some ''/opt''))"

lemma run_configured:
  "\<exists>es nd. run_callbacks d opt_world [configure_call p] (node_construct p) = Inr (es, nd) \<and>
     conn_thread nd = Pending \<and> config nd = read_config p default_config \<and>
     radio_client nd = Some (fresh_radio (read_config p default_config) ''/opt/etc/wave.json'')"
  using configure_eq [of opt_world 0 no_answers any_answers p "''/opt''" p]
  by (simp add: configure_call_def configured_def)

theorem node_invariant_witness:
  "\<exists>es nd c. run_callbacks True opt_world [configure_call mqtt_params] (node_construct mqtt_params) = Inr (es, nd) \<and>
     radio_client nd = Some (Mqtt c) \<and> lib_refs nd = 1 \<and> message_slot nd"
proof -
  obtain es nd where run: "run_callbacks True opt_world [configure_call mqtt_params] (node_construct mqtt_params) = Inr (es, nd)"
    and r: "radio_client nd = Some (fresh_radio (read_config mqtt_params default_config) ''/opt/etc/wave.json'')"
    using run_configured by blast
  from node_invariant [OF run] r run show ?thesis by (simp add: fresh_radio_def)
qed

section \<open>Reconnecting over UDP\<close>

text \<open>Answers with which the UDP client of a configuration reaches the endpoint \<open>ep\<close>.\<close>

definition reaches :: "connect_answers \<Rightarrow> config \<Rightarrow> endpoint \<Rightarrow> bool" where
  "reaches a cfg ep \<longleftrightarrow>
     remote_endpoint (udp_side a) (v2x_radio_address cfg) (to_ushort (v2x_radio_listening_port cfg)) Success =
       Inr (Inr ep) \<and>
     listener_bind (udp_side a) (to_ushort (listening_port cfg)) = Value () \<and>
     socket_open (udp_side a) (ep_version ep) = Value () \<and> thread_create (udp_side a) = Value ()"

text \<open>What a client keeps of an earlier connection: the Asio objects a new one replaces.\<close>

definition keeps_asio :: "udp_client \<Rightarrow> bool" where
  "keeps_asio c \<longleftrightarrow> udp_listener c \<noteq> None \<or> udp_out_socket c \<noteq> None \<or> work c \<noteq> None"

text \<open>The \<open>io_service\<close> a connection makes is a new one.\<close>

definition new_service :: "nat \<Rightarrow> udp_client \<Rightarrow> bool" where
  "new_service n c \<longleftrightarrow> io c \<noteq> Some n \<and> udp_out_socket c \<noteq> Some n \<and> work c \<noteq> Some n"

text \<open>A connection that succeeds respects the order of Asio objects exactly when none is kept.\<close>

lemma running_lifetime:
  assumes "wf_udp c" "new_service n c"
  shows "lifetime_ok (set_option (io c)) (reset_effects n c @ [Listener_new n lp] @ start_effects n ep c @
      [Thread_start n, Emit OnConnect]) \<longleftrightarrow> \<not> keeps_asio c"
proof -
  have strand: "output_strand c = io c" using assms(1) by (simp add: wf_udp_def)
  show ?thesis
  proof (cases "udp_listener c")
    case (Some l)
    then have i: "io c = Some (lst_io l)" "n \<noteq> lst_io l" using assms by (auto simp: wf_udp_def new_service_def)
    with Some strand show ?thesis
      by (simp add: keeps_asio_def reset_effects_def deleted_listener_def)
  next
    case None
    with assms(2) strand show ?thesis
      by (cases "io c"; cases "udp_out_socket c"; cases "work c")
        (auto simp: keeps_asio_def new_service_def reset_effects_def start_effects_def)
  qed
qed

lemma udp_connect_reaches:
  assumes "reaches a cfg ep" "wf_udp c" "\<not> udp_running c" "new_service (io_id a) c"
  obtains es c' where
    "udp_connect (udp_side a) (io_id a) (v2x_radio_address cfg) (to_ushort (v2x_radio_listening_port cfg))
       (to_ushort (listening_port cfg)) Success c = Inr (Returned True, Success, es, c')"
    "udp_running c'" "waiting c'" "remote_udp_ep c' = ep" "set (emitted es) \<subseteq> {OnConnect}"
    "lifetime_ok (set_option (io c)) es \<longleftrightarrow> \<not> keeps_asio c"
proof -
  let ?lp = "to_ushort (listening_port cfg)"
  have run: "start_end (udp_side a) ?lp ep = Running"
    using assms(1) by (simp add: reaches_def start_end_Running)
  obtain out ec es c' where res: "end_result (io_id a) ?lp ep c Running = (out, ec, es, c')"
    by (cases "end_result (io_id a) ?lp ep c Running")
  have "udp_connect (udp_side a) (io_id a) (v2x_radio_address cfg) (to_ushort (v2x_radio_listening_port cfg)) ?lp
      Success c = Inr (out, ec, es, c')"
    using assms run res by (simp add: udp_connect_eq reaches_def del: end_result.simps)
  moreover have "lifetime_ok (set_option (io c)) es \<longleftrightarrow> \<not> keeps_asio c"
    using res running_lifetime [OF assms(2,4)] by auto
  ultimately show ?thesis using end_result_facts [OF res assms(3)] that by auto
qed

lemma connect_body_udp:
  assumes "radio_client nd = Some (Udp c)" "protocol (config nd) \<noteq> ''mqtt''" "wf_udp c" "\<not> udp_running c"
    "reaches a (config nd) ep" "new_service (io_id a) c"
  shows "\<exists>es c'. connect_body now a nd =
      Inr (map Radio es, nd\<lparr>radio_client := Some (Udp c'), connecting := False, conn_thread := Done\<rparr>) \<and>
    waiting c' \<and> udp_running c' \<and> remote_udp_ep c' = ep \<and>
    (lifetime_ok (set_option (io c)) es \<longleftrightarrow> \<not> keeps_asio c)"
proof -
  from udp_connect_reaches [OF assms(5,3,4,6)] obtain es c' where c:
    "udp_connect (udp_side a) (io_id a) (v2x_radio_address (config nd))
       (to_ushort (v2x_radio_listening_port (config nd))) (to_ushort (listening_port (config nd))) Success c =
     Inr (Returned True, Success, es, c')"
    "udp_running c'" "waiting c'" "remote_udp_ep c' = ep" "set (emitted es) \<subseteq> {OnConnect}"
    "lifetime_ok (set_option (io c)) es \<longleftrightarrow> \<not> keeps_asio c" by blast
  then have "set (emitted es) \<subseteq> {OnConnect, OnDisconnect}" by blast
  from dispatch_no_message [OF this] c assms(1,2) show ?thesis
    by (intro exI [of _ es] exI [of _ c']) (simp add: connect_body_def udp_conn_def)
qed

lemma connect_body_running:
  assumes "radio_client nd = Some (Udp c)" "udp_running c"
  shows "connect_body now a nd = Inr ([], nd\<lparr>connecting := False, conn_thread := Done\<rparr>)"
proof -
  have "nd\<lparr>radio_client := Some (Udp c)\<rparr> = nd" using assms(1) by (cases nd) simp
  with assms show ?thesis by (simp add: connect_body_def udp_conn_def)
qed

text \<open>Closing keeps the listener and the \<open>io_service\<close>.\<close>

lemma udp_close_asio:
  assumes "udp_close c = Inr (es, c')" "wf_udp c"
  shows "io c' = io c" "keeps_asio c' \<longleftrightarrow> keeps_asio c" "new_service n c \<Longrightarrow> new_service n c'"
  using assms by (auto simp: udp_close_def wf_udp_def keeps_asio_def new_service_def bind_res_eq_Inr split: if_splits)

lemma close_radio_udp:
  assumes "radio_client nd = Some (Udp c)" "wf_udp c"
  shows "\<exists>es c'. close_radio now nd = Inr (map Radio es, nd\<lparr>radio_client := Some (Udp c')\<rparr>) \<and>
    wf_udp c' \<and> \<not> udp_running c' \<and> udp_close c = Inr (es, c')"
proof -
  from udp.close_returns [OF assms(2)] obtain es c' where c: "udp_close c = Inr (es, c')" "wf_udp c'"
    "\<not> udp_running c'" "set (emitted es) \<subseteq> {OnDisconnect}" by blast
  then have "set (emitted es) \<subseteq> {OnConnect, OnDisconnect}" by blast
  from dispatch_no_message [OF this] c assms(1) show ?thesis
    by (intro exI [of _ es] exI [of _ c']) (simp add: close_radio_def)
qed

section \<open>A run for the witnesses\<close>

text \<open>
  The node is configured for UDP, its connection thread connects, and then reception ends with an error.
\<close>

definition udp_params :: params where
  "udp_params = \<lparr>int_param = (\<lambda>k. None), string_param = (\<lambda>k. None)\<rparr>"

lemma udp_params_config [simp]: "read_config udp_params default_config = default_config"
  by (simp add: udp_params_def read_config_def get_or_def)

lemma default_protocol [simp]: "protocol default_config = ''udp''"
  by (simp add: default_config_def)

definition deaf_run :: "(nat \<times> callback) list" where
  "deaf_run = [configure_call udp_params, (1, Connection_thread no_answers),
     (2, Network (Udp_net (Ev_receive No_memory (Value 0) (\<lambda>n. Inr []))))]"

lemma io_receive_error:
  assumes "waiting c"
  shows "\<exists>c'. io_receive No_memory avail recv c = Inr c' \<and> udp_running c' \<and> \<not> waiting c'"
  using assms by (auto simp: waiting_def io_receive_def handle_recv_udp_def Let_def is_error_def operation_aborted_def)

lemma ok_reaches: "reaches no_answers cfg (Endpoint V4 (v2x_radio_address cfg) (to_ushort (v2x_radio_listening_port cfg)))"
  by (simp add: reaches_def no_answers_def) (simp add: ok_udp_def)

lemma run_deaf:
  "\<exists>es nd c. run_callbacks True opt_world deaf_run (node_construct udp_params) = Inr (es, nd) \<and>
     radio_client nd = Some (Udp c) \<and> udp_running c \<and> \<not> waiting c \<and> config nd = default_config \<and>
     wave_cfg_items nd = deployed_items"
proof -
  obtain es nd where one: "run_callback True opt_world 0 (snd (configure_call udp_params)) (node_construct udp_params) = Inr (es, nd)"
    and nd: "conn_thread nd = Pending" "config nd = default_config" "wave_cfg_items nd = deployed_items"
    "radio_client nd = Some (Udp (set_wave_file_path ''/opt/etc/wave.json'' udp_init))"
    using configure_eq [of opt_world 0 no_answers any_answers udp_params "''/opt''" udp_params]
      deployed_entry_items [of "''/opt/etc/wave.json''"]
    by (simp add: configure_call_def configured_def fresh_radio_def opt_world_def)
  have "\<not> udp_running (set_wave_file_path ''/opt/etc/wave.json'' udp_init)"
    by (simp add: set_wave_file_path_def udp_init_def)
  moreover have "new_service (io_id no_answers) (set_wave_file_path ''/opt/etc/wave.json'' udp_init)"
    by (simp add: new_service_def set_wave_file_path_def udp_init_def)
  ultimately obtain fs c where
    two: "connect_body 1 no_answers nd =
        Inr (map Radio fs, nd\<lparr>radio_client := Some (Udp c), connecting := False, conn_thread := Done\<rparr>)"
    and c: "waiting c"
    using connect_body_udp [OF nd(4) _ _ _ ok_reaches, of 1] nd by auto
  obtain c' where three: "io_receive No_memory (Value 0) (\<lambda>n. Inr []) c = Inr c'" "udp_running c'" "\<not> waiting c'"
    using io_receive_error [OF c] by blast
  from one two nd(1-3) c three show ?thesis
    by (simp add: deaf_run_def configure_call_def node_net_def)
qed

text \<open>
  Another: the address cannot be parsed and not be resolved either, so the attempt fails before any
  Asio object is made.
\<close>

definition unresolved :: connect_answers where
  "unresolved = no_answers\<lparr>udp_side := ok_udp\<lparr>address_from_string := (\<lambda>s. System_error (System_code 22)),
     resolve_v4 := (\<lambda>s p. System_error (System_code 1))\<rparr>\<rparr>"

definition failed_run :: "(nat \<times> callback) list" where
  "failed_run = [configure_call udp_params, (1, Connection_thread unresolved)]"

lemma run_failed:
  "\<exists>es nd c. run_callbacks True opt_world failed_run (node_construct udp_params) = Inr (es, nd) \<and>
     radio_client nd = Some (Udp c) \<and> \<not> keeps_asio c \<and> (\<forall>n. new_service n c) \<and> io c = None \<and>
     conn_thread nd = Done \<and> config nd = default_config"
proof -
  obtain es nd where one: "run_callback True opt_world 0 (snd (configure_call udp_params)) (node_construct udp_params) = Inr (es, nd)"
    and nd: "conn_thread nd = Pending" "config nd = default_config"
    "radio_client nd = Some (Udp (set_wave_file_path ''/opt/etc/wave.json'' udp_init))"
    using configure_eq [of opt_world 0 no_answers any_answers udp_params "''/opt''" udp_params]
    by (simp add: configure_call_def configured_def fresh_radio_def)
  let ?c = "set_wave_file_path ''/opt/etc/wave.json'' udp_init"
  have c: "\<not> udp_running ?c" "\<not> keeps_asio ?c" "\<forall>n. new_service n ?c" "io ?c = None"
    by (simp_all add: set_wave_file_path_def udp_init_def keeps_asio_def new_service_def)
  have two: "\<exists>nd'. connect_body 1 unresolved nd = Inr ([], nd') \<and> radio_client nd' = Some (Udp ?c) \<and>
      conn_thread nd' = Done \<and> config nd' = default_config"
    using nd c(1) by (simp add: connect_body_def udp_conn_def udp_connect_def remote_endpoint_def unresolved_def)
  with one nd(1) c show ?thesis
    by (auto simp: failed_run_def configure_call_def)
qed

text \<open>The reconnect service once \<open>close\<close> has left a UDP client that is not running: it joins the thread.\<close>

lemma reconnect_joins:
  assumes "close_radio now nd = Inr (es1, nd\<lparr>radio_client := Some (Udp c1)\<rparr>)" "\<not> udp_running c1"
  shows "reconnectSrv now a nd =
    bind_res (join_thread now a (nd\<lparr>radio_client := Some (Udp c1), radio_client_error := Success, connecting := True\<rparr>))
      (\<lambda>(fs, nd2). Inr ((True, ''Reconnect initiated for protocol: '' @ protocol (config nd2)), es1 @ fs,
         nd2\<lparr>conn_thread := Pending\<rparr>))"
  using assms
  by (cases "join_thread now a (nd\<lparr>radio_client := Some (Udp c1), radio_client_error := Success, connecting := True\<rparr>)")
    (simp_all add: reconnectSrv_def pre_spin_def case_prod_beta)

text \<open>
  C12: what the reconnect service does for a UDP node whose connection thread is not under way. It returns
  true, and a connection thread is to run. Let the thread find the address and get its sockets. When the
  client keeps no Asio object of an earlier connection, as after attempts that failed before
  one was made, the thread makes every object on an \<open>io_service\<close> that exists; after it the client
  runs, waits for a datagram and has the configured endpoint, and the status service reports a
  connection. When the client keeps one, as after every connection that succeeded, \<open>close\<close> or not, the thread
  uses an \<open>io_service\<close> that is destroyed, which is undefined (\<open>udp_reconnect_order\<close> tells where), and
  nothing more is claimed. A thread inside \<open>connect\<close> when the service is called is the subject of
  \<open>udp_close_during_connect\<close>.
\<close>

theorem udp_reconnect_restores:
  assumes "run_callbacks d w cbs (node_construct p) = Inr (es, nd)" "radio_client nd = Some (Udp c)"
    "protocol (config nd) \<noteq> ''mqtt''" "conn_thread nd \<noteq> Pending"
    "reaches a' (config nd) ep" "new_service (io_id a') c"
  shows "\<exists>es1 nd1 es2 nd2.
    reconnectSrv now a nd = Inr ((True, ''Reconnect initiated for protocol: '' @ protocol (config nd)), es1, nd1) \<and>
    conn_thread nd1 = Pending \<and> connect_body now a' nd1 = Inr (map Radio es2, nd2) \<and>
    (if keeps_asio c then \<not> lifetime_ok (set_option (io c)) es2
     else lifetime_ok (set_option (io c)) es2 \<and>
       (\<exists>c2. radio_client nd2 = Some (Udp c2) \<and> waiting c2 \<and> remote_udp_ep c2 = ep) \<and>
       getStatusSrv msg nd2 = Inr (True, ''protocol='' @ protocol (config nd) @ '', connected=true''))"
proof -
  have wf: "wf_udp c" using node_inv_client [OF run_inv [OF assms(1)] assms(2)] by simp
  from close_radio_udp [OF assms(2) this, of now] obtain e1 c1 where
    close: "close_radio now nd = Inr (map Radio e1, nd\<lparr>radio_client := Some (Udp c1)\<rparr>)" "wf_udp c1" "\<not> udp_running c1"
    and c1: "udp_close c = Inr (e1, c1)"
    by blast
  note kept = udp_close_asio [OF c1 wf]
  let ?nd1 = "nd\<lparr>radio_client := Some (Udp c1), radio_client_error := Success, connecting := True\<rparr>"
  let ?nd2 = "?nd1\<lparr>conn_thread := Pending\<rparr>"
  have "join_thread now a ?nd1 = Inr ([], ?nd1)"
    using assms(4) by (cases "conn_thread nd") (simp_all add: join_thread_def)
  with reconnect_joins [OF close(1,3), of a] have "reconnectSrv now a nd =
      Inr ((True, ''Reconnect initiated for protocol: '' @ protocol (config nd)), map Radio e1, ?nd2)"
    by simp
  moreover obtain e2 c2 where body: "connect_body now a' ?nd2 =
      Inr (map Radio e2, ?nd2\<lparr>radio_client := Some (Udp c2), connecting := False, conn_thread := Done\<rparr>)"
    "waiting c2" "udp_running c2" "remote_udp_ep c2 = ep" "lifetime_ok (set_option (io c)) e2 \<longleftrightarrow> \<not> keeps_asio c"
    using connect_body_udp [of ?nd2 c1 a' ep now] close assms(3,5) kept(1,2) kept(3) [OF assms(6)] by auto
  moreover have "getStatusSrv msg (?nd2\<lparr>radio_client := Some (Udp c2), connecting := False, conn_thread := Done\<rparr>) =
      Inr (True, ''protocol='' @ protocol (config nd) @ '', connected=true'')"
    using body(3) by (simp add: getStatusSrv_def)
  ultimately show ?thesis by (intro exI conjI) (assumption | simp)+
qed

theorem udp_reconnect_restores_witness:
  "\<exists>es nd es1 nd1 es2 nd2 c2.
    run_callbacks True opt_world failed_run (node_construct udp_params) = Inr (es, nd) \<and>
    reconnectSrv 3 no_answers nd = Inr ((True, ''Reconnect initiated for protocol: udp''), es1, nd1) \<and>
    connect_body 3 no_answers nd1 = Inr (map Radio es2, nd2) \<and> lifetime_ok {} es2 \<and>
    radio_client nd2 = Some (Udp c2) \<and> waiting c2"
proof -
  obtain es nd c where run: "run_callbacks True opt_world failed_run (node_construct udp_params) = Inr (es, nd)"
    and r: "radio_client nd = Some (Udp c)" and c: "\<not> keeps_asio c" "\<forall>n. new_service n c" "io c = None"
    and nd: "conn_thread nd = Done" "config nd = default_config"
    using run_failed by blast
  have "protocol (config nd) \<noteq> ''mqtt''" "conn_thread nd \<noteq> Pending" "new_service (io_id no_answers) c"
    using nd c(2) by simp_all
  from udp_reconnect_restores [OF run r this(1,2) ok_reaches this(3), of 3 no_answers "\<lambda>e. []"] obtain es1 nd1 es2 nd2 where
    "reconnectSrv 3 no_answers nd = Inr ((True, ''Reconnect initiated for protocol: udp''), es1, nd1)"
    "connect_body 3 no_answers nd1 = Inr (map Radio es2, nd2)" "lifetime_ok {} es2"
    "\<exists>c2. radio_client nd2 = Some (Udp c2) \<and> waiting c2"
    using c nd by auto
  with run show ?thesis by blast
qed

section \<open>Failures of outbound messages\<close>

lemma onOutboundMessage_fault:
  assumes "radio_client nd = Some r" "send_msg_queue nd = []"
  shows "onOutboundMessage now a m nd = Inl f \<longleftrightarrow> radio_connected r \<and>
    bind_res (outbound_content nd m) (\<lambda>ct. radio_send a ct r) = Inl f"
  using assms
  by (cases "outbound_content nd m")
    (auto simp: onOutboundMessage_def sendMessageFromQueue_def radio_of_def bind_res_eq_Inl case_prod_beta)

lemma sendMessageSrv_fault:
  assumes "radio_client nd = Some r"
  shows "sendMessageSrv now a m nd = Inl f \<longleftrightarrow> radio_connected r \<and>
    bind_res (outbound_content nd m) (\<lambda>ct. radio_send a ct r) = Inl f"
  using assms
  by (cases "outbound_content nd m") (auto simp: sendMessageSrv_def bind_res_eq_Inl case_prod_beta)

lemma radio_send_fault:
  assumes "radio_inv d r"
  shows "radio_send a ct r = Inl f \<longleftrightarrow>
    (\<exists>c. r = Mqtt c \<and> mqtt_connected c \<and> mosq c \<noteq> None \<and> psid_throws c ct f)"
proof (cases r)
  case (Udp c)
  with assms show ?thesis by (auto simp: bind_res_eq_Inl udp_sendf_def udp_send_total split: if_splits)
next
  case (Mqtt c)
  with assms have "wf_base c" by simp
  from mqtt_send_throws [OF this, of "publish_rc a" ct f] Mqtt show ?thesis
    by (auto simp: bind_res_eq_Inl mqtt_sendf_def case_prod_beta)
qed

lemma psid_throws_fault: "psid_throws c m f \<Longrightarrow> f \<in> {Thrown Invalid_argument, Thrown Out_of_range}"
  using stoi16_fault by (auto simp: psid_throws_def split: option.splits)

text \<open>
  C13: exactly when an outbound message breaks the process, in every state the node gets to, each operation
  taken as one step (a send while the identifier lists are being filled is \<open>mqtt_send_during_load\<close>). The
  handler of the subscription and the send service fail alike, on a connected client, in two cases. The protocol is
  not MQTT, the type has no entry and the content is shorter than two bytes: a read past the end of a
  vector. Or an MQTT client that holds a handle is given two bytes or more whose identifier has a configured
  PSID that is not empty, not in the override table and no number to \<open>std::stoi\<close>: the exception \<open>stoi\<close>
  throws on that PSID. There is no other failure and no null pointer.
\<close>

theorem outbound_faults:
  assumes "run_callbacks d w cbs (node_construct p) = Inr (es, nd)" "radio_client nd = Some r"
  shows "(sendMessageSrv now a m nd = Inl f \<longleftrightarrow> onOutboundMessage now a m nd = Inl f) \<and>
    (onOutboundMessage now a m nd = Inl f \<longleftrightarrow> radio_connected r \<and>
      (protocol (config nd) \<noteq> ''mqtt'' \<and> (\<forall>e \<in> set (wave_cfg_items nd). w_name e \<noteq> message_type m) \<and>
         length (content m) < 2 \<and> f = Out_of_bounds \<or>
       (\<exists>c ct psid. r = Mqtt c \<and> mosq c \<noteq> None \<and> outbound_content nd m = Inr ct \<and> 2 \<le> length ct \<and>
         psid_table c (to_string (u16 ct 0)) = Some psid \<and> psid \<noteq> [] \<and>
         map_of kEttifosPsidOverrides psid = None \<and> stoi16 psid = Inl f))) \<and>
    (onOutboundMessage now a m nd = Inl f \<longrightarrow>
      f \<in> {Out_of_bounds, Thrown Invalid_argument, Thrown Out_of_range})"
proof -
  from run_inv [OF assms(1)] have empty: "send_msg_queue nd = []" by (simp add: node_inv_def)
  have inv: "radio_inv d r" using node_inv_client [OF run_inv [OF assms(1)] assms(2)] .
  have content: "outbound_content nd m = Inl g \<longleftrightarrow> protocol (config nd) \<noteq> ''mqtt'' \<and>
       (\<forall>e \<in> set (wave_cfg_items nd). w_name e \<noteq> message_type m) \<and> length (content m) < 2 \<and> g = Out_of_bounds" for g
    by (simp add: outbound_content_def packMessage_short_unknown)
  have throws: "psid_throws c ct f \<longleftrightarrow> (\<exists>psid. 2 \<le> length ct \<and> psid_table c (to_string (u16 ct 0)) = Some psid \<and>
      psid \<noteq> [] \<and> map_of kEttifosPsidOverrides psid = None \<and> stoi16 psid = Inl f)" for c ct
    by (simp add: psid_throws_def split: option.split)
  note fault = onOutboundMessage_fault [OF assms(2) empty] sendMessageSrv_fault [OF assms(2)] bind_res_eq_Inl content
    radio_send_fault [OF inv]
  have "onOutboundMessage now a m nd = Inl f \<Longrightarrow> f \<in> {Out_of_bounds, Thrown Invalid_argument, Thrown Out_of_range}"
    unfolding fault using psid_throws_fault by blast
  then show ?thesis unfolding fault throws by auto
qed

theorem outbound_faults_witness:
  "\<exists>es nd. run_callbacks True opt_world deaf_run (node_construct udp_params) = Inr (es, nd) \<and>
     onOutboundMessage 3 any_answers \<lparr>stamp = 0, frame_id = [], message_type = ''XYZ'', content = [7]\<rparr> nd = Inl Out_of_bounds"
proof -
  obtain es nd c where run: "run_callbacks True opt_world deaf_run (node_construct udp_params) = Inr (es, nd)"
    and r: "radio_client nd = Some (Udp c)" and nd: "udp_running c" "config nd = default_config" "wave_cfg_items nd = deployed_items"
    using run_deaf by blast
  from outbound_faults [OF run r, of 3 any_answers "\<lparr>stamp = 0, frame_id = [], message_type = ''XYZ'', content = [7]\<rparr>"]
    run nd show ?thesis by (simp add: deployed_items_def)
qed

section \<open>The end of the process\<close>

lemma radio_destruct_total:
  assumes "radio_inv d r"
  shows "\<exists>es. radio_destruct n (Some r) = Inr (es, n - radio_refs r)"
proof (cases r)
  case (Udp c)
  with assms udp_destruct_total [of c] show ?thesis by (auto simp: radio_destruct_def)
qed (simp add: radio_destruct_def mqtt_destruct_def)

text \<open>
  C15: the process does not end normally. \<open>main\<close> destroys the node after the executor returns, and no code of
  the repository calls \<open>handle_on_shutdown\<close>: after every run without it in which the node was configured, the
  thread object \<open>pre_spin\<close> made is destroyed without having been joined, and \<open>std::terminate\<close> ends the
  process. Where \<open>handle_on_shutdown\<close> does run last, the node is destroyed, and the library's users are
  counted down to zero.
\<close>

theorem main_terminates:
  assumes "run_callbacks d w cbs (node_construct p) = Inr (es, nd)" "radio_client nd \<noteq> None"
    "\<forall>(now, cb) \<in> set cbs. \<forall>a. cb \<noteq> On_shutdown a"
  shows "main_run d w p cbs = Inl Terminated \<and>
    (\<forall>now a fs nd'. handle_on_shutdown now a nd = Inr (fs, nd') \<longrightarrow> (\<exists>gs. node_destruct nd' = Inr (gs, 0)))"
proof
  have ends: "\<exists>gs. radio_destruct (lib_refs n) (radio_client n) = Inr (gs, 0)"
    if "node_inv d True n" "radio_client n \<noteq> None" for n
  proof -
    from that(2) obtain r where r: "radio_client n = Some r" by blast
    with that(1) have "lib_refs n = radio_refs r" by (simp add: node_inv_def)
    with radio_destruct_total [OF node_inv_client [OF that(1) r], of "lib_refs n"] r show ?thesis by simp
  qed
  have "\<not> is_shutdown (snd cb)" if "cb \<in> set cbs" for cb
    using assms(3) that by (cases "snd cb") force+
  with run_callbacks_inv [OF assms(1)] have "unjoined nd" by simp
  with assms(2) have "conn_thread nd \<noteq> No_thread_object" by (auto simp: unjoined_def)
  with ends [OF run_inv [OF assms(1)] assms(2)] assms(1) show "main_run d w p cbs = Inl Terminated"
    by (auto simp: main_run_def node_destruct_def)
  show "\<forall>now a fs nd'. handle_on_shutdown now a nd = Inr (fs, nd') \<longrightarrow> (\<exists>gs. node_destruct nd' = Inr (gs, 0))"
  proof (intro allI impI)
    fix now a fs nd' assume "handle_on_shutdown now a nd = Inr (fs, nd')"
    from handle_on_shutdown_inv [OF run_inv [OF assms(1)] this] assms(2) ends [of nd']
    show "\<exists>gs. node_destruct nd' = Inr (gs, 0)" by (auto simp: node_destruct_def)
  qed
qed


theorem main_terminates_witness:
  "main_run True opt_world udp_params deaf_run = Inl Terminated"
proof -
  obtain es nd c where run: "run_callbacks True opt_world deaf_run (node_construct udp_params) = Inr (es, nd)"
    and r: "radio_client nd = Some (Udp c)"
    using run_deaf by blast
  from main_terminates [OF run] r show ?thesis by (simp add: deaf_run_def configure_call_def)
qed

end
