(* ===== verification/Mqtt_Interleaving.thy ===== *)
theory Mqtt_Interleaving
  imports Node_Properties Mqtt_Send
begin

text \<open>
  The MQTT client's \<open>connect\<close> and \<open>close\<close> are not atomic: the network thread runs its callbacks while
  \<open>close\<close> waits for it in \<open>mosquitto_loop_stop\<close>, and the reconnect service can close the client while
  the connection thread is inside the blocking \<open>mosquitto_connect\<close>. The operations are split where the other
  thread can come in, the split is shown to compose to the operations, and the interleavings are followed.
\<close>

section \<open>\<open>close\<close> with the network thread running\<close>

datatype mosq_callback = Cb_connect int | Cb_disconnect int | Cb_message "mosq_message option"

fun run_cb :: "world \<Rightarrow> mosq_callback \<Rightarrow> mqtt_client \<Rightarrow> (effect list \<times> mqtt_client) res" where
  "run_cb w (Cb_connect rc) c = Inr (handleConnect rc c)"
| "run_cb w (Cb_disconnect rc) c = Inr (handleDisconnect rc c)"
| "run_cb w (Cb_message m) c = handleMessage w m c"

fun run_cbs :: "world \<Rightarrow> mosq_callback list \<Rightarrow> mqtt_client \<Rightarrow> (effect list \<times> mqtt_client) res" where
  "run_cbs w [] c = Inr ([], c)"
| "run_cbs w (cb # cbs) c =
     bind_res (run_cb w cb c) (\<lambda>(es, c1). bind_res (run_cbs w cbs c1) (\<lambda>(fs, c2). Inr (es @ fs, c2)))"

text \<open>
  \<open>connected_\<close> is cleared first; callbacks can run before and after the call of \<open>mosquitto_disconnect\<close>, until
  \<open>mosquitto_loop_stop\<close> has joined the network thread; then the handle is destroyed and forgotten.
\<close>

definition close_while ::
    "world \<Rightarrow> mosq_callback list \<Rightarrow> mosq_callback list \<Rightarrow> mqtt_client \<Rightarrow> (effect list \<times> mqtt_client) res" where
  "close_while w cbs cbs' c =
     (case mosq c of
        None \<Rightarrow> Inr ([], c)
      | Some h \<Rightarrow>
          bind_res (run_cbs w cbs (c\<lparr>mqtt_connected := False\<rparr>)) (\<lambda>(es, c1).
          bind_res (run_cbs w cbs' c1) (\<lambda>(fs, c2).
            Inr (es @ [Mosq_disconnect h] @ fs @ [Mosq_loop_stop h False, Mosq_destroy h, Emit OnDisconnect],
                 c2\<lparr>mosq := None\<rparr>))))"

lemma close_while_alone: "close_while w [] [] c = Inr (mqtt_close c)"
  by (simp add: close_while_def mqtt_close_def split: option.split)

text \<open>What the callbacks leave in \<open>connected_\<close>: the last acknowledgement or disconnection decides.\<close>

fun connected_after :: "mosq_callback list \<Rightarrow> bool \<Rightarrow> bool" where
  "connected_after [] b = b"
| "connected_after (Cb_connect rc # cbs) b = connected_after cbs (rc = 0 \<or> b)"
| "connected_after (Cb_disconnect rc # cbs) b = connected_after cbs False"
| "connected_after (Cb_message m # cbs) b = connected_after cbs b"

lemma connected_after_append [simp]:
  "connected_after (cbs @ cbs') b = connected_after cbs' (connected_after cbs b)"
  by (induction cbs b rule: connected_after.induct) simp_all

lemma run_cb_result:
  assumes "run_cb w cb c = Inr (es, c')"
  shows "mosq c' = mosq c \<and> mqtt_connected c' = connected_after [cb] (mqtt_connected c) \<and>
    live_after es L = L \<and> (mosq c = Some h \<and> h \<in> L \<longrightarrow> handle_safe L es)"
proof (cases cb)
  case (Cb_message m)
  with assms handleMessage_result [of w m c es c'] show ?thesis by auto
qed (use assms in \<open>auto simp: handleConnect_def handleDisconnect_def subscribeToTopics_def Let_def split: if_splits\<close>)

lemma run_cbs_result:
  "run_cbs w cbs c = Inr (es, c') \<Longrightarrow>
   mosq c' = mosq c \<and> mqtt_connected c' = connected_after cbs (mqtt_connected c) \<and>
   live_after es L = L \<and> (mosq c = Some h \<and> h \<in> L \<longrightarrow> handle_safe L es)"
proof (induction cbs arbitrary: c es)
  case (Cons cb cbs)
  from Cons.prems obtain e1 c1 e2 where cb: "run_cb w cb c = Inr (e1, c1)" and cbs: "run_cbs w cbs c1 = Inr (e2, c')"
    and es: "es = e1 @ e2"
    by (auto simp: bind_res_eq_Inr)
  from run_cb_result [OF cb, of L h] Cons.IH [OF cbs] es connected_after_append [of "[cb]" cbs "mqtt_connected c"]
  show ?case by auto
qed simp

text \<open>The state in which every call gives up.\<close>

definition stuck :: "mqtt_client \<Rightarrow> bool" where
  "stuck c \<longleftrightarrow> mqtt_connected c \<and> mosq c = None"

lemma stuck_calls:
  assumes "stuck c"
  shows "mqtt_connect a ra rp lp ec c = Inr (Returned False, ec, [], c)" "mqtt_close c = ([], c)"
    "mqtt_send rc m c = Inr (False, [])"
  using assms by (simp_all add: stuck_def mqtt_close_def mqtt_send_def)

text \<open>
  C27: \<open>close\<close> clears \<open>connected_\<close> too early. It is called with a handle; before it has joined the network
  thread any callbacks run. The handle is destroyed and every call in between had it alive. With no callback it
  is the atomic \<open>close\<close>; in general \<open>connected\<close> afterwards is what the last acknowledgement or disconnection
  left: after a late acknowledgement it is true without a handle, and then every further \<open>connect\<close>, \<open>close\<close> and
  send gives up at once.
\<close>

theorem mqtt_close_race:
  assumes "mosq c = Some h" "close_while w cbs cbs' c = Inr (es, c')"
  shows "mosq c' = None \<and> (mqtt_connected c' \<longleftrightarrow> connected_after (cbs @ cbs') False) \<and>
    live_after es {h} = {} \<and> handle_safe {h} es \<and> (cbs = [] \<and> cbs' = [] \<longrightarrow> (es, c') = mqtt_close c) \<and>
    (connected_after (cbs @ cbs') False \<longrightarrow>
      (\<forall>a ra rp lp ec. mqtt_connect a ra rp lp ec c' = Inr (Returned False, ec, [], c')) \<and>
      mqtt_close c' = ([], c') \<and> (\<forall>rc m. mqtt_send rc m c' = Inr (False, [])))"
proof -
  from assms obtain e1 c1 e2 c2 where one: "run_cbs w cbs (c\<lparr>mqtt_connected := False\<rparr>) = Inr (e1, c1)"
    and two: "run_cbs w cbs' c1 = Inr (e2, c2)" and c': "c' = c2\<lparr>mosq := None\<rparr>"
    and es: "es = e1 @ [Mosq_disconnect h] @ e2 @ [Mosq_loop_stop h False, Mosq_destroy h, Emit OnDisconnect]"
    by (auto simp: close_while_def bind_res_eq_Inr)
  note facts = run_cbs_result [OF one, of "{h}" h] run_cbs_result [OF two, of "{h}" h]
  have calls: "live_after es {h} = {}" "handle_safe {h} es" using facts assms(1) by (simp_all add: es)
  have state: "mosq c' = None" "mqtt_connected c' \<longleftrightarrow> connected_after (cbs @ cbs') False"
    using facts by (simp_all add: c')
  have "(es, c') = mqtt_close c" if "cbs = []" "cbs' = []"
    using assms(2) that by (simp add: close_while_alone)
  moreover have "stuck c'" if "connected_after (cbs @ cbs') False" using state that by (simp add: stuck_def)
  ultimately show ?thesis using calls state stuck_calls by blast
qed

theorem mqtt_close_race_witness:
  "\<exists>es c'. close_while (deployed_world ''w'') [] [Cb_connect 0] (connecting_client 7) = Inr (es, c') \<and>
     mqtt_connected c' \<and> mosq c' = None"
proof -
  obtain es c' where run: "close_while (deployed_world ''w'') [] [Cb_connect 0] (connecting_client 7) = Inr (es, c')"
    by (simp add: close_while_def case_prod_beta)
  from mqtt_close_race [OF connecting_client_fields(1) run] run show ?thesis by simp
qed

section \<open>\<open>close\<close> while \<open>connect\<close> is inside the library\<close>

text \<open>
  \<open>connect\<close> up to the call of \<open>mosquitto_connect\<close>, which blocks: it has returned before (\<open>Inl\<close>) or the call
  is under way on a handle (\<open>Inr\<close>). What comes after the call reads \<open>mosq_\<close> again; the library refuses a null
  handle.
\<close>

definition connect_begin ::
    "mosq_answers \<Rightarrow> string \<Rightarrow> 16 word \<Rightarrow> error_code \<Rightarrow> mqtt_client \<Rightarrow>
     ((connect_outcome \<times> error_code \<times> effect list \<times> mqtt_client) + (nat \<times> effect list \<times> mqtt_client)) res" where
  "connect_begin a remote_address remote_port ec c =
     (if mqtt_connected c then Inr (Inl (Returned False, ec, [], c))
      else
        let c1 = c\<lparr>broker_address := remote_address, broker_port := uint remote_port, mosq := new_result a\<rparr>;
            new_call = Mosq_new (if client_id c = [] then None else Some (client_id c)) (new_result a)
        in case new_result a of
          None \<Rightarrow> Inr (Inl (Returned False, No_memory, [new_call], c1))
        | Some h \<Rightarrow>
            let r = reconnect_interval_sec c in
            if \<not> int_range (r * 10) then Inl Signed_overflow
            else
              let setup = [new_call, Mosq_set_callbacks h,
                           Mosq_reconnect_delay_set h (word_of_int r) (word_of_int (r * 10)), Mosq_loop_start h]
              in if loop_start_rc a \<noteq> MOSQ_ERR_SUCCESS then
                   Inr (Inl (Returned False, Connection_refused, setup @ [Mosq_destroy h], c1\<lparr>mosq := None\<rparr>))
                 else Inr (Inr (h, setup @ [Mosq_connect h remote_address (uint remote_port) 60], c1)))"

definition connect_end :: "int \<Rightarrow> mqtt_client \<Rightarrow> connect_outcome \<times> error_code \<times> effect list \<times> mqtt_client" where
  "connect_end rc c =
     (if rc \<noteq> MOSQ_ERR_SUCCESS then
        (Returned False, Connection_refused,
         (case mosq c of None \<Rightarrow> [] | Some h \<Rightarrow> [Mosq_loop_stop h True, Mosq_destroy h]), c\<lparr>mosq := None\<rparr>)
      else (Returned True, Success, [], c))"

text \<open>Undisturbed, the two parts are \<open>connect\<close>.\<close>

lemma connect_split:
  "mqtt_connect a ra rp lp ec c = bind_res (connect_begin a ra rp ec c) (\<lambda>r.
     case r of
       Inl res \<Rightarrow> Inr res
     | Inr (h, es, c1) \<Rightarrow> (case connect_end (connect_rc a) c1 of (out, ec', fs, c2) \<Rightarrow> Inr (out, ec', es @ fs, c2)))"
  by (simp add: mqtt_connect_def connect_begin_def connect_end_def Let_def split: option.split)

lemma connect_begin_under_way:
  assumes "connect_begin a ra rp ec c = Inr (Inr (h, es, c1))"
  shows "mosq c1 = Some h" "\<not> mqtt_connected c1" "last es = Mosq_connect h ra (uint rp) 60"
    "L = {} \<Longrightarrow> live_after es L = {h}"
  using assms by (auto simp: connect_begin_def Let_def split: if_splits option.splits)

text \<open>
  C28: the reconnect service pulls the handle from under the connection thread. While the thread is inside
  \<open>mosquitto_connect\<close>, the service's \<open>close\<close> destroys the handle the call works on. When the call returns, the
  client holds no handle and is not connected, whatever the result; on success \<open>connect\<close> still returns true and
  an empty error code.
\<close>

theorem mqtt_close_during_connect:
  assumes "connect_begin a ra rp ec c = Inr (Inr (h, es, c1))" "radio_client nd = Some (Mqtt c1)"
  shows "last es = Mosq_connect h ra (uint rp) 60 \<and> h \<in> live_after es {} \<and>
    (\<exists>fs nd' c2. close_radio now nd = Inr (fs, nd') \<and> radio_client nd' = Some (Mqtt c2) \<and>
      Radio (Mosq_destroy h) \<in> set fs \<and> live_after (es @ radio_calls fs) {} = {} \<and>
      mosq c2 = None \<and> \<not> mqtt_connected c2 \<and>
      (\<forall>rc. connect_end rc c2 =
         (Returned (rc = 0), if rc = 0 then Success else Connection_refused, [], c2)))"
proof -
  note way = connect_begin_under_way [OF assms(1)]
  let ?fs = "[Mosq_disconnect h, Mosq_loop_stop h False, Mosq_destroy h, Emit OnDisconnect]"
  let ?c2 = "c1\<lparr>mqtt_connected := False, mosq := None\<rparr>"
  have "close_radio now nd = Inr (map Radio ?fs, nd\<lparr>radio_client := Some (Mqtt ?c2)\<rparr>)"
    using assms(2) way(1) by (simp add: close_radio_def mqtt_cls_def mqtt_close_def dispatch_no_message)
  moreover have "?c2\<lparr>mosq := None\<rparr> = ?c2" by simp
  then have "connect_end rc ?c2 = (Returned (rc = 0), if rc = 0 then Success else Connection_refused, [], ?c2)" for rc
    by (simp add: connect_end_def MOSQ_ERR_SUCCESS_def)
  moreover have "live_after (es @ radio_calls (map Radio ?fs)) {} = {}" "h \<in> live_after es {}"
    using way(4) by simp_all
  ultimately show ?thesis using way(3)
    by (intro conjI exI [of _ "map Radio ?fs"] exI [of _ "nd\<lparr>radio_client := Some (Mqtt ?c2)\<rparr>"] exI [of _ ?c2]) simp_all
qed

theorem mqtt_close_during_connect_witness:
  "\<exists>es c1 fs nd'. connect_begin (ok_answers 7) ''obu'' 1883 Success mqtt_init = Inr (Inr (7, es, c1)) \<and>
     close_radio 0 (mqtt_node c1) = Inr (fs, nd') \<and> Radio (Mosq_destroy 7) \<in> set fs"
proof -
  obtain es c1 where run: "connect_begin (ok_answers 7) ''obu'' 1883 Success mqtt_init = Inr (Inr (7, es, c1))"
    by (simp add: connect_begin_def ok_answers_def MOSQ_ERR_SUCCESS_def int_range_def)
  from mqtt_close_during_connect [OF run mqtt_node_fields(1), of 0] run show ?thesis by auto
qed

end
