(* ===== verification/Udp_Interleaving.thy ===== *)
theory Udp_Interleaving
  imports Udp_Io_Thread Base_Frame Node_Properties
begin

text \<open>
  The UDP client's \<open>close\<close> and \<open>connect\<close> are not atomic: \<open>close\<close> clears \<open>running_\<close> and drops the work object
  while the I/O thread still runs handlers, until \<open>join\<close> has returned; \<open>connect\<close> starts the I/O thread before it
  sets \<open>running_\<close>. Both are cut where the I/O thread can come in, the parts compose to the operation,
  and every interleaving is shown to leave the state of a sequential run.
\<close>

section \<open>Handlers of the I/O thread, whatever the flags of the client say\<close>

datatype io_event =
    Io_turn "unit answer"
  | Io_receive error_code "nat answer" "nat \<Rightarrow> error_code + bytes"

definition wait_pending :: "udp_client \<Rightarrow> bool" where
  "wait_pending c = (case udp_listener c of None \<Rightarrow> False | Some l \<Rightarrow> lst_waiting l)"

lemma waiting_eq: "waiting c \<longleftrightarrow> udp_running c \<and> wait_pending c"
  by (auto simp: waiting_def wait_pending_def split: option.split)

fun io_event_step :: "world \<Rightarrow> io_event \<Rightarrow> udp_client \<Rightarrow> (effect list \<times> udp_client) res" where
  "io_event_step w (Io_turn r) c = io_turn w r c"
| "io_event_step w (Io_receive ec avail recv) c =
     (if wait_pending c
      then bind_res (io_receive ec avail recv c) (\<lambda>c'. Inr ([], c')) else Inr ([], c))"

fun io_events :: "world \<Rightarrow> io_event list \<Rightarrow> udp_client \<Rightarrow> (effect list \<times> udp_client) res" where
  "io_events w [] c = Inr ([], c)"
| "io_events w (e # evs) c =
     bind_res (io_event_step w e c) (\<lambda>(es, c1). bind_res (io_events w evs c1) (\<lambda>(fs, c2). Inr (es @ fs, c2)))"

section \<open>The parts of \<open>close\<close> and \<open>connect\<close>\<close>

text \<open>\<open>running_ = false\<close>, then \<open>work_.reset()\<close>, then \<open>io_->stop()\<close>.\<close>

definition close_flag :: "udp_client \<Rightarrow> udp_client" where
  "close_flag c = c\<lparr>udp_running := False\<rparr>"

definition close_work :: "udp_client \<Rightarrow> effect list \<times> udp_client" where
  "close_work c = (deleted Work_delete (work c), c\<lparr>work := None\<rparr>)"

definition close_stop :: "udp_client \<Rightarrow> (effect list \<times> udp_client) res" where
  "close_stop c = bind_res (deref (io c)) (\<lambda>i. Inr ([Io_stop i], c\<lparr>io_stopped := True\<rparr>))"

text \<open>\<open>join\<close>, the listener, the socket and the signal.\<close>

definition close_rest :: "udp_client \<Rightarrow> (effect list \<times> udp_client) res" where
  "close_rest c =
     bind_res (deref (io_thread c)) (\<lambda>t.
     bind_res (deref (udp_listener c)) (\<lambda>l.
       Inr ([Thread_join (fst t), Listener_stop (lst_io l)] @ deleted Socket_delete (udp_out_socket c) @
            [Emit OnDisconnect],
            c\<lparr>io_thread := Some (fst t, False), udp_listener := Some (snd (lst_stop l)), udp_out_socket := None\<rparr>)))"

text \<open>
  \<open>e0\<close>, \<open>e1\<close> and \<open>e2\<close> are the handlers the I/O thread runs after the three first statements. After the
  third it only ends the one it is in.
\<close>

definition udp_close_while ::
    "world \<Rightarrow> io_event list \<Rightarrow> io_event list \<Rightarrow> io_event list \<Rightarrow> udp_client \<Rightarrow> (effect list \<times> udp_client) res" where
  "udp_close_while w e0 e1 e2 c =
     (if \<not> udp_running c then Inr ([], c)
      else
        bind_res (io_events w e0 (close_flag c)) (\<lambda>(es0, c0).
        let (ws, c1) = close_work c0 in
        bind_res (io_events w e1 c1) (\<lambda>(es1, c2).
        bind_res (close_stop c2) (\<lambda>(ss, c3).
        bind_res (io_events w e2 c3) (\<lambda>(es2, c4).
        bind_res (close_rest c4) (\<lambda>(rs, c5).
          Inr (es0 @ ws @ es1 @ ss @ es2 @ rs, c5)))))))"

lemma udp_close_while_alone: "wf_udp c \<Longrightarrow> udp_close_while w [] [] [] c = udp_close c"
  by (auto simp: udp_close_while_def udp_close_def close_flag_def close_work_def close_stop_def close_rest_def
      elim!: wf_udp_runningE)

section \<open>Handlers commute with the statements of \<open>close\<close>\<close>

text \<open>A change of the members that no handler reads or writes.\<close>

definition set_flags :: "bool \<Rightarrow> nat option \<Rightarrow> bool \<Rightarrow> udp_client \<Rightarrow> udp_client" where
  "set_flags r k s c = c\<lparr>udp_running := r, work := k, io_stopped := s\<rparr>"

lemma set_flags_fields [simp]:
  "io_tasks (set_flags r k s c) = io_tasks c" "udp_listener (set_flags r k s c) = udp_listener c"
  "udp_out_socket (set_flags r k s c) = udp_out_socket c" "remote_udp_ep (set_flags r k s c) = remote_udp_ep c"
  "io (set_flags r k s c) = io c" "io_thread (set_flags r k s c) = io_thread c"
  "udp_running (set_flags r k s c) = r" "work (set_flags r k s c) = k" "io_stopped (set_flags r k s c) = s"
  "base_part (set_flags r k s c) = base_part c" "with_base (set_flags r k s c) b = set_flags r k s (with_base c b)"
  "(set_flags r k s c)\<lparr>io_tasks := ts\<rparr> = set_flags r k s (c\<lparr>io_tasks := ts\<rparr>)"
  "(set_flags r k s c)\<lparr>udp_listener := l\<rparr> = set_flags r k s (c\<lparr>udp_listener := l\<rparr>)"
  by (cases c; simp add: set_flags_def base_part_defs udp_client.defs)+

definition map_state :: "('a \<Rightarrow> 'b) \<Rightarrow> ('x \<times> 'a) res \<Rightarrow> ('x \<times> 'b) res" where
  "map_state f r = bind_res r (\<lambda>(x, c). Inr (x, f c))"

lemma map_state_simps [simp]: "map_state f (Inl e) = Inl e" "map_state f (Inr (x, c)) = Inr (x, f c)"
  by (simp_all add: map_state_def)

lemma process_flags:
  "process w d (set_flags r k s c) = map_state (set_flags r k s) (process w d c)"
  by (cases "process w d (base_part c)")
    (auto simp: process_base [of w d c] process_base [of w d "set_flags r k s c"] lift_base_def map_state_def)

lemma io_turn_flags: "io_turn w a (set_flags r k s c) = map_state (set_flags r k s) (io_turn w a c)"
proof (cases "io_tasks c")
  case (Cons t ts)
  then show ?thesis
  proof (cases t)
    case (Deliver d)
    with Cons show ?thesis
      by (cases "process w d (c\<lparr>io_tasks := ts\<rparr>)") (auto simp: io_turn_def process_flags)
  next
    case (Transmit m)
    with Cons show ?thesis
      by (cases "udp_out_socket c") (simp_all add: io_turn_def run_transmit_def)
  qed
qed (simp add: io_turn_def)

lemma io_event_flags:
  "io_event_step w e (set_flags r k s c) = map_state (set_flags r k s) (io_event_step w e c)"
proof (cases e)
  case (Io_receive ec avail recv)
  then show ?thesis
    by (cases "udp_listener c"; cases "handle_recv_udp ec avail recv (the (udp_listener c))")
      (auto simp: io_receive_def wait_pending_def)
qed (simp add: io_turn_flags)

lemma io_events_flags: "io_events w evs (set_flags r k s c) = map_state (set_flags r k s) (io_events w evs c)"
proof (induction evs arbitrary: c)
  case (Cons e evs)
  show ?case
  proof (cases "io_event_step w e c")
    case (Inr x)
    obtain es c1 where x: "x = (es, c1)" by (cases x)
    show ?thesis
      by (cases "io_events w evs c1") (auto simp: io_event_flags Inr x Cons.IH)
  qed (simp add: io_event_flags)
qed simp

section \<open>\<open>close\<close> takes effect at one point\<close>

fun as_udp_event :: "io_event \<Rightarrow> udp_event" where
  "as_udp_event (Io_turn r) = Ev_turn r"
| "as_udp_event (Io_receive ec avail recv) = Ev_receive ec avail recv"

text \<open>What the node and the network see of a trace.\<close>

fun visible :: "effect \<Rightarrow> bool" where
  "visible (Send_to m ep) = True"
| "visible (Emit s) = True"
| "visible _ = False"

lemma io_event_step_result:
  assumes "io_event_step w e c = Inr (es, c')"
  shows "udp_running c' = udp_running c \<and> (wf_udp c \<longrightarrow> wf_udp c') \<and> remote_udp_ep c' = remote_udp_ep c"
proof (cases e)
  case (Io_turn r)
  with assms have turn: "io_turn w r c = Inr (es, c')" by simp
  from io_turn_result(2,3) [OF turn] show ?thesis by blast
next
  case (Io_receive ec avail recv)
  show ?thesis
  proof (cases "wait_pending c")
    case True
    with Io_receive assms have rec: "io_receive ec avail recv c = Inr c'" by (simp add: bind_res_eq_Inr)
    from io_receive_result(2,3) [OF rec] show ?thesis by blast
  qed (use Io_receive assms in auto)
qed

lemma io_event_as_udp:
  assumes "udp_running c"
  shows "udp_event_step w (as_udp_event e) c = bind_res (io_event_step w e c) (\<lambda>(es, c'). Inr ([], es, c'))"
proof (cases e)
  case (Io_receive ec avail recv)
  with assms show ?thesis by (cases "io_receive ec avail recv c") (simp_all add: waiting_eq)
qed (use assms in simp)

lemma io_events_as_udp:
  "udp_running c \<Longrightarrow> udp_events w (map as_udp_event evs) c =
     bind_res (io_events w evs c) (\<lambda>(es, c'). Inr ([], es, c'))"
proof (induction evs arbitrary: c)
  case (Cons e evs)
  show ?case
  proof (cases "io_event_step w e c")
    case (Inr x)
    obtain es c1 where x: "x = (es, c1)" by (cases x)
    from io_event_step_result [of w e c es c1] Inr x Cons.prems have "udp_running c1" by simp
    note IH = Cons.IH [OF this]
    show ?thesis
      by (cases "io_events w evs c1") (auto simp: io_event_as_udp [OF Cons.prems] Inr x IH)
  qed (simp add: io_event_as_udp [OF Cons.prems])
qed simp

lemma io_event_keeps:
  assumes "io_event_step w e c = Inr (es, c')"
  shows "work c' = work c \<and> io_stopped c' = io_stopped c \<and> io_thread c' = io_thread c \<and> io c' = io c"
proof (cases e)
  case (Io_turn r)
  show ?thesis
  proof (cases "io_tasks c")
    case (Cons t ts)
    show ?thesis
    proof (cases t)
      case (Deliver d)
      with assms Io_turn Cons obtain rs where "process w d (c\<lparr>io_tasks := ts\<rparr>) = Inr (rs, c')"
        by (auto simp: io_turn_def bind_res_eq_Inr)
      with process_outcome have "base_ext (c\<lparr>io_tasks := ts\<rparr>) c'" by blast
      then show ?thesis by (simp add: base_ext_udp)
    qed (use assms Io_turn Cons in \<open>auto simp: io_turn_def bind_res_eq_Inr\<close>)
  qed (use assms Io_turn in \<open>simp add: io_turn_def\<close>)
qed (use assms in \<open>auto simp: io_receive_def bind_res_eq_Inr split: if_splits\<close>)

lemma io_events_keep:
  "io_events w evs c = Inr (es, c') \<Longrightarrow>
   work c' = work c \<and> io_stopped c' = io_stopped c \<and> io_thread c' = io_thread c \<and> io c' = io c"
proof (induction evs arbitrary: c es)
  case (Cons e evs)
  then obtain e1 c1 e2 where "io_event_step w e c = Inr (e1, c1)" "io_events w evs c1 = Inr (e2, c')"
    by (auto simp: bind_res_eq_Inr)
  with io_event_keeps [of w e c e1 c1] Cons.IH [of c1 e2] show ?case by auto
qed simp

lemma io_events_append:
  "io_events w (e0 @ e1) c =
     bind_res (io_events w e0 c) (\<lambda>(es, c1). bind_res (io_events w e1 c1) (\<lambda>(fs, c2). Inr (es @ fs, c2)))"
proof (induction e0 arbitrary: c)
  case Nil
  show ?case by (cases "io_events w e1 c") auto
next
  case (Cons e e0)
  show ?case
  proof (cases "io_event_step w e c")
    case (Inr x)
    obtain es c1 where x: "x = (es, c1)" by (cases x)
    show ?thesis
    proof (cases "io_events w e0 c1")
      case inner: (Inr y)
      obtain fs c2 where "y = (fs, c2)" by (cases y)
      with inner Inr x show ?thesis by (cases "io_events w e1 c2") (auto simp: Cons.IH)
    qed (simp add: Inr x Cons.IH)
  qed simp
qed

lemma io_events_result:
  "io_events w evs c = Inr (es, c') \<Longrightarrow>
   udp_running c' = udp_running c \<and> (wf_udp c \<longrightarrow> wf_udp c') \<and> remote_udp_ep c' = remote_udp_ep c"
proof (induction evs arbitrary: c es)
  case (Cons e evs)
  then obtain e1 c1 e2 where "io_event_step w e c = Inr (e1, c1)" "io_events w evs c1 = Inr (e2, c')"
    by (auto simp: bind_res_eq_Inr)
  with io_event_step_result [of w e c e1 c1] Cons.IH [of c1 e2] show ?case by auto
qed simp

lemma visible_deleted [simp]:
  "filter visible (deleted Work_delete x) = []" "filter visible (deleted Socket_delete x) = []"
  by (cases x; simp)+

lemma close_parts_flags [simp]:
  "close_flag c = set_flags False (work c) (io_stopped c) c"
  "close_work (set_flags r k s c) = (deleted Work_delete k, set_flags r None s c)"
  "close_stop (set_flags r k s c) = bind_res (deref (io c)) (\<lambda>i. Inr ([Io_stop i], set_flags r k True c))"
  "close_rest (set_flags r k s c) = map_state (set_flags r k s) (close_rest c)"
  by (cases c; cases "io_thread c"; cases "udp_listener c";
      simp add: close_flag_def close_work_def close_stop_def close_rest_def set_flags_def)+

lemma udp_close_parts:
  "wf_udp c \<Longrightarrow> udp_running c \<Longrightarrow> \<exists>i cs c'. io c = Some i \<and> close_rest c = Inr (cs, c') \<and>
     filter visible cs = [Emit OnDisconnect] \<and>
     udp_close c = Inr ([Work_delete i, Io_stop i] @ cs, set_flags False None True c')"
  by (erule (1) wf_udp_runningE) (auto simp: udp_close_def close_rest_def set_flags_def)

text \<open>
  C7: \<open>close\<close> is linearizable against the I/O thread. However its handlers and receptions fall into the
  statements of \<open>close\<close> before the thread is joined, the call fails exactly when the handlers, run before an
  undisturbed \<open>close\<close>, do; otherwise it leaves the same state, and the node and the network see the same
  messages and signals in the same order.
\<close>

theorem udp_close_linearizes:
  assumes "udp_reach w c" "udp_running c"
  shows "bind_res (udp_close_while w e0 e1 e2 c) (\<lambda>(es, c'). Inr (filter visible es, c')) =
    bind_res (udp_events w (map as_udp_event (e0 @ e1 @ e2)) c) (\<lambda>(acc, fs, c1).
    bind_res (udp_close c1) (\<lambda>(gs, c'). Inr (filter visible (fs @ gs), c')))"
proof -
  note wf = udp_reach_wf [OF assms(1)]
  note defs = udp_close_while_def io_events_flags io_events_as_udp [OF assms(2)] io_events_append assms(2)
    map_append [symmetric]
  show ?thesis
  proof (cases "io_events w e0 c")
    case (Inl f)
    then show ?thesis by (simp add: defs del: map_append)
  next
    case zero: (Inr x)
    obtain f0 c0 where x: "x = (f0, c0)" by (cases x)
    have ok0: "udp_running c0 \<and> wf_udp c0"
      using io_events_result [of w e0 c f0 c0] zero x wf assms(2) by simp
    show ?thesis
    proof (cases "io_events w e1 c0")
      case (Inl f)
      then show ?thesis by (simp add: defs zero x del: map_append)
    next
      case one: (Inr y)
      obtain f1 c1 where y: "y = (f1, c1)" by (cases y)
      have ok1: "udp_running c1 \<and> wf_udp c1"
        using io_events_result [of w e1 c0 f1 c1] one y ok0 by simp
      then obtain i where i: "io c1 = Some i" by (auto elim: wf_udp_runningE)
      show ?thesis
      proof (cases "io_events w e2 c1")
        case (Inl f)
        then show ?thesis by (simp add: defs zero x one y i del: map_append)
      next
        case two: (Inr z)
        obtain f2 c2 where z: "z = (f2, c2)" by (cases z)
        have "udp_running c2" "wf_udp c2"
          using io_events_result [of w e2 c1 f2 c2] two z ok1 by simp_all
        from udp_close_parts [OF this(2,1)] obtain j cs c' where
          "close_rest c2 = Inr (cs, c')" "filter visible cs = [Emit OnDisconnect]"
          "udp_close c2 = Inr ([Work_delete j, Io_stop j] @ cs, set_flags False None True c')" by blast
        then show ?thesis by (simp add: defs zero x one y i two z del: map_append)
      qed
    qed
  qed
qed

text \<open>A client with one accepted message, closed while the I/O thread hands it to the socket.\<close>

theorem udp_close_linearizes_witness:
  "\<exists>es c'. udp_close_while (deployed_world ''w'') [] [Io_turn (Value ())] [Io_turn (Value ())] loaded_queue =
       Inr (es, c') \<and>
     filter visible es = [Send_to [1] (Endpoint V4 ''obu'' 1516), Send_to [2] (Endpoint V4 ''obu'' 1516),
       Emit OnDisconnect] \<and> \<not> udp_running c'"
proof -
  let ?w = "deployed_world ''w''" and ?seps = "[Send_to [1] (Endpoint V4 ''obu'' 1516), Send_to [2] (Endpoint V4 ''obu'' 1516)]"
  let ?c1 = "loaded_queue\<lparr>io_tasks := []\<rparr>"
  have run: "udp_running loaded_queue" by (simp add: loaded_queue_def)
  have ev: "udp_events ?w (map as_udp_event ([] @ [Io_turn (Value ())] @ [Io_turn (Value ())])) loaded_queue =
      Inr ([], ?seps, ?c1)"
    by (simp add: io_turn_def run_transmit_def loaded_queue_def)
  have "wf_udp ?c1" "udp_running ?c1" using udp_reach_wf [OF loaded_queue_reach [of ?w]] run by simp_all
  from udp_close_parts [OF this] obtain i cs c' where cs: "filter visible cs = [Emit OnDisconnect]"
    and close: "udp_close ?c1 = Inr ([Work_delete i, Io_stop i] @ cs, set_flags False None True c')" by blast
  from udp_close_linearizes [OF loaded_queue_reach run, of ?w "[]" "[Io_turn (Value ())]" "[Io_turn (Value ())]"]
  have "bind_res (udp_close_while ?w [] [Io_turn (Value ())] [Io_turn (Value ())] loaded_queue)
      (\<lambda>(es, c'). Inr (filter visible es, c')) = Inr (?seps @ [Emit OnDisconnect], set_flags False None True c')"
    by (simp only: ev close bind_res_Inr split_conv) (simp add: cs)
  then obtain es where "udp_close_while ?w [] [Io_turn (Value ())] [Io_turn (Value ())] loaded_queue =
      Inr (es, set_flags False None True c')" "filter visible es = ?seps @ [Emit OnDisconnect]"
    by (auto simp: bind_res_eq_Inr)
  then show ?thesis by auto
qed

section \<open>\<open>connect\<close> up to the start of the I/O thread, and what comes after it\<close>

text \<open>\<open>Inl\<close>: the call has ended before. \<open>Inr\<close>: the thread runs and \<open>running_\<close> is still false.\<close>

definition udp_start_begin ::
    "udp_answers \<Rightarrow> nat \<Rightarrow> udp_client \<Rightarrow>
     ((connect_outcome \<times> effect list \<times> udp_client) + (effect list \<times> udp_client)) res" where
  "udp_start_begin a n c =
     (case socket_open a (ep_version (remote_udp_ep c)) of
        Value _ \<Rightarrow>
          let es = [Socket_new n (ep_version (remote_udp_ep c))] @ deleted Socket_delete (udp_out_socket c) @
                   [Work_new n] @ deleted Work_delete (work c) @ [Listener_start n];
              c1 = c\<lparr>udp_out_socket := Some n, work := Some n,
                     udp_listener := map_option (\<lambda>l. snd (lst_start l)) (udp_listener c)\<rparr>
          in (case thread_create a of
                Value _ \<Rightarrow>
                  (case io_thread c of
                     Some (_, True) \<Rightarrow> Inl Terminated
                   | _ \<Rightarrow> Inr (Inr (es @ [Thread_start n], c1\<lparr>io_thread := Some (n, True)\<rparr>)))
              | e \<Rightarrow> Inr (Inl (answer_outcome e, es, c1)))
      | e \<Rightarrow> Inr (Inl (answer_outcome e, [], c)))"

definition udp_connect_begin ::
    "udp_answers \<Rightarrow> nat \<Rightarrow> string \<Rightarrow> 16 word \<Rightarrow> 16 word \<Rightarrow> error_code \<Rightarrow> udp_client \<Rightarrow>
     ((connect_outcome \<times> error_code \<times> effect list \<times> udp_client) + (effect list \<times> udp_client)) res" where
  "udp_connect_begin a n remote_address remote_port local_port ec c =
     (if udp_running c then Inr (Inl (Returned False, ec, [], c))
      else bind_res (remote_endpoint a remote_address remote_port ec) (\<lambda>r.
        case r of
          Inl (ec', out) \<Rightarrow> Inr (Inl (out, ec', [], c))
        | Inr ep \<Rightarrow>
            (case listener_bind a local_port of
               System_error e \<Rightarrow> Inr (Inl (Returned False, e, reset_effects n c, reset_client n ep c))
             | Other_exception \<Rightarrow> Inr (Inl (Returned False, Success, reset_effects n c, reset_client n ep c))
             | Value _ \<Rightarrow>
                 bind_res (udp_start_begin a n ((reset_client n ep c)\<lparr>udp_listener := Some (new_listener n local_port)\<rparr>))
                   (\<lambda>s. let es = reset_effects n c @ [Listener_new n local_port] in case s of
                     Inl (out, fs, c2) \<Rightarrow> Inr (Inl (out, Success, es @ fs, c2))
                   | Inr (fs, c2) \<Rightarrow> Inr (Inr (es @ fs, c2))))))"

definition udp_connect_end :: "udp_client \<Rightarrow> effect list \<times> udp_client" where
  "udp_connect_end c = ([Emit OnConnect], c\<lparr>udp_running := True\<rparr>)"

lemma udp_start_split:
  "udp_start a n c = bind_res (udp_start_begin a n c) (\<lambda>s. case s of
     Inl res \<Rightarrow> Inr res
   | Inr (es, c1) \<Rightarrow> (case udp_connect_end c1 of (fs, c2) \<Rightarrow> Inr (Returned True, es @ fs, c2)))"
  by (simp add: udp_start_def udp_start_begin_def udp_connect_end_def Let_def split: answer.split option.split bool.split)

lemma udp_connect_split:
  "udp_connect a n ra rp lp ec c = bind_res (udp_connect_begin a n ra rp lp ec c) (\<lambda>s. case s of
     Inl res \<Rightarrow> Inr res
   | Inr (es, c1) \<Rightarrow> (case udp_connect_end c1 of (fs, c2) \<Rightarrow> Inr (Returned True, Success, es @ fs, c2)))"
proof (cases "remote_endpoint a ra rp ec")
  case (Inr r)
  show ?thesis
  proof (cases r)
    case (Inr ep)
    then show ?thesis using \<open>remote_endpoint a ra rp ec = Inr r\<close>
      by (cases "listener_bind a lp";
          cases "udp_start_begin a n ((reset_client n ep c)\<lparr>udp_listener := Some (new_listener n lp)\<rparr>)")
        (auto simp: udp_connect_def udp_connect_begin_def udp_start_split udp_connect_end_def Let_def
          split: sum.split)
  qed (use Inr in \<open>simp add: udp_connect_def udp_connect_begin_def case_prod_beta\<close>)
qed (simp add: udp_connect_def udp_connect_begin_def)

text \<open>Once the thread runs the client's members are those of a connected client but for \<open>running_\<close>.\<close>

lemma udp_start_begin_under_way:
  assumes "udp_start_begin a n c = Inr (Inr (es, c1))"
  shows "c1 = c\<lparr>udp_out_socket := Some n, work := Some n,
    udp_listener := map_option (\<lambda>l. snd (lst_start l)) (udp_listener c), io_thread := Some (n, True)\<rparr>"
  using assms by (auto simp: udp_start_begin_def Let_def split: answer.splits option.splits bool.splits)

lemma udp_connect_begin_under_way:
  assumes "udp_connect_begin a n ra rp lp ec c = Inr (Inr (es, c1))"
  shows "\<not> udp_running c1 \<and> io_thread c1 = Some (n, True) \<and> io c1 = Some n \<and> io_tasks c1 = [] \<and>
    udp_connect a n ra rp lp ec c = Inr (Returned True, Success, es @ [Emit OnConnect], c1\<lparr>udp_running := True\<rparr>)"
proof -
  from assms have stop: "\<not> udp_running c" by (auto simp: udp_connect_begin_def)
  with assms obtain r where r: "remote_endpoint a ra rp ec = Inr r"
    by (auto simp: udp_connect_begin_def bind_res_eq_Inr)
  with stop assms obtain ep where "r = Inr ep"
    by (cases r) (auto simp: udp_connect_begin_def)
  with stop r assms obtain s where s:
    "udp_start_begin a n ((reset_client n ep c)\<lparr>udp_listener := Some (new_listener n lp)\<rparr>) = Inr s"
    by (cases "listener_bind a lp") (auto simp: udp_connect_begin_def bind_res_eq_Inr)
  with stop r \<open>r = Inr ep\<close> assms obtain fs where "s = Inr (fs, c1)"
    by (cases "listener_bind a lp"; cases s) (auto simp: udp_connect_begin_def Let_def)
  with udp_start_begin_under_way [of a n "(reset_client n ep c)\<lparr>udp_listener := Some (new_listener n lp)\<rparr>" fs c1]
    s stop assms
  show ?thesis by (simp add: udp_connect_split udp_connect_end_def)
qed

section \<open>Handlers in the window of \<open>connect\<close>\<close>

lemma set_running: "c\<lparr>udp_running := r\<rparr> = set_flags r (work c) (io_stopped c) c"
  by (cases c) (simp add: set_flags_def)

lemma io_events_running:
  "io_events w evs (c\<lparr>udp_running := r\<rparr>) = map_state (udp_running_update (\<lambda>_. r)) (io_events w evs c)"
proof -
  have "map_state (set_flags r (work c) (io_stopped c)) (io_events w evs c) =
      map_state (udp_running_update (\<lambda>_. r)) (io_events w evs c)"
  proof (cases "io_events w evs c")
    case (Inr x)
    obtain es c' where "x = (es, c')" by (cases x)
    with Inr io_events_keep [of w evs c es c'] show ?thesis by (simp add: set_running)
  qed simp
  then show ?thesis by (simp add: set_running io_events_flags)
qed

text \<open>
  The window is harmless for the data path: handlers that run in it leave the state they would
  leave right after \<open>connect\<close>; only the signal \<open>onConnect\<close> comes after theirs.
\<close>

lemma udp_connect_window:
  assumes "udp_connect_begin a n ra rp lp ec c = Inr (Inr (es, c1))" "io_events w evs c1 = Inr (fs, c2)"
  shows "\<exists>c'. udp_connect a n ra rp lp ec c = Inr (Returned True, Success, es @ [Emit OnConnect], c') \<and>
    udp_events w (map as_udp_event evs) c' = Inr ([], fs, snd (udp_connect_end c2))"
  using udp_connect_begin_under_way [OF assms(1)] assms(2)
  by (simp add: io_events_as_udp io_events_running udp_connect_end_def)

end
