(* ===== verification/Node_Races.thy ===== *)
theory Node_Races
  imports Node_Ends Mqtt_Interleaving Udp_Interleaving
begin

text \<open>
  The reconnect service and a reconfiguration while the connection thread is inside \<open>connect\<close>: neither waits
  for the thread before it acts on the client. The service is cut at the \<open>join\<close> in \<open>pre_spin\<close>,
  where what is left of the thread runs.
\<close>

section \<open>The services with the connection thread under way\<close>

text \<open>
  What is left of the connection thread: the rest of the UDP \<open>connect\<close>, or of the MQTT one with the answer \<open>rc\<close> of
  \<open>mosquitto_connect\<close>, then \<open>connecting_ = false\<close>.
\<close>

definition connect_resume :: "nat \<Rightarrow> int \<Rightarrow> node \<Rightarrow> (node_effect list \<times> node) res" where
  "connect_resume now rc nd =
     bind_res (radio_of nd) (\<lambda>r.
       let (es, r') = (case r of
             Udp c \<Rightarrow> (case udp_connect_end c of (es, c') \<Rightarrow> (es, Udp c'))
           | Mqtt c \<Rightarrow> (case connect_end rc c of (out, ec, es, c') \<Rightarrow> (es, Mqtt c')));
           (fs, nd1) = dispatch now es (nd\<lparr>radio_client := Some r'\<rparr>)
       in Inr (fs, nd1\<lparr>connecting := False, conn_thread := Done\<rparr>))"

text \<open>\<open>pre_spin\<close> and the service with \<open>join\<close> as an argument.\<close>

definition pre_spin_joining ::
    "(node \<Rightarrow> (node_effect list \<times> node) res) \<Rightarrow> nat \<Rightarrow> node \<Rightarrow> (node_effect list \<times> node) res" where
  "pre_spin_joining join now nd =
     bind_res
       (if is_error (radio_client_error nd)
        then bind_res (close_radio now nd) (\<lambda>(es, nd1). Inr (es, nd1\<lparr>radio_client_error := Success\<rparr>))
        else Inr ([], nd))
       (\<lambda>(es, nd1).
          if connecting nd1 then Inr (es, nd1)
          else bind_res (radio_of nd1) (\<lambda>r.
            if radio_connected r then Inr (es, nd1)
            else bind_res (join (nd1\<lparr>connecting := True\<rparr>)) (\<lambda>(fs, nd2).
              Inr (es @ fs, nd2\<lparr>conn_thread := Pending\<rparr>))))"

definition reconnect_joining ::
    "(node \<Rightarrow> (node_effect list \<times> node) res) \<Rightarrow> nat \<Rightarrow> node \<Rightarrow> ((bool \<times> string) \<times> node_effect list \<times> node) res" where
  "reconnect_joining join now nd =
     bind_res (close_radio now nd) (\<lambda>(es, nd1).
     bind_res (pre_spin_joining join now (nd1\<lparr>radio_client_error := Success, connecting := False\<rparr>)) (\<lambda>(fs, nd2).
       Inr ((True, ''Reconnect initiated for protocol: '' @ protocol (config nd2)), es @ fs, nd2)))"

lemma reconnect_joining_whole: "reconnect_joining (join_thread now a) now nd = reconnectSrv now a nd"
  by (simp add: reconnect_joining_def reconnectSrv_def pre_spin_joining_def pre_spin_def)

section \<open>The window of the UDP client\<close>

text \<open>
  C29: the reconnect service does not reconnect a UDP client that is just connecting. The I/O thread was started and
  \<open>running_\<close> is still false, whatever handlers ran meanwhile: \<open>close\<close> does nothing, the service waits for the old
  connection and reports success, and the thread it starts finds a running client and gives up, so that the
  connection with the old endpoint stays. Configuring the node again in this window ends the process.
\<close>

theorem udp_close_during_connect:
  assumes "udp_connect_begin a n ra rp lp ec c = Inr (Inr (es, c1))" "io_events w evs c1 = Inr (fs, c2)"
    "radio_client nd = Some (Udp c2)"
  shows "close_radio now nd = Inr ([], nd) \<and>
    (\<exists>nd' c3. reconnect_joining (connect_resume now rc) now nd =
        Inr ((True, ''Reconnect initiated for protocol: '' @ protocol (config nd)), [Radio (Emit OnConnect)], nd') \<and>
      radio_client nd' = Some (Udp c3) \<and> udp_running c3 \<and> io_thread c3 = Some (n, True) \<and>
      remote_udp_ep c3 = remote_udp_ep c1 \<and> conn_thread nd' = Pending \<and>
      (\<forall>a'. connect_body now a' nd' = Inr ([], nd'\<lparr>connecting := False, conn_thread := Done\<rparr>))) \<and>
    handle_on_configure w' now a'' sa p share nd = Inl Terminated"
proof -
  note way = udp_connect_begin_under_way [OF assms(1)]
  have c2: "\<not> udp_running c2" "io_thread c2 = Some (n, True)"
    using way io_events_result [OF assms(2)] io_events_keep [OF assms(2)] by auto
  have close: "close_radio now nd = Inr ([], nd)"
    using assms(3) c2(1) by (cases nd) (simp add: close_radio_def udp_close_def)
  let ?c3 = "c2\<lparr>udp_running := True\<rparr>"
  let ?nd1 = "nd\<lparr>radio_client_error := Success, connecting := True\<rparr>"
  let ?nd2 = "?nd1\<lparr>radio_client := Some (Udp ?c3), connecting := False, conn_thread := Done\<rparr>"
  have "connect_resume now rc ?nd1 = Inr ([Radio (Emit OnConnect)], ?nd2)"
    using assms(3) by (simp add: connect_resume_def udp_connect_end_def)
  then have service: "reconnect_joining (connect_resume now rc) now nd =
      Inr ((True, ''Reconnect initiated for protocol: '' @ protocol (config nd)), [Radio (Emit OnConnect)],
        ?nd2\<lparr>conn_thread := Pending\<rparr>)"
    using close assms(3) c2(1) by (simp add: reconnect_joining_def pre_spin_joining_def is_error_def)
  have "connect_body now a' (?nd2\<lparr>conn_thread := Pending\<rparr>) =
      Inr ([], ?nd2\<lparr>conn_thread := Pending, connecting := False, conn_thread := Done\<rparr>)" for a'
    by (rule connect_body_running [of _ ?c3]) simp_all
  moreover have "remote_udp_ep c2 = remote_udp_ep c1" using io_events_result [OF assms(2)] by simp
  moreover have "udp_destruct c2 = Inl Terminated" using c2 by (simp add: udp_destruct_def udp_close_def)
  then have "handle_on_configure w' now a'' sa p share nd = Inl Terminated"
    using assms(3) by (simp add: handle_on_configure_def createRadioClient_def radio_destruct_def case_prod_beta)
  ultimately show ?thesis using close service c2(2)
    by (intro conjI exI [of _ "?nd2\<lparr>conn_thread := Pending\<rparr>"] exI [of _ ?c3]) simp_all
qed

theorem udp_close_during_connect_witness:
  "\<exists>es c1 nd'. udp_connect_begin ok_udp 1 ''obu'' 1516 5398 Success udp_init = Inr (Inr (es, c1)) \<and>
     reconnect_joining (connect_resume 0 0) 0 (udp_node c1) =
       Inr ((True, ''Reconnect initiated for protocol: udp''), [Radio (Emit OnConnect)], nd') \<and>
     connect_body 0 no_answers nd' = Inr ([], nd'\<lparr>connecting := False, conn_thread := Done\<rparr>)"
proof -
  obtain es c1 where begun: "udp_connect_begin ok_udp 1 ''obu'' 1516 5398 Success udp_init = Inr (Inr (es, c1))"
    by (simp add: udp_connect_begin_def udp_start_begin_def ok_udp_def udp_init_def remote_endpoint_def Let_def reset_client_def)
  have "io_events (deployed_world ''w'') [] c1 = Inr ([], c1)" by simp
  note race = udp_close_during_connect [OF begun this udp_node_fields(1), of 0 0]
  from race [THEN conjunct2, THEN conjunct1] obtain nd' where
    "reconnect_joining (connect_resume 0 0) 0 (udp_node c1) =
       Inr ((True, ''Reconnect initiated for protocol: udp''), [Radio (Emit OnConnect)], nd')"
    "connect_body 0 no_answers nd' = Inr ([], nd'\<lparr>connecting := False, conn_thread := Done\<rparr>)"
    unfolding udp_node_fields(3) by fastforce
  with begun show ?thesis by blast
qed

end
