(* ===== verification/Configure_Window.thy ===== *)
theory Configure_Window
  imports Node_Run
begin

text \<open>
  \<open>handle_on_configure\<close> starts the connection thread (\<open>pre_spin\<close>) before it gives the client its wave file and
  before it connects the slots. The handler is cut at the two points between which these steps are; in
  the windows the connection thread and the transport's threads run.
\<close>

section \<open>The handler in three parts\<close>

text \<open>Up to the return of \<open>pre_spin\<close>.\<close>

definition configure_begin :: "nat \<Rightarrow> connect_answers \<Rightarrow> params \<Rightarrow> node \<Rightarrow> (node_effect list \<times> node) res" where
  "configure_begin now a p nd =
     bind_res (createRadioClient now (nd\<lparr>config := read_config p default_config\<rparr>)) (\<lambda>(es, nd1).
     bind_res (pre_spin now a nd1) (\<lambda>(fs, nd2). Inr (es @ fs, nd2)))"

text \<open>The wave file, the path of the client, the stored error and the slot of \<open>onError\<close>.\<close>

definition configure_files :: "world \<Rightarrow> string option \<Rightarrow> node \<Rightarrow> node res" where
  "configure_files w share nd =
     bind_res (case share of None \<Rightarrow> Inl (Thrown Library_error) | Some d \<Rightarrow> Inr (d @ ''/etc/wave.json''))
       (\<lambda>wave_cfg_file.
     bind_res (loadWaveConfig w wave_cfg_file (wave_cfg_items nd)) (\<lambda>items.
     bind_res (radio_of nd) (\<lambda>r.
       Inr (nd\<lparr>wave_cfg_items := items, radio_client := Some (radio_set_path wave_cfg_file r),
              radio_client_error := Success, error_slot := True\<rparr>))))"

text \<open>The slot of \<open>onMessageReceived\<close> and the queue.\<close>

definition configure_end :: "nat \<Rightarrow> send_answers \<Rightarrow> node \<Rightarrow> (node_effect list \<times> node) res" where
  "configure_end now sa nd = sendMessageFromQueue now sa (nd\<lparr>message_slot := True\<rparr>)"

lemma configure_whole:
  "bind_res (configure_begin now a p nd) (\<lambda>(es, nd1).
   bind_res (configure_files w share nd1) (\<lambda>nd2.
   bind_res (configure_end now sa nd2) (\<lambda>(fs, nd3). Inr (es @ fs, nd3)))) =
   handle_on_configure w now a sa p share nd"
proof (cases "createRadioClient now (nd\<lparr>config := read_config p default_config\<rparr>)")
  case (Inr x)
  obtain es nd1 where x: "x = (es, nd1)" by (cases x)
  show ?thesis
  proof (cases "pre_spin now a nd1")
    case spin: (Inr y)
    obtain fs nd2 where y: "y = (fs, nd2)" by (cases y)
    show ?thesis
      unfolding configure_begin_def handle_on_configure_def Inr x
      by (simp add: spin y configure_files_def configure_end_def bind_res_assoc split: option.split)
  qed (simp add: configure_begin_def handle_on_configure_def Inr x)
qed (simp add: configure_begin_def handle_on_configure_def)

section \<open>What runs in the windows\<close>

fun background :: "callback \<Rightarrow> bool" where
  "background (Connection_thread a) = True"
| "background (Network e) = True"
| "background _ = False"

text \<open>It moves the client and the connection state; the stored error only through the slot.\<close>

definition window_change :: "node \<Rightarrow> node \<Rightarrow> bool" where
  "window_change nd nd' \<longleftrightarrow>
     (\<exists>r e x t. nd' = nd\<lparr>radio_client := r, radio_client_error := e, connecting := x, conn_thread := t\<rparr> \<and>
        (\<not> error_slot nd \<longrightarrow> e = radio_client_error nd))"

lemma window_change_refl [simp, intro]: "window_change nd nd"
  unfolding window_change_def
  by (rule exI [of _ "radio_client nd"], rule exI [of _ "radio_client_error nd"], rule exI [of _ "connecting nd"],
      rule exI [of _ "conn_thread nd"]) simp

lemma window_change_trans: "window_change nd nd1 \<Longrightarrow> window_change nd1 nd2 \<Longrightarrow> window_change nd nd2"
  unfolding window_change_def by (elim exE conjE) (intro exI, rule conjI, simp, simp)

definition publishes :: "node_effect list \<Rightarrow> bool" where
  "publishes es \<longleftrightarrow> (\<exists>m. Published m \<in> set es)"

lemma publishes_simps [simp]:
  "\<not> publishes []" "publishes (Radio e # es) = publishes es" "publishes (Published m # es)"
  "publishes (es @ fs) \<longleftrightarrow> publishes es \<or> publishes fs"
  by (auto simp: publishes_def)

lemma window_change_error:
  "\<not> error_slot nd \<longrightarrow> e = radio_client_error nd \<Longrightarrow> window_change nd (nd\<lparr>radio_client_error := e\<rparr>)"
  unfolding window_change_def
  by (rule exI [of _ "radio_client nd"], rule exI [of _ e], rule exI [of _ "connecting nd"],
      rule exI [of _ "conn_thread nd"]) simp

lemma window_change_fields:
  assumes "window_change nd nd'"
  shows "message_slot nd' = message_slot nd" "error_slot nd' = error_slot nd" "send_msg_queue nd' = send_msg_queue nd"
    "config nd' = config nd" "wave_cfg_items nd' = wave_cfg_items nd"
    "\<not> error_slot nd \<Longrightarrow> radio_client_error nd' = radio_client_error nd"
  using assms by (auto simp: window_change_def)

text \<open>Without the slot of \<open>onMessageReceived\<close> signals publish nothing.\<close>

lemma dispatch_unwired:
  "dispatch now es nd = (fs, nd') \<Longrightarrow> \<not> message_slot nd \<Longrightarrow> \<not> publishes fs \<and> window_change nd nd'"
proof (induction now es nd arbitrary: fs nd' rule: dispatch.induct)
  case (2 now s es nd)
  obtain f1 n1 f2 n2 where s: "run_slots now s nd = (f1, n1)" "dispatch now es n1 = (f2, n2)"
    by (metis prod.exhaust)
  have n1: "f1 = []" "window_change nd n1"
    using s(1) 2(3) window_change_error [of nd] by (cases s; auto split: if_splits)+
  have "\<not> publishes f2 \<and> window_change n1 n2"
    using 2(1) [OF s(1) [symmetric] refl s(2)] window_change_fields(1) [OF n1(2)] 2(3) by simp
  with n1 2(2) s window_change_trans [of nd n1 n2] show ?case by auto
qed (auto split: prod.splits)

section \<open>A client without a path\<close>

definition blank_base :: "'a base_client_scheme \<Rightarrow> bool" where
  "blank_base c \<longleftrightarrow> wave_cfg_dsrc_msg_ids c = [] \<and> wave_cfg_psids c = [] \<and> wave_file_path c = []"

fun blank :: "radio \<Rightarrow> bool" where
  "blank (Udp c) = blank_base c"
| "blank (Mqtt c) = blank_base c"

lemma blank_updates [simp]:
  "blank_base (reset_client n ep c) = blank_base c" "blank_base (started_client n lp ep c) = blank_base c"
  "blank_base (c\<lparr>udp_listener := l\<rparr>) = blank_base c" "blank_base (c\<lparr>io_tasks := ts\<rparr>) = blank_base c"
  "blank_base (c\<lparr>io_thread := t\<rparr>) = blank_base c" "blank_base (c\<lparr>udp_running := b\<rparr>) = blank_base c"
  "blank_base (m\<lparr>broker_address := ra\<rparr>) = blank_base m" "blank_base (m\<lparr>broker_port := rp\<rparr>) = blank_base m"
  "blank_base (m\<lparr>mosq := h\<rparr>) = blank_base m" "blank_base (m\<lparr>mqtt_connected := b\<rparr>) = blank_base m"
  by (simp_all add: blank_base_def started_client_def reset_client_def)

text \<open>It looks for nothing: no file is opened, no datagram is delivered.\<close>

lemma process_blank: "blank_base c \<Longrightarrow> process w entry c = Inr ([], c)"
  by (simp add: process_def process_loop_unconfigured IsValidMsgID_def blank_base_def)

definition delivers :: "effect list \<Rightarrow> bool" where
  "delivers es \<longleftrightarrow> (\<exists>m i. Emit (OnMessageReceived m i) \<in> set es)"

lemma delivers_emitted: "delivers es \<longleftrightarrow> (\<exists>m i. OnMessageReceived m i \<in> set (emitted es))"
  by (induction es rule: emitted.induct) (auto simp: delivers_def)

lemma blank_radio_connect:
  assumes "radio_inv d r" "blank r" "radio_connect a ra rp lp ec r = Inr (out, ec', es, r')"
  shows "blank r'"
proof (cases r)
  case (Udp c)
  with assms obtain c' where c': "udp_connect (udp_side a) (io_id a) ra rp lp ec c = Inr (out, ec', es, c')" "r' = Udp c'"
    by (auto simp: bind_res_eq_Inr udp_conn_def)
  have ends: "blank_base c1 = blank_base c" if "end_result n lp ep c e = (out, ec', es, c1)" for n ep e c1
    using that by (cases e) auto
  show ?thesis
  proof (cases "udp_running c")
    case False
    have "wf_udp c" using assms(1) Udp by simp
    note eq = udp_connect_eq [OF this False]
    from c'(1) obtain q where "remote_endpoint (udp_side a) ra rp ec = Inr q" unfolding eq by (auto simp: bind_res_eq_Inr)
    with c' have "blank_base c' = blank_base c" unfolding eq by (cases q) (auto dest: ends)
    with c'(2) assms(2) Udp show ?thesis by simp
  qed (use assms(2) c' Udp in \<open>simp add: udp_connect_def\<close>)
next
  case (Mqtt c)
  with assms obtain c' where c': "mqtt_connect (mqtt_side a) ra rp lp ec c = Inr (out, ec', es, c')" "r' = Mqtt c'"
    by (auto simp: bind_res_eq_Inr)
  with Mqtt assms(2) mqtt_connect_result(3) [OF c'(1)] show ?thesis
    by (cases "mqtt_connected c") (auto simp: mqtt_connect_def)
qed

lemma blank_net_step:
  assumes "radio_inv d r" "blank r" "net_step w e r = Inr (es, r')"
  shows "blank r' \<and> \<not> delivers es"
proof (cases r)
  case (Udp c)
  show ?thesis
  proof (cases e)
    case (Udp_net u)
    with Udp assms(3) obtain acc c' where u: "udp_event_step w u c = Inr (acc, es, c')" "r' = Udp c'"
      by (auto simp: bind_res_eq_Inr)
    have turn: "blank_base c1 \<and> \<not> delivers fs" if "io_turn w x c = Inr (fs, c1)" for x fs c1
      using that assms(2) Udp
      by (auto simp: io_turn_def process_blank message_signals_def delivers_def run_transmit_def bind_res_eq_Inr
          split: list.splits task.splits answer.splits)
    show ?thesis
      using u assms(1,2) Udp turn
      by (cases u)
        (auto simp: udp_send_total bind_res_eq_Inr io_receive_def delivers_def split: if_splits)
  qed (use Udp assms(2,3) in \<open>auto simp: delivers_def\<close>)
next
  case (Mqtt c)
  show ?thesis
    using Mqtt assms(2,3)
    by (cases e)
      (auto simp: delivers_def handleConnect_def handleDisconnect_def subscribeToTopics_def Let_def handleMessage_def
        process_blank message_signals_def bind_res_eq_Inr split: if_splits option.splits)
qed

lemma radio_connect_quiet:
  assumes "radio_inv d r" "radio_connect a ra rp lp ec r = Inr (out, ec', es, r')"
  shows "\<not> delivers es"
proof (cases r)
  case (Udp c)
  with assms obtain c' where c': "udp_conn (udp_side a, io_id a) ra rp lp ec c = Inr (out, ec', es, c')"
    by (auto simp: bind_res_eq_Inr)
  with udp.connect_keeps [OF _ c'] assms(1) Udp show ?thesis by (auto simp: delivers_emitted)
next
  case (Mqtt c)
  with assms obtain c' where c': "mqtt_connect (mqtt_side a) ra rp lp ec c = Inr (out, ec', es, c')"
    by (auto simp: bind_res_eq_Inr)
  with mqtt_connect_result(4) [OF c'] show ?thesis
    by (cases "mqtt_connected c") (auto simp: delivers_emitted mqtt_connect_def)
qed

section \<open>One step in a window\<close>

lemma dispatch_passes: "dispatch now es nd = (fs, nd') \<Longrightarrow> Radio e \<in> set fs \<Longrightarrow> e \<in> set es"
proof (induction now es nd arbitrary: fs nd' rule: dispatch.induct)
  case (2 now s es nd)
  obtain f1 n1 f2 n2 where s: "run_slots now s nd = (f1, n1)" "dispatch now es n1 = (f2, n2)"
    by (metis prod.exhaust)
  have "Radio e \<notin> set f1" using s(1) by (cases s) (auto simp: onMessageReceivedHandler_def Let_def split: if_splits)
  with 2(1) [OF s(1) [symmetric] refl s(2)] 2(2,3) s show ?case by auto
qed (auto split: prod.splits)

text \<open>An operation on the client with the signals it emits, then an update of the connection state.\<close>

lemma window_operation:
  assumes "dispatch now es (nd\<lparr>radio_client := Some r'\<rparr>) = (fs, nd1)" "\<not> message_slot nd"
  shows "window_change nd (nd1\<lparr>connecting := x, conn_thread := t\<rparr>)" "window_change nd nd1" "\<not> publishes fs"
    "radio_client nd1 = Some r'"
proof -
  have set: "window_change nd (nd\<lparr>radio_client := Some r'\<rparr>)"
    unfolding window_change_def
    by (rule exI [of _ "Some r'"], rule exI [of _ "radio_client_error nd"], rule exI [of _ "connecting nd"],
        rule exI [of _ "conn_thread nd"]) simp
  have "window_change nd1 (nd1\<lparr>connecting := x, conn_thread := t\<rparr>)"
    unfolding window_change_def
    by (rule exI [of _ "radio_client nd1"], rule exI [of _ "radio_client_error nd1"], rule exI [of _ x],
        rule exI [of _ t]) simp
  moreover note d = dispatch_unwired [OF assms(1)] assms(2)
  ultimately show "window_change nd (nd1\<lparr>connecting := x, conn_thread := t\<rparr>)" "window_change nd nd1" "\<not> publishes fs"
    using window_change_trans set by auto
  from dispatch_keeps [OF assms(1)] show "radio_client nd1 = Some r'" by auto
qed

lemma window_step:
  assumes "background cb" "\<not> message_slot nd" "run_callback d w now cb nd = Inr (es, nd')"
  shows "window_change nd nd' \<and> \<not> publishes es"
proof (cases cb)
  case (Connection_thread a)
  show ?thesis
  proof (cases "conn_thread nd = Pending")
    case True
    with assms(3) Connection_thread have body: "connect_body now a nd = Inr (es, nd')" by simp
    then obtain fs r' nd1 where d: "dispatch now fs (nd\<lparr>radio_client := Some r'\<rparr>) = (es, nd1)"
      and nd': "nd' = nd1\<lparr>connecting := False, conn_thread := Done\<rparr>"
      by (rule connect_bodyE)
    from window_operation(1,3) [OF d assms(2)] nd' show ?thesis by simp
  qed (use assms(3) Connection_thread in \<open>auto simp: publishes_def\<close>)
next
  case (Network e)
  show ?thesis
  proof (cases "radio_client nd = None \<or> \<not> network_runs d e nd")
    case False
    with assms(3) Network have "node_net w now e nd = Inr (es, nd')" by auto
    then obtain r fs r' where "dispatch now fs (nd\<lparr>radio_client := Some r'\<rparr>) = (es, nd')"
      by (auto simp: node_net_def bind_res_eq_Inr)
    from window_operation(2,3) [OF this assms(2)] show ?thesis by simp
  qed (use assms(3) Network in \<open>auto simp: publishes_def\<close>)
qed (use assms(1) in auto)

lemma window_run:
  "run_callbacks d w cbs nd = Inr (es, nd') \<Longrightarrow> \<forall>cb \<in> set cbs. background (snd cb) \<Longrightarrow> \<not> message_slot nd \<Longrightarrow>
   window_change nd nd' \<and> \<not> publishes es"
proof (induction cbs arbitrary: nd es)
  case (Cons tcb cbs)
  obtain now cb where tcb: "tcb = (now, cb)" by (cases tcb)
  with Cons.prems(1) obtain e1 nd1 e2 where one: "run_callback d w now cb nd = Inr (e1, nd1)"
    and rest: "run_callbacks d w cbs nd1 = Inr (e2, nd')" and es: "es = e1 @ e2"
    by (auto simp: bind_res_eq_Inr)
  have "background cb" using Cons.prems(2) tcb by simp
  note step = window_step [OF this Cons.prems(3) one]
  with window_change_fields(1) [of nd nd1] Cons.IH [OF rest] Cons.prems(2,3)
  have "window_change nd1 nd' \<and> \<not> publishes e2" by simp
  with step window_change_trans [of nd nd1 nd'] es show ?case by simp
qed (auto simp: publishes_def)

lemma dispatch_quiet_messages:
  "dispatch now fs nd = (gs, nd') \<Longrightarrow> \<not> delivers fs \<Longrightarrow> \<forall>m i. Radio (Emit (OnMessageReceived m i)) \<notin> set gs"
  using dispatch_passes [of now fs nd gs nd'] by (auto simp: delivers_def)

text \<open>The state of a node whose client has no path yet.\<close>

definition unserved :: "bool \<Rightarrow> bool \<Rightarrow> node \<Rightarrow> bool" where
  "unserved d b nd \<longleftrightarrow> node_inv d b nd \<and> (\<exists>r. radio_client nd = Some r \<and> blank r)"

lemma window_step_blank:
  assumes "background cb" "unserved d b nd" "run_callback d w now cb nd = Inr (es, nd')"
  shows "unserved d b nd' \<and> (\<forall>m i. Radio (Emit (OnMessageReceived m i)) \<notin> set es)"
proof (cases "nd' = nd \<and> es = []")
  case moved: False
  from assms(2) obtain r where inv: "node_inv d b nd" and r: "radio_client nd = Some r" "blank r"
    by (auto simp: unserved_def)
  note rinv = node_inv_client [OF inv r(1)]
  show ?thesis
  proof (cases cb)
    case (Connection_thread a)
    with assms(3) moved have body: "connect_body now a nd = Inr (es, nd')" by (auto split: if_splits)
    then obtain q ra rp lp out ec fs r' n where q: "radio_client nd = Some q"
      and conn: "radio_connect a ra rp lp Success q = Inr (out, ec, fs, r')"
      and d: "dispatch now fs (nd\<lparr>radio_client := Some r'\<rparr>) = (es, n)"
      and nd': "nd' = n\<lparr>connecting := False, conn_thread := Done\<rparr>"
      by (rule connect_bodyE)
    from q r(1) have "q = r" by simp
    with conn blank_radio_connect [OF rinv r(2)] radio_connect_quiet [OF rinv] have "blank r'" "\<not> delivers fs" by simp_all
    moreover have "radio_client nd' = Some r'" using dispatch_keeps [OF d] nd' by auto
    ultimately show ?thesis
      using connect_body_inv(1) [OF inv body] dispatch_quiet_messages [OF d] by (auto simp: unserved_def)
  next
    case (Network e)
    with assms(3) moved have net: "network_runs d e nd" "node_net w now e nd = Inr (es, nd')" by (auto split: if_splits)
    with r(1) obtain fs r' where step: "net_step w e r = Inr (fs, r')"
      and d: "dispatch now fs (nd\<lparr>radio_client := Some r'\<rparr>) = (es, nd')"
      by (auto simp: node_net_def radio_of_def bind_res_eq_Inr)
    have "radio_client nd' = Some r'" using dispatch_keeps [OF d] by auto
    with node_net_inv [OF inv net] blank_net_step [OF rinv r(2) step] dispatch_quiet_messages [OF d] show ?thesis
      by (auto simp: unserved_def)
  qed (use assms(1) in auto)
qed (use assms(2) in simp)

lemma window_run_blank:
  "run_callbacks d w cbs nd = Inr (es, nd') \<Longrightarrow> \<forall>cb \<in> set cbs. background (snd cb) \<Longrightarrow> unserved d b nd \<Longrightarrow>
   unserved d b nd' \<and> (\<forall>m i. Radio (Emit (OnMessageReceived m i)) \<notin> set es)"
proof (induction cbs arbitrary: nd es)
  case (Cons tcb cbs)
  obtain now cb where tcb: "tcb = (now, cb)" by (cases tcb)
  with Cons.prems(1) obtain e1 nd1 e2 where one: "run_callback d w now cb nd = Inr (e1, nd1)"
    and rest: "run_callbacks d w cbs nd1 = Inr (e2, nd')" and es: "es = e1 @ e2"
    by (auto simp: bind_res_eq_Inr)
  have "background cb" using Cons.prems(2) tcb by simp
  with window_step_blank [OF _ Cons.prems(3) one] Cons.IH [OF rest] Cons.prems(2) es show ?case by auto
qed auto

section \<open>The state when the windows open\<close>

lemma new_radio_blank: "new_radio nd = (es, refs, r) \<Longrightarrow> blank r"
  by (auto simp: new_radio_def mqtt_construct_def setMqttConfig_def mqtt_init_def udp_init_def blank_base_def
      split: if_splits)

lemma createRadioClient_blank:
  assumes "createRadioClient now nd = Inr (es, nd')"
  shows "\<exists>r. radio_client nd' = Some r \<and> blank r"
proof -
  obtain cs refs r where new: "new_radio nd = (cs, refs, r)" by (cases "new_radio nd")
  with assms have "radio_client nd' = Some r" by (auto simp: createRadioClient_def bind_res_eq_Inr case_prod_beta)
  with new_radio_blank [OF new] show ?thesis by blast
qed

lemma radio_close_blank: "radio_close r = Inr (es, r') \<Longrightarrow> blank r \<Longrightarrow> blank r'"
  by (cases r)
    (auto simp: udp_close_def mqtt_cls_def mqtt_close_def bind_res_eq_Inr blank_base_def split: if_splits option.splits)

lemma close_radio_blank:
  assumes "close_radio now nd = Inr (es, nd')" "radio_client nd = Some r" "blank r"
  shows "\<exists>r'. radio_client nd' = Some r' \<and> blank r'"
proof -
  from assms(1,2) obtain fs r' where close: "radio_close r = Inr (fs, r')"
    and d: "dispatch now fs (nd\<lparr>radio_client := Some r'\<rparr>) = (es, nd')"
    by (auto simp: close_radio_def radio_of_def bind_res_eq_Inr)
  from dispatch_keeps [OF d] radio_close_blank [OF close assms(3)] show ?thesis by auto
qed

lemma join_thread_blank:
  assumes "join_thread now a nd = Inr (es, nd')" "radio_client nd = Some r" "blank r" "radio_inv d r"
  shows "\<exists>r'. radio_client nd' = Some r' \<and> blank r'"
proof (cases "conn_thread nd = Pending")
  case True
  with assms(1) have "connect_body now a nd = Inr (es, nd')" by (simp add: join_thread_def)
  then obtain q ra rp lp out ec fs r' n where q: "radio_client nd = Some q"
    and conn: "radio_connect a ra rp lp Success q = Inr (out, ec, fs, r')"
    and d: "dispatch now fs (nd\<lparr>radio_client := Some r'\<rparr>) = (es, n)"
    and nd': "nd' = n\<lparr>connecting := False, conn_thread := Done\<rparr>"
    by (rule connect_bodyE)
  from q assms(2) have "q = r" by simp
  with conn blank_radio_connect [OF assms(4,3)] have "blank r'" by simp
  with dispatch_keeps [OF d] nd' show ?thesis by auto
qed (use assms in \<open>auto simp: join_thread_def split: thread_state.splits\<close>)

lemma pre_spin_blank:
  assumes "pre_spin now a nd = Inr (es, nd')" "node_inv d b nd" "radio_client nd = Some r" "blank r"
  shows "\<exists>r'. radio_client nd' = Some r' \<and> blank r'"
proof -
  from assms(1) obtain nd1 where
    first: "nd1 = nd \<or> (\<exists>fs n. close_radio now nd = Inr (fs, n) \<and> nd1 = n\<lparr>radio_client_error := Success\<rparr>)"
    and last: "nd' = nd1 \<or> (\<exists>gs nd2. join_thread now a (nd1\<lparr>connecting := True\<rparr>) = Inr (gs, nd2) \<and>
       nd' = nd2\<lparr>conn_thread := Pending\<rparr>)"
    by (rule pre_spinE)
  have "\<exists>q. radio_client nd1 = Some q \<and> blank q \<and> radio_inv d q"
    using first
  proof (elim disjE exE conjE)
    fix fs n assume c: "close_radio now nd = Inr (fs, n)" and n: "nd1 = n\<lparr>radio_client_error := Success\<rparr>"
    from close_radio_blank [OF c assms(3,4)] n node_inv_client
      [OF node_moves_inv(1) [OF close_radio_moves [OF assms(2) c] assms(2)]] show ?thesis by auto
  qed (use assms(2-4) node_inv_client in auto)
  then obtain q where q: "radio_client nd1 = Some q" "blank q" "radio_inv d q" by blast
  with last show ?thesis using join_thread_blank [of now a "nd1\<lparr>connecting := True\<rparr>" _ _ q d] by auto
qed

lemma configure_begin_opens:
  assumes "node_inv d True nd" "configure_begin now a p nd = Inr (es, nd')"
  shows "node_inv d False nd'" "\<exists>r. radio_client nd' = Some r \<and> blank r"
proof -
  from assms(2) obtain e1 nd1 e2 where create: "createRadioClient now (nd\<lparr>config := read_config p default_config\<rparr>) = Inr (e1, nd1)"
    and spin: "pre_spin now a nd1 = Inr (e2, nd')"
    by (auto simp: configure_begin_def bind_res_eq_Inr)
  from createRadioClient_blank [OF create] obtain r where r: "radio_client nd1 = Some r" "blank r" by blast
  from createRadioClient_inv [of d True, OF _ create] assms(1) have inv: "node_inv d False nd1" by simp
  from r(1) pre_spin_inv(1) [OF inv _ spin] show "node_inv d False nd'" by simp
  from pre_spin_blank [OF spin inv r] show "\<exists>r. radio_client nd' = Some r \<and> blank r" .
qed

section \<open>What the windows lose\<close>

lemma configure_files_result:
  assumes "configure_files w share nd = Inr nd'"
  shows "send_msg_queue nd' = send_msg_queue nd" "message_slot nd' = message_slot nd" "radio_client_error nd' = Success"
    "error_slot nd'" "\<exists>r d. radio_client nd = Some r \<and> share = Some d \<and>
      radio_client nd' = Some (radio_set_path (d @ ''/etc/wave.json'') r)"
  using assms by (auto simp: configure_files_def radio_of_def bind_res_eq_Inr split: option.splits)

lemma configure_end_wires: "send_msg_queue nd = [] \<Longrightarrow> configure_end now sa nd = Inr ([], nd\<lparr>message_slot := True\<rparr>)"
  by (simp add: configure_end_def sendMessageFromQueue_empty)

text \<open>
  C31: what a radio delivers while the node is being configured is lost. Of whatever the connection thread and the
  transport's threads do between the steps of \<open>handle_on_configure\<close>, nothing is published. Before the client has
  the path of the wave file it recognises no datagram and does not even load its lists, and no error is stored,
  since no slot is connected; the second part of the handler clears the stored error; the third
  connects the slot of \<open>onMessageReceived\<close> and changes nothing else.
\<close>

theorem configure_window:
  assumes "node_inv d True nd" "configure_begin now a p nd = Inr (es, nd1)"
    "\<forall>cb \<in> set (cbs1 @ cbs2). background (snd cb)"
    "run_callbacks d w cbs1 nd1 = Inr (fs1, nd2)" "configure_files w share nd2 = Inr nd3"
    "run_callbacks d w cbs2 nd3 = Inr (fs2, nd4)"
  shows "\<not> publishes (fs1 @ fs2) \<and> (\<forall>m i. Radio (Emit (OnMessageReceived m i)) \<notin> set fs1) \<and>
    (\<exists>r. radio_client nd2 = Some r \<and> blank r) \<and>
    radio_client_error nd2 = radio_client_error nd1 \<and> radio_client_error nd3 = Success \<and>
    configure_end now sa nd4 = Inr ([], nd4\<lparr>message_slot := True\<rparr>)"
proof -
  note open_state = configure_begin_opens [OF assms(1,2)]
  then obtain r where r: "radio_client nd1 = Some r" "blank r" by blast
  with open_state(1) have un: "unserved d False nd1" by (simp add: unserved_def)
  from r open_state(1) have nd1: "\<not> message_slot nd1" "\<not> error_slot nd1" "send_msg_queue nd1 = []"
    by (simp_all add: node_inv_def)
  have bg: "\<forall>cb \<in> set cbs1. background (snd cb)" "\<forall>cb \<in> set cbs2. background (snd cb)" using assms(3) by auto
  note one = window_run [OF assms(4) bg(1) nd1(1)]
  then have change: "window_change nd1 nd2" by simp
  note lost = window_run_blank [OF assms(4) bg(1) un]
  note files = configure_files_result [OF assms(5)]
  have nd3: "\<not> message_slot nd3" "send_msg_queue nd3 = []"
    using files(1,2) window_change_fields(1,3) [OF change] nd1 by simp_all
  note two = window_run [OF assms(6) bg(2) nd3(1)]
  then have "send_msg_queue nd4 = []" using window_change_fields(3) [of nd3 nd4] nd3(2) by simp
  with one two lost files(3) window_change_fields(6) [OF change nd1(2)] show ?thesis
    by (simp add: configure_end_wires unserved_def)
qed

text \<open>The first datagram after the path is set loads the lists and is delivered.\<close>

lemma process_first_use:
  assumes "wave_file_path c = path" "path \<noteq> []" "wave_cfg_dsrc_msg_ids c = []" "wave_cfg_psids c = []"
    "be16 hi lo \<in> set deployed_id_numbers" "be16 hi lo \<noteq> 32"
    "1 \<le> length p" "length p \<le> 124 \<or> 128 \<le> length p" "length (message_frame hi lo p) \<le> 16383"
  shows "\<exists>c'. process (deployed_world path) (message_frame hi lo p) c =
    Inr ([(message_frame hi lo p, to_ushort (be16 hi lo))], c')"
proof -
  let ?its = "accepted_entries (deployed_world path) wave_schema_ids path"
  let ?c = "append_entries ?its c"
  have lists: "wave_cfg_dsrc_msg_ids ?c = deployed_ids" "wave_cfg_psids ?c = deployed_psids"
    using append_deployed [of path c] assms(3,4) by simp_all
  have "?its \<noteq> []"
  proof
    assume none: "?its = []"
    from lists(1) assms(3) show False unfolding none by (simp add: append_entries_def deployed_ids_def)
  qed
  moreover have "4 \<le> length (message_frame hi lo p)" using assms(7) by (cases p) (simp_all add: length_message_frame)
  ultimately have "process (deployed_world path) (message_frame hi lo p) c =
      process (deployed_world path) (message_frame hi lo p) ?c"
    using process_lazy [OF deployed_world_sound assms(3,4), of ?its path "message_frame hi lo p"] assms(1,2) by simp
  with deployed_start [OF lists assms(5-9), of "deployed_world path"] show ?thesis by auto
qed

section \<open>A broker that answers at once\<close>

definition early_frame :: mosq_message where
  "early_frame = \<lparr>msg_topic = ''t'', payload = Some [0, 20, 2, 8, 9], payloadlen = 5\<rparr>"

definition early_calls :: "(nat \<times> callback) list" where
  "early_calls = [(1, Connection_thread (mosq_side 5)), (2, Network (Mqtt_acknowledged 0)),
     (3, Network (Mqtt_message (Some early_frame)))]"

text \<open>The client once the broker acknowledged; the node before and after these callbacks.\<close>

definition early_client :: mqtt_client where
  "early_client = mqtt_init\<lparr>broker_address := ''localhost'', broker_port := 1883, mosq := Some 5, mqtt_connected := True\<rparr>"

definition early_start :: node where
  "early_start = (node_construct mqtt_params)
     \<lparr>config := read_config mqtt_params default_config, radio_client := Some (Mqtt mqtt_init), lib_refs := 1,
      connecting := True, conn_thread := Pending\<rparr>"

definition early_joined :: node where
  "early_joined = early_start\<lparr>radio_client := Some (Mqtt early_client), connecting := False, conn_thread := Done\<rparr>"

definition early_served :: node where
  "early_served = early_joined
     \<lparr>wave_cfg_items := deployed_items, radio_client := Some (Mqtt (set_wave_file_path ''/opt/etc/wave.json'' early_client)),
      radio_client_error := Success, error_slot := True\<rparr>"

lemma early_begin:
  "configure_begin 0 no_answers mqtt_params (node_construct mqtt_params) = Inr ([Radio Mosq_lib_init], early_start)"
  by (simp add: configure_begin_def createRadioClient_def new_radio_def mqtt_construct_def radio_destruct_def
      node_construct_def pre_spin_def radio_of_def join_thread_def setMqttConfig_def mqtt_init_def early_start_def
      read_config_def mqtt_params_def get_or_def default_config_def)

lemma early_run: "\<exists>fs. run_callbacks True w early_calls early_start = Inr (fs, early_joined)"
proof -
  let ?nd2 = "early_start\<lparr>radio_client := Some (Mqtt (early_client\<lparr>mqtt_connected := False\<rparr>)), connecting := False,
    conn_thread := Done\<rparr>"
  have nd1: "radio_client early_start = Some (Mqtt mqtt_init)" "protocol (config early_start) = ''mqtt''"
    "broker_addr (config early_start) = ''localhost''" "cfg_broker_port (config early_start) = 1883"
    "conn_thread early_start = Pending"
    by (simp_all add: early_start_def read_config_def mqtt_params_def get_or_def default_config_def)
  obtain e1 where "connect_body 1 (mosq_side 5) early_start = Inr (e1, ?nd2)"
    using connect_body_mqtt [OF nd1(1,2), of 1 5] nd1(3,4)
    by (simp add: to_ushort_def int_range_def early_client_def mqtt_init_def)
  moreover obtain e2 where "node_net w 2 (Mqtt_acknowledged 0) ?nd2 = Inr (e2, early_joined)"
    by (simp add: node_net_def handleConnect_def subscribeToTopics_def Let_def early_joined_def early_client_def)
  moreover have "blank_base early_client" by (simp add: blank_base_def early_client_def mqtt_init_def)
  then have "node_net w 3 (Mqtt_message (Some early_frame)) early_joined = Inr ([], early_joined)"
    by (simp add: node_net_def handleMessage_def early_frame_def process_blank message_signals_def early_joined_def)
  moreover have "mosq (early_client\<lparr>mqtt_connected := False\<rparr>) = Some 5" "mosq early_client = Some 5"
    by (simp_all add: early_client_def)
  ultimately show ?thesis using nd1(5) by (simp add: early_calls_def early_joined_def)
qed

lemma early_files:
  "configure_files (deployed_world ''/opt/etc/wave.json'') (Some ''/opt'') early_joined = Inr early_served"
  by (simp add: configure_files_def load_deployed_items [of "''/opt/etc/wave.json''", simplified] node_construct_def
      early_joined_def early_served_def early_start_def)

lemma early_end: "configure_end 0 any_answers early_served = Inr ([], early_served\<lparr>message_slot := True\<rparr>)"
  by (rule configure_end_wires) (simp add: node_construct_def early_served_def early_joined_def early_start_def)

lemma early_late:
  "\<exists>nd. run_callback True (deployed_world ''/opt/etc/wave.json'') 4 (Network (Mqtt_message (Some early_frame)))
      (early_served\<lparr>message_slot := True\<rparr>) =
     Inr ([Radio (Emit (OnMessageReceived [0, 20, 2, 8, 9] 20)),
           Published \<lparr>stamp = 4, frame_id = [], message_type = ''BSM'', content = [0, 20, 2, 8, 9]\<rparr>], nd)"
proof -
  let ?w = "deployed_world ''/opt/etc/wave.json''"
  let ?c = "set_wave_file_path ''/opt/etc/wave.json'' early_client"
  have e: "message_frame 0 20 [8, 9] = [0, 20, 2, 8, 9]" "be16 0 20 = 20" "to_ushort 20 = 20"
    by (simp_all add: message_frame_def length_determinant_def be16_eq to_ushort_def)
  have print: "to_string 20 = ''20''" by code_simp
  obtain c5 where "process ?w [0, 20, 2, 8, 9] ?c = Inr ([([0, 20, 2, 8, 9], 20)], c5)"
    using process_first_use [of ?c "''/opt/etc/wave.json''" 0 20 "[8, 9]"]
    by (auto simp: e deployed_id_numbers_def set_wave_file_path_def early_client_def mqtt_init_def)
  moreover have "mosq ?c = Some 5" by (simp add: early_client_def)
  ultimately show ?thesis
    by (simp add: early_served_def node_net_def handleMessage_def early_frame_def message_signals_def
        onMessageReceivedHandler_def item_by_id_def deployed_items_def print)
qed

text \<open>
  The message this broker sends after the subscription is lost, the same message sent after the handler returned
  is published.
\<close>

theorem configure_window_witness:
  "\<exists>es nd1 fs nd2 nd3 nd4 nd5.
     configure_begin 0 no_answers mqtt_params (node_construct mqtt_params) = Inr (es, nd1) \<and>
     run_callbacks True (deployed_world ''/opt/etc/wave.json'') early_calls nd1 = Inr (fs, nd2) \<and>
     \<not> publishes fs \<and>
     configure_files (deployed_world ''/opt/etc/wave.json'') (Some ''/opt'') nd2 = Inr nd3 \<and>
     configure_end 0 any_answers nd3 = Inr ([], nd4) \<and>
     run_callback True (deployed_world ''/opt/etc/wave.json'') 4 (Network (Mqtt_message (Some early_frame))) nd4 =
       Inr ([Radio (Emit (OnMessageReceived [0, 20, 2, 8, 9] 20)),
             Published \<lparr>stamp = 4, frame_id = [], message_type = ''BSM'', content = [0, 20, 2, 8, 9]\<rparr>], nd5)"
proof -
  let ?w = "deployed_world ''/opt/etc/wave.json''"
  obtain fs where run: "run_callbacks True ?w early_calls early_start = Inr (fs, early_joined)"
    using early_run by blast
  have "run_callbacks True ?w [] early_served = Inr ([], early_served)" by simp
  from configure_window [OF node_construct_inv(1) early_begin _ run early_files this, of any_answers]
  have "\<not> publishes fs" by (simp add: early_calls_def)
  then show ?thesis using early_begin run early_files early_end early_late by blast
qed

end
