(* ===== verification/Decoder_Forwarder.thy ===== *)
theory Decoder_Forwarder
  imports Inbound_Scan
begin

text \<open>
  The decoder tool beside the driver (\<open>scripts/v2x_decoder_forwarder.py\<close>): it takes the same datagrams, cuts the
  message out by searching for an identifier, and forwards what the J2735 library decodes. The theory compares its
  search with the scan of the driver.
\<close>

section \<open>The tool\<close>

text \<open>\<open>data.find(bytes([a, b]))\<close>: the first index of the two bytes; \<open>None\<close> for -1.\<close>

fun find_pair :: "byte \<Rightarrow> byte \<Rightarrow> bytes \<Rightarrow> nat option" where
  "find_pair a b (x # y # zs) = (if x = a \<and> y = b then Some 0 else map_option Suc (find_pair a b (y # zs)))"
| "find_pair a b _ = None"

text \<open>The loop over the identifiers of BSM and SDSM, in this order.\<close>

fun grab_first :: "(byte \<times> byte) list \<Rightarrow> bytes \<Rightarrow> bytes option" where
  "grab_first [] data = None"
| "grab_first ((a, b) # ids) data =
     (case find_pair a b data of Some idx \<Rightarrow> Some (drop idx data) | None \<Rightarrow> grab_first ids data)"

definition grab_payload :: "bytes \<Rightarrow> bytes option" where
  "grab_payload = grab_first [(0x00, 0x14), (0x00, 0x29)]"

definition recvfrom_size :: nat where
  "recvfrom_size = 16384"

text \<open>
  One turn of the loop: \<open>decode\<close> stands for the two calls of the ASN.1 library, \<open>None\<close> for an exception in them,
  \<open>sent\<close> tells whether \<open>sendto\<close> returned.
\<close>

datatype received_data = Timeout | Datagram bytes

datatype forward_effect = Printed string | Forwarded string | Forward_error

definition forwarder_turn :: "(bytes \<Rightarrow> string option) \<Rightarrow> bool \<Rightarrow> received_data \<Rightarrow> forward_effect list" where
  "forwarder_turn decode sent r =
     (case r of
        Timeout \<Rightarrow> []
      | Datagram d \<Rightarrow>
          (case grab_payload (take recvfrom_size d) of
             None \<Rightarrow> []
           | Some payload \<Rightarrow>
               if payload = [] then []
               else (case decode payload of
                       None \<Rightarrow> []
                     | Some decoded_msg \<Rightarrow> [Printed decoded_msg, if sent then Forwarded decoded_msg else Forward_error])))"

section \<open>What the search finds\<close>

definition pair_at :: "byte \<Rightarrow> byte \<Rightarrow> bytes \<Rightarrow> nat \<Rightarrow> bool" where
  "pair_at a b d i \<longleftrightarrow> i + 1 < length d \<and> d ! i = a \<and> d ! (i + 1) = b"

lemma pair_at_Suc: "pair_at a b (x # d) (Suc i) = pair_at a b d i"
  by (simp add: pair_at_def)

lemma find_pair_None: "find_pair a b d = None \<longleftrightarrow> (\<forall>i. \<not> pair_at a b d i)"
proof (induction a b d rule: find_pair.induct)
  case (1 a b x y zs)
  show ?case
  proof (cases "x = a \<and> y = b")
    case True
    then have "pair_at a b (x # y # zs) 0" by (simp add: pair_at_def)
    with True show ?thesis by auto
  next
    case False
    then have "\<not> pair_at a b (x # y # zs) 0" by (auto simp: pair_at_def)
    with False 1 show ?thesis by (metis not0_implies_Suc option.map_disc_iff find_pair.simps(1) pair_at_Suc)
  qed
qed (auto simp: pair_at_def)

lemma find_pair_Some: "find_pair a b d = Some i \<longleftrightarrow> pair_at a b d i \<and> (\<forall>j < i. \<not> pair_at a b d j)"
proof (induction a b d arbitrary: i rule: find_pair.induct)
  case (1 a b x y zs)
  show ?case
  proof (cases "x = a \<and> y = b")
    case True
    then have "pair_at a b (x # y # zs) 0" by (simp add: pair_at_def)
    with True show ?thesis by (cases i) auto
  next
    case False
    then have "\<not> pair_at a b (x # y # zs) 0" by (auto simp: pair_at_def)
    with False 1 show ?thesis by (cases i) (auto simp: pair_at_Suc less_Suc_eq_0_disj)
  qed
qed (auto simp: pair_at_def)

lemma pair_at_u16: "i + 1 < length d \<Longrightarrow> pair_at a b d i \<longleftrightarrow> u16 d i = be16 a b"
  by (auto simp: pair_at_def u16_def be16_inject)

lemma grab_payload_cases:
  "(\<exists>i. find_pair 0 0x14 d = Some i \<and> grab_payload d = Some (drop i d)) \<or>
   (find_pair 0 0x14 d = None \<and> grab_payload d = map_option (\<lambda>i. drop i d) (find_pair 0 0x29 d))"
  by (simp add: grab_payload_def split: option.split)

lemma drop_eq_iff: "i < length d \<Longrightarrow> k < length d \<Longrightarrow> drop i d = drop k d \<longleftrightarrow> i = k"
  by (metis length_drop diff_diff_cancel less_imp_le)

lemma find_pair_less: "find_pair a b d = Some i \<Longrightarrow> i < length d"
  by (simp add: find_pair_Some pair_at_def)

lemma grab_eq_iff:
  assumes "k < length d"
  shows "grab_payload d = Some (drop k d) \<longleftrightarrow>
    find_pair 0 0x14 d = Some k \<or> (find_pair 0 0x14 d = None \<and> find_pair 0 0x29 d = Some k)"
proof (cases "find_pair 0 0x14 d")
  case None
  then have grab: "grab_payload d = map_option (\<lambda>i. drop i d) (find_pair 0 0x29 d)"
    using grab_payload_cases [of d] by simp
  show ?thesis
  proof (cases "find_pair 0 0x29 d")
    case (Some i)
    from drop_eq_iff [OF find_pair_less [OF this] assms] Some show ?thesis by (simp add: grab None)
  qed (simp add: grab None)
next
  case (Some i)
  with assms grab_payload_cases [of d] find_pair_less [OF Some] show ?thesis
    by (auto simp: drop_eq_iff)
qed

text \<open>
  C39: the tool beside the driver and the driver do not always see the same message. For a datagram the tool's
  buffer holds, in which the driver finds a BSM or an SDSM, the tool finds something. It is the
  driver's message exactly when, for a BSM, the bytes 0, 20 do not occur before it, and for an SDSM, they occur
  nowhere in the datagram, its own content included, and the bytes 0, 41 not before it.
\<close>

theorem forwarder_agrees:
  assumes "process w d c = Inr ([(m, i)], c')" "i = 20 \<or> i = 41" "length d \<le> recvfrom_size"
    "k = length d - length m"
  shows "grab_payload (take recvfrom_size d) \<noteq> None \<and>
    (grab_payload (take recvfrom_size d) = Some m \<longleftrightarrow>
      (if i = 20 then \<forall>j < k. \<not> pair_at 0 0x14 d j
       else (\<forall>j. \<not> pair_at 0 0x14 d j) \<and> (\<forall>j < k. \<not> pair_at 0 0x29 d j)))"
proof -
  from process_outcome [OF assms(1)] obtain l where "delivered_from c' d (m, i) l" by auto
  then have l: "l + 3 < length d" "m = drop l d" "i = to_ushort (u16 d l)" by (auto simp: delivered_from_def)
  with assms(4) have k: "k = l" "m = drop k d" "k < length d" by simp_all
  have d: "take recvfrom_size d = d" using assms(3) by simp
  have id: "u16 d k = uint i" using l k(1) to_ushort_be16 by (simp add: u16_def)
  have ids: "be16 0 0x14 = 20" "be16 0 0x29 = 41" by (simp_all add: be16_eq)
  have here: "pair_at 0 0x14 d k \<longleftrightarrow> i = 20" "pair_at 0 0x29 d k \<longleftrightarrow> i = 41"
    using l(1) k(1) id ids by (auto simp: pair_at_u16 word_uint_eq_iff)
  have "find_pair 0 0x14 d \<noteq> None \<or> find_pair 0 0x29 d \<noteq> None"
    using here assms(2) unfolding find_pair_None by blast
  then have "grab_payload d \<noteq> None" using grab_payload_cases [of d] by auto
  moreover have "grab_payload d = Some m \<longleftrightarrow>
      find_pair 0 0x14 d = Some k \<or> (find_pair 0 0x14 d = None \<and> find_pair 0 0x29 d = Some k)"
    unfolding k(2) by (rule grab_eq_iff [OF k(3)])
  moreover have "(20::16 word) \<noteq> 41" by simp
  ultimately show ?thesis
    using here assms(2) unfolding d by (auto simp: find_pair_Some find_pair_None)
qed

text \<open>An SDSM whose content has the bytes 0, 20 in it: the driver delivers it, the tool decodes its tail.\<close>

theorem forwarder_agrees_witness:
  "process (deployed_world ''w'') [0, 41, 4, 7, 0, 20, 9] (deployed_client ''w'') =
     Inr ([([0, 41, 4, 7, 0, 20, 9], 41)], deployed_client ''w'') \<and>
   grab_payload [0, 41, 4, 7, 0, 20, 9] = Some [0, 20, 9] \<and>
   grab_payload (take recvfrom_size [0, 41, 4, 7, 0, 20, 9]) \<noteq> Some [0, 41, 4, 7, 0, 20, 9]"
proof -
  let ?d = "[0, 41, 4, 7, 0, 20, 9] :: bytes"
  have e: "message_frame 0 41 [7, 0, 20, 9] = ?d" "be16 0 41 = 41" "to_ushort 41 = 41"
    by (simp_all add: message_frame_def length_determinant_def be16_eq to_ushort_def)
  have run: "process (deployed_world ''w'') ?d (deployed_client ''w'') = Inr ([(?d, 41)], deployed_client ''w'')"
    using deployed_start [of "deployed_client ''w''" 0 41 "[7, 0, 20, 9]" "deployed_world ''w''"]
    by (simp add: e deployed_id_numbers_def deployed_client_def)
  have "pair_at 0 0x14 ?d 4" by (simp add: pair_at_def)
  with forwarder_agrees [OF run _ _ refl] have "grab_payload (take recvfrom_size ?d) \<noteq> Some ?d"
    by (auto simp: recvfrom_size_def)
  with run show ?thesis by (simp add: grab_payload_def)
qed

end
