(* ===== verification/Inbound_Faults.thy ===== *)
theory Inbound_Faults
  imports Node_Ends Base_Frame
begin

text \<open>
  What a message from the network can break: every failure of \<open>process\<close>, and from it every failure of the
  transports' threads in a state the node gets to. It is the counterpart of the failures of outbound
  messages.
\<close>

section \<open>Failures of the checks\<close>

lemma u16_at_fault: "u16_at entry i = Inl f \<Longrightarrow> f = Out_of_bounds"
  by (cases "i + 1 < length entry") simp_all

lemma bsm_id_scan_fault: "bsm_id_scan n j entry = Inl f \<Longrightarrow> f = Out_of_bounds"
  by (induction n arbitrary: j) (auto simp: bind_res_eq_Inl dest: u16_at_fault split: if_splits)

lemma element_id_scan_fault: "element_id_scan n i entry = Inl f \<Longrightarrow> f = Out_of_bounds"
  by (induction n arbitrary: i) (auto simp: bind_res_eq_Inl dest: u16_at_fault bsm_id_scan_fault split: if_splits)

lemma bsm_psid_fault: "isValidMsgAssumingBSMPSID i entry = Inl f \<Longrightarrow> f = Out_of_bounds \<and> length entry \<le> i + 11"
  using element_id_scan_fault [of 6 i entry f] isValidMsgAssumingBSMPSID_eq [of i entry]
  by (cases "i + 11 < length entry") (simp_all add: isValidMsgAssumingBSMPSID_def)

lemma psid_scan_fault: "psid_scan m ps = Inl f \<Longrightarrow> set ps \<subseteq> S \<Longrightarrow> \<exists>p \<in> S. stoi16 p = Inl f"
  by (induction ps) (auto simp: bind_res_eq_Inl split: if_splits)

lemma psid_scan_hit:
  "psid_scan (to_string n) ps = Inr True \<Longrightarrow> set ps \<subseteq> S \<Longrightarrow> \<exists>p \<in> S. stoi16 p = Inr n"
  by (induction ps) (auto simp: bind_res_eq_Inr split: if_splits)

text \<open>The PSID texts the client has or will have once it has read its file.\<close>

definition psid_texts :: "world \<Rightarrow> 'a base_client_scheme \<Rightarrow> string set" where
  "psid_texts w c = set (wave_cfg_psids c) \<union>
     (\<lambda>it. field_text it ''psid'') ` set (accepted_entries w wave_schema_ids (wave_file_path c))"

lemma psid_texts_load:
  assumes "validator_sound w wave_schema_ids" "loadWaveConfigIds w (wave_file_path c) c = Inr c'"
  shows "psid_texts w c' = psid_texts w c"
  using assms by (auto simp: loadWaveConfigIds_eq psid_texts_def append_entries_def)

lemma IsValidMsgID_returns:
  assumes "validator_sound w wave_schema_ids"
  shows "\<exists>b c'. IsValidMsgID w m c = Inr (b, c') \<and> psid_texts w c' = psid_texts w c"
proof -
  obtain c' where "loadWaveConfigIds w (wave_file_path c) c = Inr c'"
    using loadWaveConfigIds_eq [OF assms] by blast
  with psid_texts_load [OF assms this] show ?thesis by (simp add: IsValidMsgID_def) blast
qed

lemma isPossiblePSID_ends:
  assumes "validator_sound w wave_schema_ids"
  shows "case isPossiblePSID w (to_string n) c of
      Inl f \<Rightarrow> \<exists>p \<in> psid_texts w c. stoi16 p = Inl f
    | Inr (b, c') \<Rightarrow> psid_texts w c' = psid_texts w c \<and> (b \<longrightarrow> (\<exists>p \<in> psid_texts w c. stoi16 p = Inr n))"
proof -
  obtain c' where load: "loadWaveConfigIds w (wave_file_path c) c = Inr c'"
    using loadWaveConfigIds_eq [OF assms] by blast
  have sub: "set (wave_cfg_psids c') \<subseteq> psid_texts w c" "set (wave_cfg_psids c) \<subseteq> psid_texts w c"
    using psid_texts_load [OF assms load] by (auto simp: psid_texts_def)
  show ?thesis
  proof (cases "wave_cfg_psids c = []")
    case True
    with load sub psid_texts_load [OF assms load] show ?thesis
      by (cases "psid_scan (to_string n) (wave_cfg_psids c')") (auto simp: isPossiblePSID_def psid_scan_fault intro: psid_scan_hit)
  next
    case False
    with sub show ?thesis
      by (cases "psid_scan (to_string n) (wave_cfg_psids c)") (auto simp: isPossiblePSID_def psid_scan_fault intro: psid_scan_hit)
  qed
qed

text \<open>
  A candidate that passed the length check, whose identifier is also one of the PSIDs, has less than twelve bytes.
\<close>

definition short_tail :: "string set \<Rightarrow> bytes \<Rightarrow> bool" where
  "short_tail psids entry \<longleftrightarrow>
     (\<exists>k. k + 3 < length entry \<and> length entry \<le> k + 11 \<and> size_ok (drop k entry) \<and>
       (\<exists>p \<in> psids. stoi16 p = Inr (u16 entry k)))"

text \<open>The checks of a candidate whose size fits, and what follows when they do not accept it.\<close>

lemma candidate_fault:
  fixes c :: "'a base_client_scheme"
  assumes "validator_sound w wave_schema_ids" "size_ok (drop i entry)" "i + 3 < length entry"
    and fault: "bind_res (isPossiblePSID w (to_string (u16 entry i)) c) (\<lambda>(possible, c2).
         bind_res (if \<not> possible then Inr True else bind_res (isValidMsgAssumingBSMPSID i entry) (\<lambda>b. Inr (\<not> b)))
           (\<lambda>ok. if ok then Inr ([(drop i entry, to_ushort (u16 entry i))], c2) else process_loop w entry (i + 1) c2)) = Inl f"
  shows "(\<exists>p \<in> psid_texts w c. stoi16 p = Inl f) \<or> (f = Out_of_bounds \<and> short_tail (psid_texts w c) entry) \<or>
    (\<exists>c2 :: 'a base_client_scheme. psid_texts w c2 = psid_texts w c \<and> process_loop w entry (Suc i) c2 = Inl f)"
proof -
  note poss = isPossiblePSID_ends [OF assms(1), of c "u16 entry i"]
  show ?thesis
  proof (cases "isPossiblePSID w (to_string (u16 entry i)) c")
    case (Inl g)
    with fault poss show ?thesis by simp
  next
    case possible: (Inr x)
    obtain possible c2 where x: "x = (possible, c2)" by (cases x)
    with poss possible have c2: "psid_texts w c2 = psid_texts w c"
      and hit: "possible \<Longrightarrow> \<exists>p \<in> psid_texts w c. stoi16 p = Inr (u16 entry i)" by auto
    show ?thesis
    proof (cases "isValidMsgAssumingBSMPSID i entry")
      case out: (Inl g)
      show ?thesis
      proof (cases possible)
        case yes: True
        with out bsm_psid_fault [OF out] fault possible x assms(2,3) hit [OF yes] show ?thesis
          by (auto simp: short_tail_def intro!: exI [of _ i])
      qed (use fault possible x in simp)
    next
      case (Inr h)
      with fault possible x have "process_loop w entry (Suc i) c2 = Inl f" by (auto split: if_splits)
      with c2 show ?thesis by blast
    qed
  qed
qed

lemma process_loop_fault:
  fixes c :: "'a base_client_scheme"
  assumes "validator_sound w wave_schema_ids"
  shows "process_loop w entry i c = Inl f \<Longrightarrow>
    (\<exists>p \<in> psid_texts w c. stoi16 p = Inl f) \<or> (f = Out_of_bounds \<and> short_tail (psid_texts w c) entry)"
proof (induction "length entry - i" arbitrary: i c rule: less_induct)
  case less
  then have more: "i < length entry - 3" by (cases "i < length entry - 3") (simp_all add: process_loop.simps [of w entry i c])
  then have room: "i + 3 < length entry" by simp
  obtain b c1 where v: "IsValidMsgID w (to_string (u16 entry i)) c = Inr (b, c1)" "psid_texts w c1 = psid_texts w c"
    using IsValidMsgID_returns [OF assms] by blast
  have IH: "process_loop w entry (Suc i) d = Inl f \<Longrightarrow> psid_texts w d = psid_texts w c \<Longrightarrow> ?case"
    for d :: "'a base_client_scheme"
    using less.hyps [of "Suc i" d] more by simp
  have step: "process_loop w entry i c =
      (if b \<and> \<not> length entry \<le> i + 3 then if length entry - i > max_message then Inr ([], c1)
       else if \<not> size_ok (drop i entry) then process_loop w entry (Suc i) c1
       else bind_res (isPossiblePSID w (to_string (u16 entry i)) c1) (\<lambda>(possible, c2).
         bind_res (if \<not> possible then Inr True else bind_res (isValidMsgAssumingBSMPSID i entry) (\<lambda>b. Inr (\<not> b)))
           (\<lambda>ok. if ok then Inr ([(drop i entry, to_ushort (u16 entry i))], c2) else process_loop w entry (i + 1) c2))
       else if b then Inr ([], c1) else process_loop w entry (Suc i) c1)"
    using more v by (simp add: process_loop.simps [of w entry i c] isValidMsgSize_drop short_frame_def)
  show ?case
  proof (cases "b \<and> length entry - i \<le> max_message \<and> size_ok (drop i entry)")
    case False
    with less.prems step more IH [OF _ v(2)] show ?thesis by (auto split: if_splits)
  next
    case True
    then have fits: "size_ok (drop i entry)" by simp
    have "bind_res (isPossiblePSID w (to_string (u16 entry i)) c1) (\<lambda>(possible, c2).
         bind_res (if \<not> possible then Inr True else bind_res (isValidMsgAssumingBSMPSID i entry) (\<lambda>b. Inr (\<not> b)))
           (\<lambda>ok. if ok then Inr ([(drop i entry, to_ushort (u16 entry i))], c2) else process_loop w entry (i + 1) c2)) = Inl f"
      using less.prems step room True by auto
    from candidate_fault [OF assms fits room this] show ?thesis unfolding v(2)
    proof (elim disjE exE conjE)
      fix d :: "'a base_client_scheme"
      assume "psid_texts w d = psid_texts w c" "process_loop w entry (Suc i) d = Inl f"
      then show ?thesis by (intro IH)
    qed (assumption | rule disjI1 disjI2 conjI)+
  qed
qed

lemma process_fault:
  "validator_sound w wave_schema_ids \<Longrightarrow> process w entry c = Inl f \<Longrightarrow>
   (\<exists>p \<in> psid_texts w c. stoi16 p = Inl f) \<or> (f = Out_of_bounds \<and> short_tail (psid_texts w c) entry)"
  using process_loop_fault [of w entry 0 c f] by (simp add: process_def split: if_splits)

section \<open>Failures on the transports' threads\<close>

lemma stoi16_only: "stoi16 p = Inl f \<Longrightarrow> f = Thrown Invalid_argument \<or> f = Thrown Out_of_range"
  by (rule stoi16_fault)

text \<open>The bytes a step of a transport's thread hands to \<open>process\<close>.\<close>

definition handed_over :: "net_event \<Rightarrow> radio \<Rightarrow> bytes \<Rightarrow> bool" where
  "handed_over e r d \<longleftrightarrow>
     (\<exists>c a ts. r = Udp c \<and> e = Udp_net (Ev_turn a) \<and> io_tasks c = Deliver d # ts) \<or>
     (\<exists>c m buf. r = Mqtt c \<and> e = Mqtt_message (Some m) \<and> payload m = Some buf \<and>
        d = take (nat (payloadlen m)) buf)"

fun radio_texts :: "world \<Rightarrow> radio \<Rightarrow> string set" where
  "radio_texts w (Udp c) = psid_texts w c"
| "radio_texts w (Mqtt c) = psid_texts w c"

lemma io_turn_fault:
  assumes "validator_sound w wave_schema_ids" "wf_udp c" "udp_running c" "io_turn w a c = Inl f"
  shows "\<exists>d ts. io_tasks c = Deliver d # ts \<and>
    ((\<exists>p \<in> psid_texts w c. stoi16 p = Inl f) \<or> (f = Out_of_bounds \<and> short_tail (psid_texts w c) d))"
proof (cases "io_tasks c")
  case (Cons t ts)
  then show ?thesis
  proof (cases t)
    case (Deliver d)
    with Cons assms(4) have "process w d (c\<lparr>io_tasks := ts\<rparr>) = Inl f"
      by (auto simp: io_turn_def bind_res_eq_Inl)
    from process_fault [OF assms(1) this] Cons Deliver show ?thesis by (simp add: psid_texts_def)
  next
    case (Transmit m)
    with Cons assms show ?thesis by (simp add: io_turn_transmit)
  qed
qed (use assms(4) in \<open>simp add: io_turn_def\<close>)

lemma handle_recv_fault:
  "handle_recv_udp ec avail recv l = Inl f \<Longrightarrow> f = Thrown Library_error \<and> (\<forall>n. avail \<noteq> Value n)"
  by (auto simp: handle_recv_udp_def Let_def split: if_splits answer.splits sum.splits)

lemma io_receive_fault:
  "waiting c \<Longrightarrow> io_receive ec avail recv c = Inl f \<Longrightarrow> f = Thrown Library_error \<and> (\<forall>n. avail \<noteq> Value n)"
  by (auto simp: io_receive_def waiting_def bind_res_eq_Inl dest: handle_recv_fault)

lemma handleMessage_fault:
  assumes "validator_sound w wave_schema_ids" "handleMessage w (Some m) c = Inl f"
  shows "\<exists>buf. payload m = Some buf \<and>
    ((\<exists>p \<in> psid_texts w c. stoi16 p = Inl f) \<or>
     (f = Out_of_bounds \<and> (short_tail (psid_texts w c) (take (nat (payloadlen m)) buf) \<or> int (length buf) < payloadlen m)))"
  using assms(2)
  by (auto simp: handleMessage_def bind_res_eq_Inl dest: process_fault [OF assms(1)] split: option.splits if_splits)

text \<open>
  C14: what a message from the network can break, in every state the node gets to and with a validator that does
  what it documents. A step of a transport's thread that fails has failed in one of four ways: the socket
  threw when asked for the size of the datagram; a configured PSID is not a number, and \<open>std::stoi\<close> threw
  what leaves the thread; \<open>process\<close> was given bytes in which a candidate of a fitting length, whose identifier
  is also a configured PSID, has less than twelve bytes left, and read past their end; the broker library announced more bytes than it has. No null pointer, no failed
  assertion of the JSON library, no overflow.
\<close>

theorem inbound_faults:
  assumes "run_callbacks d w cbs (node_construct p) = Inr (es, nd)" "radio_client nd = Some r"
    "validator_sound w wave_schema_ids" "node_net w now e nd = Inl f"
  shows "(f = Thrown Library_error \<and> (\<exists>ec avail recv. e = Udp_net (Ev_receive ec avail recv) \<and> (\<forall>n. avail \<noteq> Value n))) \<or>
    (f \<in> {Thrown Invalid_argument, Thrown Out_of_range} \<and> (\<exists>p \<in> radio_texts w r. stoi16 p = Inl f) \<and>
       (\<exists>b. handed_over e r b)) \<or>
    (f = Out_of_bounds \<and> (\<exists>b. handed_over e r b \<and> short_tail (radio_texts w r) b)) \<or>
    (f = Out_of_bounds \<and> (\<exists>m buf. e = Mqtt_message (Some m) \<and> payload m = Some buf \<and> int (length buf) < payloadlen m))"
proof -
  have inv: "radio_inv d r" using node_inv_client [OF run_inv [OF assms(1)] assms(2)] .
  have fault: "net_step w e r = Inl f" using assms(2,4) by (auto simp: node_net_def bind_res_eq_Inl)
  show ?thesis
  proof (cases r)
    case (Udp c)
    with inv have wf: "wf_udp c" by simp
    from fault Udp obtain u where u: "e = Udp_net u" "udp_event_step w u c = Inl f"
      by (cases e) (auto simp: bind_res_eq_Inl)
    show ?thesis
    proof (cases u)
      case (Ev_send a m)
      with u wf show ?thesis by (simp add: udp_send_total split: if_split_asm)
    next
      case (Ev_turn a)
      with u have "udp_running c" "io_turn w a c = Inl f" by (auto simp: bind_res_eq_Inl split: if_splits)
      from io_turn_fault [OF assms(3) wf this] u(1) Ev_turn Udp stoi16_only show ?thesis
        by (fastforce simp: handed_over_def)
    next
      case (Ev_receive ec avail recv)
      with u have "waiting c" "io_receive ec avail recv c = Inl f" by (auto simp: bind_res_eq_Inl split: if_splits)
      from io_receive_fault [OF this] u(1) Ev_receive show ?thesis by blast
    qed
  next
    case (Mqtt c)
    with fault obtain m where m: "e = Mqtt_message (Some m)" "handleMessage w (Some m) c = Inl f"
      by (cases e) (auto simp: bind_res_eq_Inl case_prod_beta handleMessage_def split: option.splits)
    from handleMessage_fault [OF assms(3) m(2)] m(1) Mqtt stoi16_only show ?thesis
      by (fastforce simp: handed_over_def)
  qed
qed

text \<open>A node that was just configured for MQTT and is handed a PSM with one byte of payload.\<close>

lemma first_psm_fault:
  assumes "base_part c = \<lparr>wave_cfg_dsrc_msg_ids = [], wave_cfg_psids = [], wave_file_path = path\<rparr>" "path \<noteq> []"
  shows "process (deployed_world path) (message_frame 0 32 [5]) c = Inl Out_of_bounds"
proof -
  let ?b = "\<lparr>wave_cfg_dsrc_msg_ids = [], wave_cfg_psids = [], wave_file_path = path\<rparr>" and ?w = "deployed_world path"
  let ?its = "accepted_entries ?w wave_schema_ids (wave_file_path ?b)"
  have its: "?its \<noteq> []" by (simp add: deployed_entries wave_schema_ids_def wave_json_def)
  have "4 \<le> length (message_frame 0 32 [5])" by (simp add: length_message_frame)
  then have "process ?w (message_frame 0 32 [5]) ?b = process ?w (message_frame 0 32 [5]) (append_entries ?its ?b)"
    by (intro process_lazy) (use assms(2) its in simp_all)
  also have "append_entries ?its ?b = deployed_client path"
    by (simp add: append_deployed deployed_client_def)
  also have "process ?w (message_frame 0 32 [5]) (deployed_client path) = Inl Out_of_bounds"
    by (rule short_psm_fault) simp_all
  finally show ?thesis using assms(1) by (simp add: process_base [of _ _ c])
qed

theorem inbound_faults_witness:
  "\<exists>es nd r. run_callbacks True opt_world [configure_call mqtt_params] (node_construct mqtt_params) = Inr (es, nd) \<and>
     radio_client nd = Some r \<and> node_net opt_world 1 (Mqtt_message (Some \<lparr>msg_topic = [], payload = Some (message_frame 0 32 [5]), payloadlen = 4\<rparr>)) nd =
       Inl Out_of_bounds \<and> short_tail (radio_texts opt_world r) (message_frame 0 32 [5])"
proof -
  let ?m = "\<lparr>msg_topic = [], payload = Some (message_frame 0 32 [5]), payloadlen = 4\<rparr>"
  obtain es nd where run: "run_callbacks True opt_world [configure_call mqtt_params] (node_construct mqtt_params) = Inr (es, nd)"
    and r: "radio_client nd = Some (fresh_radio (read_config mqtt_params default_config) ''/opt/etc/wave.json'')"
    using run_configured by blast
  then obtain c where c: "radio_client nd = Some (Mqtt c)"
    "base_part c = \<lparr>wave_cfg_dsrc_msg_ids = [], wave_cfg_psids = [], wave_file_path = ''/opt/etc/wave.json''\<rparr>"
    by (simp add: fresh_radio_def set_wave_file_path_def setMqttConfig_def mqtt_init_def base_part_defs)
  have len: "length (message_frame 0 32 [5]) = 4" by (simp add: length_message_frame)
  have "process opt_world (message_frame 0 32 [5]) c = Inl Out_of_bounds"
    unfolding opt_world_def using c(2) by (rule first_psm_fault) simp
  with c(1) len have fault: "node_net opt_world 1 (Mqtt_message (Some ?m)) nd = Inl Out_of_bounds"
    by (simp add: node_net_def handleMessage_def)
  from inbound_faults [OF run c(1) opt_world_sound fault] len have "short_tail (radio_texts opt_world (Mqtt c)) (message_frame 0 32 [5])"
    by (auto simp: handed_over_def)
  with run fault c(1) show ?thesis by blast
qed

end
