(* ===== verification/Config_Text.thy ===== *)
theory Config_Text
  imports Driver_Node
begin

text \<open>
  The stream operator of \<open>Config\<close> (\<open>v2x_ros_driver_config.h\<close>), what the node logs when it is configured,
  and the proof that the text tells which configuration it is; the parameters of \<open>config/params.yaml\<close>.
\<close>

definition config_text :: "config \<Rightarrow> string" where
  "config_text c =
     ''v2x_ros_driver::Config { '' @ nl @
     ''protocol: '' @ protocol c @ nl @
     ''listening_port: '' @ to_string (listening_port c) @ nl @
     ''v2x_radio_listening_port: '' @ to_string (v2x_radio_listening_port c) @ nl @
     ''v2x_radio_address: '' @ v2x_radio_address c @ nl @
     ''broker_address: '' @ broker_addr c @ nl @
     ''broker_port: '' @ to_string (cfg_broker_port c) @ nl @
     ''client_id: '' @ cfg_client_id c @ nl @
     ''qos_default: '' @ to_string (qos_default c) @ nl @
     ''reconnect_interval_sec: '' @ to_string (cfg_reconnect_interval_sec c) @ nl @
     ''mqtt_topic_prefix: '' @ cfg_mqtt_topic_prefix c @ nl @
     ''}'' @ nl"

definition config_lines :: "config \<Rightarrow> string list" where
  "config_lines c =
     [''v2x_ros_driver::Config { '', ''protocol: '' @ protocol c,
      ''listening_port: '' @ to_string (listening_port c),
      ''v2x_radio_listening_port: '' @ to_string (v2x_radio_listening_port c),
      ''v2x_radio_address: '' @ v2x_radio_address c, ''broker_address: '' @ broker_addr c,
      ''broker_port: '' @ to_string (cfg_broker_port c), ''client_id: '' @ cfg_client_id c,
      ''qos_default: '' @ to_string (qos_default c),
      ''reconnect_interval_sec: '' @ to_string (cfg_reconnect_interval_sec c),
      ''mqtt_topic_prefix: '' @ cfg_mqtt_topic_prefix c, ''}'']"

lemma config_text_concat: "config_text c = concat (map (\<lambda>l. l @ nl) (config_lines c))"
  by (simp add: config_text_def config_lines_def)

definition one_line_config :: "config \<Rightarrow> bool" where
  "one_line_config c \<longleftrightarrow> one_line (protocol c) \<and> one_line (v2x_radio_address c) \<and> one_line (broker_addr c) \<and>
     one_line (cfg_client_id c) \<and> one_line (cfg_mqtt_topic_prefix c)"

text \<open>The lines of the text are the fields, each once, after its name.\<close>

lemma config_text_lines:
  assumes "one_line_config c"
  shows "text_lines [] (config_text c) = config_lines c"
proof -
  have "list_all one_line (config_lines c)"
    using assms to_string_no_newline by (simp add: one_line_config_def config_lines_def one_line_def)
  then show ?thesis by (simp add: config_text_concat text_lines_concat)
qed

lemma config_text_inject:
  assumes "one_line_config c" "one_line_config c'" "config_text c = config_text c'"
  shows "c = c'"
proof -
  have "config_lines c = config_lines c'"
    using config_text_lines [OF assms(1)] config_text_lines [OF assms(2)] assms(3) by simp
  then show ?thesis by (simp add: config_lines_def)
qed

text \<open>A value with a line break in it can pass for another field.\<close>

lemma config_text_forged:
  "\<exists>c c'. config_text c = config_text c' \<and> broker_addr c \<noteq> broker_addr c' \<and> \<not> one_line_config c'"
proof -
  let ?p = "nl @ ''broker_port: '' @ to_string 1883 @ nl @ ''client_id: ''"
  let ?c = "default_config\<lparr>cfg_client_id := ''x'' @ ?p @ ''y''\<rparr>"
  let ?c' = "default_config\<lparr>broker_addr := ''localhost'' @ ?p @ ''x'', cfg_client_id := ''y''\<rparr>"
  have "config_text ?c = config_text ?c'"
    by (simp add: config_text_def default_config_def)
  moreover have "broker_addr ?c \<noteq> broker_addr ?c'" "\<not> one_line_config ?c'"
    by (simp_all add: one_line_config_def one_line_def nl_def default_config_def)
  ultimately show ?thesis by blast
qed

section \<open>The parameter file\<close>

text \<open>\<open>config/params.yaml\<close>, which the launch files hand to the node.\<close>

definition params_yaml :: params where
  "params_yaml =
     \<lparr>int_param = map_of
        [(''v2x_radio_listening_port'', 1516), (''listening_port'', 5398), (''broker_port'', 1883),
         (''qos_default'', 0), (''reconnect_interval_sec'', 5)],
      string_param = map_of
        [(''protocol'', ''udp''), (''v2x_radio_address'', ''192.168.88.40''),
         (''broker_address'', ''192.168.88.40''), (''client_id'', []), (''mqtt_topic_prefix'', ''Ettifos/V2X'')]\<rparr>"

text \<open>
  The file sets every parameter the node declares, so the defaults of \<open>Config\<close> have no effect; it differs from
  them in the two addresses only.
\<close>

lemma params_yaml_complete: "read_config params_yaml c = read_config params_yaml default_config"
  by (simp add: read_config_def params_yaml_def get_or_def)

lemma params_yaml_config:
  "read_config params_yaml c = default_config\<lparr>v2x_radio_address := ''192.168.88.40'', broker_addr := ''192.168.88.40''\<rparr>"
  by (simp add: read_config_def params_yaml_def get_or_def default_config_def)

end
