(* ===== verification/Unit_Tests.thy ===== *)
theory Unit_Tests
  imports Inbound_Faults Config_Text
begin

text \<open>
  The assertions of \<open>test/node_test.cpp\<close> on the model, in the order of the file: what the tests observe of the
  compiled driver is what the definitions compute. Left out are the test of Boost's own address type, those that
  only ask for a dynamic type, and the broker process of the integration tests, whose answers are arguments here.
\<close>

section \<open>The test vectors\<close>

text \<open>A MobilityOperation, a PSM and a MAP as they were recorded.\<close>

definition mobility_vector :: bytes where
  "mobility_vector =
     [0, 243, 124, 29, 89, 212, 226, 212, 58, 179, 169, 197, 168, 193, 131, 6, 12, 24, 48, 96, 193, 131, 6, 12,
      24, 48, 96, 181, 131, 6, 12, 22, 176, 96, 193, 130, 214, 12, 24, 48, 90, 193, 131, 6, 12, 24, 48, 96,
      193, 131, 6, 12, 24, 48, 96, 193, 131, 6, 12, 24, 48, 96, 193, 131, 6, 12, 24, 48, 54, 167, 46, 184,
      245, 201, 221, 207, 134, 92, 125, 52, 239, 220, 24, 118, 211, 186, 254, 238, 187, 113, 101, 228, 233, 140, 106, 178,
      163, 200, 137, 89, 204, 57, 144, 168, 56, 112, 205, 154, 204, 120, 121, 114, 211, 151, 149, 253, 216, 118, 229, 117,
      26, 108, 58, 112, 106, 101, 198]"

definition psm_vector :: bytes where
  "psm_vector =
     [0, 32, 59, 3, 128, 56, 0, 20, 53, 84, 110, 235, 28, 175, 212, 133, 230, 190, 195, 243, 28, 231, 55, 89,
      11, 207, 4, 132, 128, 0, 112, 0, 128, 0, 253, 125, 55, 208, 0, 127, 255, 0, 0, 101, 144, 160, 0, 56,
      192, 0, 255, 117, 63, 233, 47, 1, 255, 250, 255, 254, 200, 0]"

definition map_vector :: bytes where
  "map_vector =
     [0, 18, 129, 145, 56, 0, 48, 0, 33, 136, 122, 1, 70, 103, 163, 112, 58, 131, 73, 205, 17, 244, 2, 220,
      40, 32, 8, 36, 0, 0, 0, 0, 175, 147, 193, 130, 196, 187, 200, 128, 24, 144, 0, 0, 0, 2, 173, 110,
      197, 11, 12, 237, 162, 0, 66, 64, 0, 0, 0, 10, 115, 185, 112, 43, 227, 205, 136, 0, 137, 0, 0, 0,
      0, 40, 146, 224, 112, 175, 239, 42, 72, 43, 8, 0, 0, 0, 0, 145, 227, 50, 136, 210, 214, 115, 192, 176,
      100, 0, 5, 15, 36, 20, 132, 0, 0, 0, 0, 70, 99, 142, 4, 103, 127, 90, 224, 88, 100, 0, 1, 7,
      18, 9, 194, 0, 0, 0, 0, 34, 19, 192, 98, 51, 131, 174, 184, 44, 54, 0, 0, 131, 73, 4, 161, 0,
      0, 0, 0, 16, 114, 93, 25, 25, 199, 215, 172, 86, 29, 0, 0, 65, 107, 17, 32, 0, 32, 194, 64, 82,
      64, 0, 0, 0, 7, 139, 186, 40, 15, 197, 20, 31, 21, 136, 192, 0, 32, 10, 193, 8, 0, 16, 8, 64,
      24, 200, 0, 0, 0, 1, 226, 238, 88, 195, 249, 125, 24, 68, 1, 204, 128, 0, 0, 0, 30, 53, 100, 16,
      63, 168, 81, 0, 144, 33, 16, 0, 0, 0, 1, 117, 250, 202, 14, 101, 101, 23, 21, 130, 64, 0, 48, 26,
      193, 200, 0, 24, 16, 144, 37, 16, 0, 0, 0, 1, 108, 234, 159, 142, 98, 37, 10, 5, 129, 192, 0, 48,
      41, 32, 82, 32, 0, 0, 0, 2, 199, 196, 214, 28, 192, 202, 20, 11, 2, 128, 0, 96, 98, 64, 180, 64,
      0, 0, 0, 3, 222, 195, 208, 230, 20, 80, 160, 88, 138, 0, 0, 131, 136, 6, 41, 0, 0, 0, 0, 37,
      143, 54, 0, 205, 242, 26, 32, 26, 164, 0, 0, 0, 0, 144, 228, 199, 195, 59, 8, 104, 128, 114, 144, 0,
      0, 0, 2, 53, 34, 195, 12, 223, 36, 36, 130, 12, 128, 0, 0, 0, 12, 205, 205, 240, 16, 207, 49, 224,
      44, 26, 0, 2, 2, 137, 3, 217, 0, 0, 0, 0, 25, 172, 25, 132, 33, 165, 101, 209, 88, 60, 0, 4,
      4, 44, 56, 128, 2, 2, 68, 4, 92, 128, 0, 0, 0, 25, 154, 30, 32, 33, 79, 98, 32]"

section \<open>\<open>V2XRadioClient\<close>: the UDP client\<close>

text \<open>\<open>testConnection\<close> and \<open>testsendV2xMessage\<close>, for any answers with which the connection can be made.\<close>

lemma test_connection:
  assumes "start_end a lp ep = Running" "\<And>ec. remote_endpoint a ra rp ec = Inr (Inr ep)"
  shows "\<not> udp_running udp_init \<and> udp_send p mobility_vector udp_init = Inr (False, udp_init) \<and>
    (\<exists>es c1 fs c2 gs c3. udp_connect a 1 ra rp lp ec udp_init = Inr (Returned True, Success, es, c1) \<and>
      udp_running c1 \<and> udp_connect a 2 ra rp lp ec c1 = Inr (Returned False, ec, [], c1) \<and>
      (\<exists>c1'. udp_send (Value ()) mobility_vector c1 = Inr (True, c1')) \<and>
      udp_close c1 = Inr (fs, c2) \<and> \<not> udp_running c2 \<and>
      udp_connect a 3 ra rp lp ec c2 = Inr (Returned True, Success, gs, c3))"
proof -
  have init: "\<not> udp_running udp_init" by (simp add: udp_init_def)
  have connect: "\<exists>es c'. udp_connect a n ra rp lp ec c = Inr (Returned True, Success, es, c') \<and> udp_running c' \<and> wf_udp c'"
    if "wf_udp c" "\<not> udp_running c" for n c
  proof -
    have c': "udp_connect a n ra rp lp ec c = Inr (end_result n lp ep c Running)"
      using that assms by (simp add: udp_connect_eq del: end_result.simps)
    obtain out ec' es c1 where res: "end_result n lp ep c Running = (out, ec', es, c1)"
      by (cases "end_result n lp ep c Running")
    from end_result_wf [OF that res] c' res show ?thesis by auto
  qed
  from connect [OF udp_init_wf init, of 1] obtain es c1 where
    c1: "udp_connect a 1 ra rp lp ec udp_init = Inr (Returned True, Success, es, c1)" "udp_running c1" "wf_udp c1"
    by blast
  from udp_close_total [OF c1(3)] obtain fs c2 where c2: "udp_close c1 = Inr (fs, c2)" "wf_udp c2" "\<not> udp_running c2" .
  from connect [OF c2(2,3), of 3] obtain gs c3 where
    c3: "udp_connect a 3 ra rp lp ec c2 = Inr (Returned True, Success, gs, c3)" by blast
  have "udp_send (Value ()) mobility_vector c1 = Inr (True, c1\<lparr>io_tasks := io_tasks c1 @ [Transmit mobility_vector]\<rparr>)"
    using udp_send_total [OF c1(3)] c1(2) by simp
  moreover have "udp_send p mobility_vector udp_init = Inr (False, udp_init)" using init by (simp add: udp_send_def)
  ultimately show ?thesis using init c1(1,2) c2(1,3) c3 by (intro conjI exI) (assumption | simp)+
qed

text \<open>\<open>testConnectionDnsResolution\<close>: a name that does not parse is resolved; one that does not resolve throws.\<close>

lemma test_dns:
  assumes "address_from_string a name = System_error e"
  shows "resolve_v4 a name (to_string (uint rp)) = Value (ep # eps) \<Longrightarrow> start_end a lp ep = Running \<Longrightarrow>
      \<exists>es c. udp_connect a n name rp lp ec udp_init = Inr (Returned True, Success, es, c)"
    and "resolve_v4 a name (to_string (uint rp)) = System_error er \<Longrightarrow>
      udp_connect a n name rp lp ec udp_init = Inr (Threw_system er, ec, [], udp_init)"
  using assms udp_connect_eq [OF udp_init_wf, of a n name rp lp ec]
  by (auto simp: remote_endpoint_def udp_init_def)

text \<open>\<open>testValidateMsgId\<close>: no path, a file that does not exist, the deployed file.\<close>

definition share_file :: string where
  "share_file = ''/share/etc/wave.json''"

lemma deployed_load:
  "wave_cfg_dsrc_msg_ids c = [] \<Longrightarrow>
   IsValidMsgID (deployed_world share_file) m (set_wave_file_path share_file c) =
     Inr (m \<in> set deployed_ids, (set_wave_file_path share_file c)
       \<lparr>wave_cfg_dsrc_msg_ids := deployed_ids, wave_cfg_psids := wave_cfg_psids c @ deployed_psids\<rparr>)"
  by (simp add: IsValidMsgID_def set_wave_file_path_def load_deployed share_file_def list_ex_iff)

lemma test_validate_msg_id:
  "IsValidMsgID w ''20'' udp_init = Inr (False, udp_init)"
  "f \<noteq> [] \<Longrightarrow> f \<noteq> share_file \<Longrightarrow>
    IsValidMsgID (deployed_world share_file) ''20'' (set_wave_file_path f udp_init) = Inr (False, set_wave_file_path f udp_init)"
  "m \<in> set [''20'', ''31'', ''18'', ''19'', ''240'', ''241'', ''242'', ''243''] \<Longrightarrow>
    \<exists>c. IsValidMsgID (deployed_world share_file) m (set_wave_file_path share_file udp_init) = Inr (True, c)"
  "\<exists>c. IsValidMsgID (deployed_world share_file) ''896'' (set_wave_file_path share_file udp_init) = Inr (False, c)"
proof -
  have empty: "wave_cfg_dsrc_msg_ids udp_init = []" "wave_file_path udp_init = []" by (simp_all add: udp_init_def)
  then show "IsValidMsgID w ''20'' udp_init = Inr (False, udp_init)" by (simp add: IsValidMsgID_def)
  show "IsValidMsgID (deployed_world share_file) ''20'' (set_wave_file_path f udp_init) = Inr (False, set_wave_file_path f udp_init)"
    if "f \<noteq> []" "f \<noteq> share_file"
  proof -
    have "accepted_entries (deployed_world share_file) wave_schema_ids f = []"
      using that(2) by (simp add: accepted_entries_def deployed_world_def read_stream_def deployed_text_def split: option.split)
    with that(1) empty show ?thesis
      by (simp add: IsValidMsgID_def set_wave_file_path_def loadWaveConfigIds_eq)
  qed
  show "\<exists>c. IsValidMsgID (deployed_world share_file) m (set_wave_file_path share_file udp_init) = Inr (True, c)"
    if "m \<in> set [''20'', ''31'', ''18'', ''19'', ''240'', ''241'', ''242'', ''243'']"
    using that empty(1) deployed_load [of udp_init m] by (auto simp: deployed_ids_def)
  show "\<exists>c. IsValidMsgID (deployed_world share_file) ''896'' (set_wave_file_path share_file udp_init) = Inr (False, c)"
    using empty(1) deployed_load [of udp_init "''896''"] by (simp add: deployed_ids_def)
qed

text \<open>
  \<open>testIsValidMsgSize\<close>: two bytes, the PSM and the MAP, and each of the two with one byte more in the datagram than
  the length field tells.
\<close>

lemma test_is_valid_msg_size_short:
  "isValidMsgSize [0, 1] 0 [0, 1] = Inr False"
  "isValidMsgSize psm_vector 0 psm_vector = Inr True"
  "isValidMsgSize psm_vector 0 (1 # 2 # tl psm_vector) = Inr False"
  by (simp_all add: isValidMsgSize_def psm_vector_def frame_consts)

lemma map_vector_length: "length map_vector = 405"
  by (simp add: map_vector_def)

lemma map_vector_field: "be16 (map_vector ! 2 AND 0x7F) (map_vector ! 3) = 401"
  by (simp add: map_vector_def be16_eq)

lemma test_is_valid_msg_size_long:
  "isValidMsgSize map_vector 0 map_vector = Inr True"
  "isValidMsgSize map_vector 0 (1 # 2 # tl map_vector) = Inr False"
  using map_vector_field by (simp_all add: isValidMsgSize_def frame_consts map_vector_length)

section \<open>\<open>MqttRadioClient\<close>\<close>

text \<open>A client that was never connected: it is not connected, closes without effect and sends nothing.\<close>

lemma test_mqtt_unconnected:
  "\<not> mqtt_connected mqtt_init"
  "mqtt_close mqtt_init = ([], mqtt_init)" "mqtt_close (snd (mqtt_close mqtt_init)) = ([], mqtt_init)"
  "mqtt_send rc m mqtt_init = Inr (False, [])"
  by (simp_all add: mqtt_init_def mqtt_close_def mqtt_send_def)

text \<open>\<open>testConnectWithoutBroker\<close>: the call fails or is never acknowledged; either way the client is not connected.\<close>

lemma test_connect_without_broker:
  "mqtt_connect a ''127.0.0.1'' 19999 0 ec (setMqttConfig [] 0 5 ''Ettifos/V2X'' mqtt_init) = Inr (out, ec', es, c) \<Longrightarrow>
   \<not> mqtt_connected c \<and> \<not> mqtt_connected (snd (mqtt_close c)) \<and> mosq (snd (mqtt_close c)) = None"
  by (auto simp: mqtt_connect_def setMqttConfig_def mqtt_init_def mqtt_close_def Let_def
      split: if_splits option.splits)

text \<open>
  \<open>testMultipleInstances\<close>: of three clients the first initialises the library and the last destroyed cleans it up, so
  that a fourth initialises it again.
\<close>

definition construct_three :: "effect list \<times> int" where
  "construct_three =
     (let (e1, n1, c1) = mqtt_construct 0; (e2, n2, c2) = mqtt_construct n1; (e3, n3, c3) = mqtt_construct n2;
          (f3, m3) = mqtt_destruct n3 c3; (f2, m2) = mqtt_destruct m3 c2; (f1, m1) = mqtt_destruct m2 c1
      in (e1 @ e2 @ e3 @ f3 @ f2 @ f1, m1))"

lemma test_multiple_instances:
  "construct_three = ([Mosq_lib_init, Mosq_lib_cleanup], 0)" "fst (mqtt_construct (snd construct_three)) = [Mosq_lib_init]"
  by (simp_all add: construct_three_def mqtt_construct_def mqtt_destruct_def mqtt_close_def mqtt_init_def)

text \<open>\<open>testPsidLookup\<close>.\<close>

lemma test_psid_lookup:
  "\<exists>c. loadWaveConfigIds (deployed_world share_file) share_file mqtt_init = Inr c \<and>
     psidForDsrcMsgId c ''20'' = Inr ''0020'' \<and> psidForDsrcMsgId c ''243'' = Inr ''BFEE'' \<and>
     psidForDsrcMsgId c ''245'' = Inr ''8003'' \<and> psidForDsrcMsgId c ''999'' = Inr []"
  by (simp add: load_deployed psidForDsrcMsgId_def mqtt_init_def deployed_ids_def deployed_psids_def)

section \<open>\<open>V2XRosDriverConfig\<close> and \<open>ProtocolFactory\<close>\<close>

lemma test_default_protocol:
  "protocol default_config = ''udp'' \<and> broker_addr default_config = ''localhost'' \<and>
   cfg_broker_port default_config = 1883 \<and> cfg_client_id default_config = [] \<and> qos_default default_config = 0 \<and>
   cfg_reconnect_interval_sec default_config = 5 \<and> cfg_mqtt_topic_prefix default_config = ''Ettifos/V2X''"
  by (simp add: default_config_def)

text \<open>\<open>testStreamOutput\<close>: the three values are lines of the printed configuration.\<close>

lemma test_stream_output:
  assumes "c = default_config\<lparr>protocol := ''mqtt'', broker_addr := ''192.168.88.50'', cfg_broker_port := 8883\<rparr>"
  shows "{''protocol: mqtt'', ''broker_address: 192.168.88.50'', ''broker_port: 8883''} \<subseteq>
    set (text_lines [] (config_text c))"
proof -
  have "to_string 8883 = ''8883''"
    by (simp add: to_string_def digits.simps [of 10] digit_char_def)
  moreover have "one_line_config c"
    by (simp add: assms one_line_config_def one_line_def default_config_def)
  ultimately show ?thesis by (simp add: config_text_lines config_lines_def assms)
qed

lemma test_create_radio_client:
  "protocol (config nd) = ''udp'' \<or> protocol (config nd) = ''unknown'' \<Longrightarrow> \<exists>c. snd (snd (new_radio nd)) = Udp c"
  "protocol (config nd) = ''mqtt'' \<Longrightarrow> \<exists>c. snd (snd (new_radio nd)) = Mqtt c"
  by (auto simp: new_radio_def mqtt_construct_def)

section \<open>\<open>MqttIntegrationTest\<close>, with a broker that accepts and acknowledges\<close>

text \<open>
  The clients of the integration tests: configured, the wave file loaded or its path set, connected to the broker,
  acknowledged.
\<close>

definition acknowledged :: "mqtt_client \<Rightarrow> mqtt_client" where
  "acknowledged c = snd (handleConnect 0 c)"

lemma test_mqtt_connect:
  assumes "c = setMqttConfig cid 0 5 ''Ettifos/V2X'' d" "\<not> mqtt_connected d"
  shows "\<exists>es c1. mqtt_connect (ok_answers h) ''127.0.0.1'' 11883 0 ec c = Inr (Returned True, Success, es, c1) \<and>
    mqtt_connected (acknowledged c1) \<and> mosq (acknowledged c1) = Some h \<and>
    wave_cfg_dsrc_msg_ids (acknowledged c1) = wave_cfg_dsrc_msg_ids d \<and>
    wave_cfg_psids (acknowledged c1) = wave_cfg_psids d \<and> mqtt_topic_prefix (acknowledged c1) = ''Ettifos/V2X'' \<and>
    \<not> mqtt_connected (snd (mqtt_close (acknowledged c1)))"
proof -
  have "\<not> mqtt_connected c" "int_range (reconnect_interval_sec c * 10)"
    using assms by (simp_all add: setMqttConfig_def int_range_def)
  from mqtt_connect_calls [OF this, of h "''127.0.0.1''" 11883 0 ec] assms show ?thesis
    by (simp add: acknowledged_def handleConnect_def setMqttConfig_def mqtt_close_def Let_def)
qed

text \<open>\<open>testsendV2xMessage\<close> and \<open>testSendMultipleMessageTypes\<close>: with the deployed lists all are accepted.\<close>

lemma test_mqtt_sends:
  assumes "has_deployed_ids c" "mosq c = Some h" "mqtt_connected c" "mqtt_topic_prefix c = ''Ettifos/V2X''"
    "(m, n) \<in> set [(mobility_vector, 16494), ([0, 0x14, 3, 0xAA, 0xBB, 0xCC], 32),
       ([0, 0x12, 3, 0xDD, 0xEE, 0xFF], 2113687), ([0, 0xF3, 3, 0x77, 0x88, 0x99], 16494),
       ([0, 0xF5, 3, 0x44, 0x55, 0x66], 32771)]"
  shows "mqtt_send 0 (Some m) c =
    Inr (True, [Mosq_publish h (''Ettifos/V2X/req/J2735/'' @ to_string n) m (qos c) False])"
proof -
  have "2 \<le> length m" "deployed_topic_number (be16 (m ! 0) (m ! 1)) = n"
    using assms(5) by (auto simp: mobility_vector_def be16_eq deployed_topic_number_def)
  with mqtt_send_deployed_eq [OF assms(1-3), of m 0] assms(4) show ?thesis
    by (simp add: topic_for_def u16_def)
qed

text \<open>\<open>testInboundMessage\<close>: the BSM is received once, with its identifier.\<close>

lemma test_inbound_message:
  assumes "wave_cfg_dsrc_msg_ids c = deployed_ids" "wave_cfg_psids c = deployed_psids"
    "payload msg = Some [0, 0x14, 3, 0xAA, 0xBB, 0xCC]" "payloadlen msg = 6"
  shows "handleMessage w (Some msg) c = Inr ([Emit (OnMessageReceived [0, 0x14, 3, 0xAA, 0xBB, 0xCC] 20)], c)"
proof -
  have e: "message_frame 0 0x14 [0xAA, 0xBB, 0xCC] = [0, 0x14, 3, 0xAA, 0xBB, 0xCC]" "be16 0 0x14 = 20" "to_ushort 20 = 20"
    by (simp_all add: message_frame_def length_determinant_def be16_eq to_ushort_def)
  have "process w [0, 0x14, 3, 0xAA, 0xBB, 0xCC] c = Inr ([([0, 0x14, 3, 0xAA, 0xBB, 0xCC], 20)], c)"
    using deployed_start [OF assms(1,2), of 0 "0x14" "[0xAA, 0xBB, 0xCC]" w]
    by (simp add: e deployed_id_numbers_def)
  then show ?thesis using assms(3,4) by (simp add: handleMessage_def message_signals_def eval_nat_numeral)
qed

end
