(* ===== verification/Spec2Isabelle.thy ===== *)
theory Spec2Isabelle
  imports Scan_Loop Wave_Store Udp_Channel Udp_Inbound Transport_Equivalence Mqtt_Link Load_Race Node_Races
    Configure_Window Decoder_Forwarder Inbound_Faults Config_Text Unit_Tests
begin

text \<open>
  The V2X ROS driver of \<^verbatim>\<open>src/v2x_ros_driver\<close>: a model of its C++ code and the theorems about it.

  \<^bold>\<open>The program.\<close> The driver moves J2735 messages between ROS and a V2X radio. The node
  (\<open>v2x_ros_driver_node.cpp\<close>) owns one radio client behind a pointer to \<open>BaseRadioClient\<close>: a
  \<open>UdpRadioClient\<close> (\<open>udp_radio_client.cpp\<close>, with the \<open>UDPListener\<close> of \<open>udp_listener.h\<close>) or an
  \<open>MqttRadioClient\<close> (\<open>mqtt_radio_client.cpp\<close>). Inbound, a transport thread hands a datagram to
  \<open>BaseRadioClient::process\<close> (\<open>base_radio_client.cpp\<close>), which looks for a MessageFrame whose identifier
  is configured in \<open>etc/wave.json\<close> and signals it; the node's slot publishes it under its configured
  name. Outbound, the node's subscription or service hands raw content (MQTT) or WAVE text (UDP) to the
  client's \<open>sendV2xMessage\<close>. A thread started by \<open>pre_spin\<close> connects; services reconnect and report.

  \<^bold>\<open>The theories\<close>, in the order of the code they model.
  \<^item> \<open>Prelude\<close>, \<open>Cpp_Std\<close>: results with faults, checked vector reads; the standard library's
    \<open>to_string\<close>, \<open>stoi\<close> with base 16, hexadecimal bytes, sixteen-bit numbers from two bytes.
  \<^item> \<open>Wave_Config\<close>, \<open>Node_Wave\<close>: the wave file as JSON, the two loaders with their schema texts, the
    lists of the base class and the entries of the node, the WAVE text of \<open>packMessage\<close>.
  \<^item> \<open>Base_Radio_Client\<close>, \<open>Message_Frame\<close>, \<open>Inbound_Scan\<close>: the scan with its checks, an encoder of
    MessageFrames as specification, and the properties of the scan.
  \<^item> \<open>Scan_Loop\<close>: the loop of \<open>process\<close> as a while loop, guard and body, on indexes of 64 bits, and the proof that
    it ends with the result of the recursion, the first acceptable frame. \<open>Wave_Store\<close>: the two loaders as providers of one contract, the locale
    \<open>wave_store\<close>, extended by \<open>wave_lookup\<close>, with an interpretation for each table that is searched.
  \<^item> \<open>Radio_Types\<close>, \<open>Mqtt_Radio_Client\<close>, \<open>Mqtt_Topics\<close>, \<open>Mqtt_Lifecycle\<close>: error codes, signals and the
    calls into the libraries as effects; the MQTT client; the topic of every message; the handles as a
    transition system whose steps are the client's operations and the network thread's callbacks.
    \<open>Mqtt_Link\<close>: an abstract link to one broker, with the handles it lost, and the simulation of every such step by
    it, disciplined or not.
    \<open>Mqtt_Send\<close>: how a send can end in every state of that system. \<open>Mqtt_Interleaving\<close>: \<open>close\<close> and \<open>connect\<close>
    split where another thread comes in, the proof that the parts compose to them, and two races. \<open>Load_Race\<close>:
    the wave lists filled by the network thread, one \<open>emplace_back\<close> at a time, under a send.
  \<^item> \<open>Udp_Listener\<close>, \<open>Udp_Radio_Client\<close>, \<open>Udp_Lifecycle\<close>, \<open>Udp_Io_Thread\<close>: the listener, the UDP client with the
    handlers of its I/O thread; its invariant and the reachable states; the fate of messages and the order
    in which Asio objects are destroyed. \<open>Udp_Channel\<close>: an abstract channel with two queues, and the
    simulation of every operation and every turn of the I/O thread by it. \<open>Udp_Inbound\<close>: both directions in
    order, what is received against \<open>process\<close> run by the base class alone. \<open>Udp_Interleaving\<close>: \<open>close\<close> and
    \<open>connect\<close> cut where the I/O thread comes in, the parts compose to them, every interleaving of \<open>close\<close> is
    a sequential run.
  \<^item> \<open>Base_Frame\<close>, \<open>Transport_Equivalence\<close>: the receive path touches the members of the base class only; the two
    transports make the same of the same bytes.
  \<^item> \<open>Radio_Interface\<close>: the contract of the abstract class as the locale \<open>radio_client\<close>, interpreted on both
    clients and on the node's pointer.
  \<^item> \<open>Driver_Node\<close>, \<open>Config_Text\<close>, \<open>Node_Properties\<close> and this theory: the node with its configuration, threads,
    handlers, services and lifecycle; the text of a configuration and the parameter file; their properties; the paths from the
    network to ROS and back.
  \<^item> \<open>Node_Run\<close>, \<open>Node_Ends\<close>: the runs of the process (\<open>main.cpp\<close>, destruction of the node), the callbacks in any
    order, one lemma for each that it keeps the node's invariant, and the properties of every state in a run.
    \<open>Inbound_Faults\<close>: every failure of \<open>process\<close> and of a transport's thread in such a state. \<open>Node_Races\<close>: the
    reconnect service and a reconfiguration while the connection thread is inside \<open>connect\<close>. \<open>Configure_Window\<close>:
    \<open>handle_on_configure\<close> cut at the points where the connection thread runs before the client has its wave
    file and the slots are connected.
  \<^item> \<open>Decoder_Forwarder\<close>: the search of the tool \<open>scripts/v2x_decoder_forwarder.py\<close>, against the scan of the driver.
  \<^item> \<open>Unit_Tests\<close>: the assertions of \<open>test/node_test.cpp\<close>, as lemmas about the model.

  \<^bold>\<open>How the code is represented.\<close> Classes are records (the clients extend \<open>base_client\<close>, as the classes
  extend \<open>BaseRadioClient\<close>), members keep their names without the trailing underscore, an owning pointer is an
  option. An operation takes the state and returns it with its result and the list of its effects, the
  calls it makes into libmosquitto, Boost.Asio and ROS and the signals it emits, in order. What a library
  answers is an argument: the records \<open>world\<close> (file system, rapidjson), \<open>mosq_answers\<close>, \<open>udp_answers\<close>,
  \<open>params\<close> and \<open>updater\<close>. Exceptions that a function catches are branches; an exception that leaves it, a read
  out of bounds, a null pointer and \<open>std::terminate\<close> are the left values of \<open>'a res\<close>. Vector sizes are
  natural numbers, \<open>int\<close> values are integers (checked where an overflow is possible), ports and identifiers are
  16-bit words, bytes are 8-bit words. The one hypothesis on a library that theorems carry is \<open>validator_sound\<close>:
  a document the schema validator accepts has the shape the schema text demands; \<open>deployed_world\<close> satisfies it.

  \<^bold>\<open>Loops.\<close> Every loop is a recursion that Isabelle proves terminating: the scan by the distance to the end
  (on natural numbers, equal to the loop on \<open>size_t\<close> by \<open>scan_loop_terminates\<close>), the nested PSID loops by their iteration counts (six each, as in the code), the others by their lists. No fuel
  is used. The threads are interleaved by explicit steps: \<open>mqtt_step\<close>, \<open>udp_events\<close>, and at the level of
  the node \<open>run_callbacks\<close>, which takes any sequence of ROS callbacks with \<open>node_net\<close> (one step of a
  transport thread) and \<open>connect_body\<close> (the connection thread, run when it is joined or on its own). ROS callbacks run
  one at a time: the launch files load the node into a multi-threaded container, where ROS serialises the entities of
  a node's default callback group, and the code names no other group.

  \<^bold>\<open>What the theorems show.\<close>
  \<^item> Scan: it is a search for the first acceptable index; it delivers encoded frames and only well-formed
    frames; exactly the payloads of 125 to 127 bytes are lost; exactly short PSMs are read out of bounds with the
    deployed configuration; loading on first use and loading again are transparent; the loop ends.
  \<^item> MQTT: the client refines a link, and nothing is published on a handle that has not subscribed; one publish per message, the topic of every message with and without a loaded configuration, no leak
    and no use of a missing handle as long as \<open>connect\<close> is called without a handle, and how that breaks; the
    only failures of a send are the exceptions of \<open>std::stoi\<close>; what \<open>close\<close> leaves when callbacks run in it,
    and when the connection thread is inside the library; what a send finds while the lists are loaded.
  \<^item> UDP: the client refines a channel; no operation faults in a reachable state, accepted messages
    leave once and in order and datagrams are processed once and in order, \<open>close\<close> takes effect at one point
    however it overlaps with the I/O thread, what \<open>close\<close> drops, how a receive error ends reception, where a
    reconnection violates the lifetime of the \<open>io_service\<close>, and why \<open>close\<close> has no effect on a client that is connecting.
  \<^item> Node: a message is handed over once, services report what happened, configuring builds the right client
    and brings it up, packed text reads back, and the end-to-end paths; the invariant of every reachable node,
    the failures an outbound and an inbound message can cause, what is lost while the node is being configured, when
    the reconnect service restores a node and when it runs into undefined behaviour, and that the process
    ends by \<open>std::terminate\<close> because no code of the repository calls
    \<open>handle_on_shutdown\<close>.

  \<^bold>\<open>Not modelled.\<close> Log output, the creation of ROS entities, allocation failures outside the code's handlers,
  data races on single members (each operation is one step, but for those split in \<open>Mqtt_Interleaving\<close>,
  \<open>Udp_Interleaving\<close>, \<open>Configure_Window\<close> and \<open>Load_Race\<close>; a vector that moves its storage under a reader is none of them), what a callback
  of a lost mosquitto handle does after its client was destroyed, the node after an exception has left a callback (a run
  ends there), the ROS executor, launch files; of the decoder tool, its command line, its sockets and
  the change of the JSON encoder (the ASN.1 library is an argument); of the tests, those of Boost's own types and of dynamic
  types, and the broker process they start. The rest of the source is comments, declarations and includes.
\<close>

section \<open>From the network to ROS and back\<close>

text \<open>The name the node publishes a message under, with the deployed entries.\<close>

definition deployed_name :: "int \<Rightarrow> string" where
  "deployed_name n =
     (if n = 20 then ''BSM'' else if n = 18 then ''MAP'' else if n = 19 then ''SPAT''
      else if n = 31 then ''TIM'' else if n = 32 then ''PSM''
      else if n = 41 then ''SensorDataSharingMessage''
      else if n = 240 then ''MobilityRequest'' else if n = 241 then ''MobilityResponse''
      else if n = 243 then ''MobilityOperation'' else if n = 242 then ''MobilityPath''
      else if n = 244 then ''TrafficControlRequest'' else if n = 245 then ''TrafficControlMessage''
      else if n = 246 then ''EmergencyVehicleResponse'' else if n = 247 then ''EmergencyVehicleAck''
      else ''Unknown'')"

lemma deployed_items_ids: "map w_dsrc_msg_id deployed_items = map to_string deployed_id_numbers"
  unfolding deployed_ids_print [symmetric] by (simp add: deployed_items_def deployed_ids_def)

lemma find_by_key:
  "map f xs = map g ks \<Longrightarrow> inj g \<Longrightarrow>
   find (\<lambda>x. f x = g k) xs = map_of (zip ks xs) k"
proof (induction xs arbitrary: ks)
  case (Cons x xs)
  then obtain k' ks' where ks: "ks = k' # ks'" by (cases ks) auto
  with Cons show ?case by (auto dest: injD)
qed simp

lemma deployed_entry_name:
  "(case item_by_id i deployed_items of Some e \<Rightarrow> w_name e | None \<Rightarrow> ''Unknown'') = deployed_name (uint i)"
proof -
  have "item_by_id i deployed_items = map_of (zip deployed_id_numbers deployed_items) (uint i)"
    unfolding item_by_id_def by (rule find_by_key [OF deployed_items_ids]) (simp add: inj_def)
  then show ?thesis
    by (simp add: deployed_id_numbers_def deployed_items_def deployed_name_def)
qed

lemma dispatch_received:
  assumes "message_slot nd" "wave_cfg_items nd = deployed_items"
  shows "dispatch now [Emit (OnMessageReceived m (to_ushort (be16 hi lo)))] nd =
    ([Radio (Emit (OnMessageReceived m (to_ushort (be16 hi lo)))),
      Published \<lparr>stamp = now, frame_id = [], message_type = deployed_name (be16 hi lo), content = m\<rparr>], nd)"
  using assms deployed_entry_name [of "to_ushort (be16 hi lo)"]
  by (simp add: onMessageReceivedHandler_def to_ushort_be16)

text \<open>
  C2: from the UDP socket to ROS. On a node with the deployed configuration whose client waits for a
  datagram and has no handler posted: a datagram that is a MessageFrame of a configured type other than
  PSM, with a payload of 1 to 124 or at least 128 bytes, is published after one turn of the I/O thread as
  exactly one ROS message, unchanged, with the configured name of its identifier.
\<close>

theorem inbound_udp:
  assumes "radio_client nd = Some (Udp c)" "message_slot nd" "wave_cfg_items nd = deployed_items"
    "waiting c" "io_tasks c = []" "wave_cfg_dsrc_msg_ids c = deployed_ids" "wave_cfg_psids c = deployed_psids"
    "be16 hi lo \<in> set deployed_id_numbers" "be16 hi lo \<noteq> 32" "1 \<le> length p"
    "length p \<le> 124 \<or> 128 \<le> length p" "length (message_frame hi lo p) \<le> 16383"
  shows "\<exists>nd1 nd2.
    node_net w now (Udp_net (Ev_receive Success (Value (length (message_frame hi lo p)))
      (\<lambda>n. Inr (message_frame hi lo p)))) nd = Inr ([], nd1) \<and>
    node_net w now (Udp_net (Ev_turn r)) nd1 =
      Inr ([Radio (Emit (OnMessageReceived (message_frame hi lo p) (to_ushort (be16 hi lo)))),
            Published \<lparr>stamp = now, frame_id = [], message_type = deployed_name (be16 hi lo),
              content = message_frame hi lo p\<rparr>], nd2)"
proof -
  let ?e = "message_frame hi lo p"
  obtain l where l: "udp_listener c = Some l" "lst_waiting l" "udp_running c"
    using assms(4) by (auto simp: waiting_def)
  let ?l = "if lst_running l then start_recv_udp (l\<lparr>lst_waiting := False\<rparr>) else l\<lparr>lst_waiting := False\<rparr>"
  let ?c1 = "c\<lparr>udp_listener := Some ?l, io_tasks := [Deliver ?e]\<rparr>"
  let ?nd1 = "nd\<lparr>radio_client := Some (Udp ?c1)\<rparr>"
  have recv: "io_receive Success (Value (length ?e)) (\<lambda>n. Inr ?e) c = Inr ?c1"
    using l assms(5) by (simp add: io_receive_def handle_recv_udp_def Let_def)
  have first: "node_net w now (Udp_net (Ev_receive Success (Value (length ?e)) (\<lambda>n. Inr ?e))) nd = Inr ([], ?nd1)"
    using assms(1,4) recv by (simp add: node_net_def)
  have "process w ?e (?c1\<lparr>io_tasks := []\<rparr>) = Inr ([(?e, to_ushort (be16 hi lo))], ?c1\<lparr>io_tasks := []\<rparr>)"
    using assms(6-12) by (intro deployed_start) simp_all
  then have "io_turn w r ?c1 =
      Inr ([Emit (OnMessageReceived ?e (to_ushort (be16 hi lo)))], ?c1\<lparr>io_tasks := []\<rparr>)"
    by (simp add: io_turn_def message_signals_def)
  then have "node_net w now (Udp_net (Ev_turn r)) ?nd1 =
      Inr (dispatch now [Emit (OnMessageReceived ?e (to_ushort (be16 hi lo)))]
        (?nd1\<lparr>radio_client := Some (Udp (?c1\<lparr>io_tasks := []\<rparr>))\<rparr>))"
    using l(3) by (simp add: node_net_def)
  with first assms(2,3) show ?thesis by (simp add: dispatch_received del: dispatch.simps)
qed

definition listening :: udp_client where
  "listening = (up_client udp_init 1)\<lparr>wave_cfg_dsrc_msg_ids := deployed_ids, wave_cfg_psids := deployed_psids\<rparr>"

lemma listening_fields [simp]:
  "waiting listening" "io_tasks listening = []" "wave_cfg_dsrc_msg_ids listening = deployed_ids"
  "wave_cfg_psids listening = deployed_psids"
  by (simp_all add: listening_def up_client_def waiting_def)

theorem inbound_udp_witness:
  "\<exists>nd1 nd2.
    node_net (deployed_world ''w'') 7 (Udp_net (Ev_receive Success (Value 5) (\<lambda>n. Inr [0, 18, 2, 8, 9])))
      (udp_node listening) = Inr ([], nd1) \<and>
    node_net (deployed_world ''w'') 7 (Udp_net (Ev_turn (Value ()))) nd1 =
      Inr ([Radio (Emit (OnMessageReceived [0, 18, 2, 8, 9] 18)),
            Published \<lparr>stamp = 7, frame_id = [], message_type = ''MAP'', content = [0, 18, 2, 8, 9]\<rparr>], nd2)"
proof -
  have e: "message_frame 0 18 [8, 9] = [0, 18, 2, 8, 9]" "be16 0 18 = 18" "to_ushort 18 = 18"
    by (simp_all add: message_frame_def length_determinant_def be16_eq to_ushort_def)
  from inbound_udp [OF udp_node_fields(1) udp_node_fields(5) udp_node_fields(4) listening_fields(1,2,3,4),
      of 0 18 "[8, 9]" "deployed_world ''w''" 7 "Value ()"]
  show ?thesis by (simp add: e deployed_id_numbers_def deployed_name_def eval_nat_numeral)
qed

text \<open>
  C3: from ROS over MQTT to ROS. A message whose content is a MessageFrame of a configured type other than PSM,
  with a payload of 1 to 124 or at least 128 bytes, that the node of one vehicle accepts while connected is
  published once, unchanged; a node that gets these bytes from its broker publishes one ROS message with
  the same content and the configured name.
\<close>

theorem mqtt_round_trip:
  assumes "radio_client s = Some (Mqtt c)" "wf_mqtt c" "mqtt_connected c" "has_deployed_ids c"
    "protocol (config s) = ''mqtt''" "send_msg_queue s = []" "content m = message_frame hi lo p"
    "radio_client d = Some (Mqtt c')" "has_deployed_ids c'" "message_slot d" "wave_cfg_items d = deployed_items"
    "be16 hi lo \<in> set deployed_id_numbers" "be16 hi lo \<noteq> 32" "1 \<le> length p"
    "length p \<le> 124 \<or> 128 \<le> length p" "length (message_frame hi lo p) \<le> 16383"
  shows "\<exists>h t s' d'. onOutboundMessage now a m s = Inr ([Radio (Mosq_publish h t (content m) (qos c) False)], s') \<and>
    node_net w now (Mqtt_message (Some \<lparr>msg_topic = t', payload = Some (content m), payloadlen = int (length (content m))\<rparr>)) d =
      Inr ([Radio (Emit (OnMessageReceived (content m) (to_ushort (be16 hi lo)))),
            Published \<lparr>stamp = now, frame_id = [], message_type = deployed_name (be16 hi lo), content = content m\<rparr>], d')"
proof -
  let ?e = "message_frame hi lo p"
  have len: "4 \<le> length ?e" using assms(14) by (cases p) (simp_all add: length_message_frame)
  obtain h where h: "mosq c = Some h" using assms(2,3) by (auto simp: wf_mqtt_def)
  obtain t where "mqtt_send (publish_rc a) (Some ?e) c =
      Inr (publish_rc a = 0, [Mosq_publish h t ?e (qos c) False])"
    using mqtt_send_deployed_eq [OF assms(4) h assms(3), of ?e "publish_rc a"] len by auto
  then have "radio_send a ?e (Mqtt c) =
      Inr (publish_rc a = 0, [Mosq_publish h t ?e (qos c) False], Mqtt c)"
    by (simp add: mqtt_sendf_def)
  with onOutboundMessage_eq [OF assms(1) _ assms(6)] assms(2,3,5,7)
  have out: "\<exists>s'. onOutboundMessage now a m s = Inr ([Radio (Mosq_publish h t (content m) (qos c) False)], s')"
    by (simp add: outbound_content_def)
  have "process w ?e c' = Inr ([(?e, to_ushort (be16 hi lo))], c')"
    using assms(9,12-16) by (intro deployed_start) (simp_all add: has_deployed_ids_def)
  then have "handleMessage w (Some \<lparr>msg_topic = t', payload = Some ?e, payloadlen = int (length ?e)\<rparr>) c' =
      Inr ([Emit (OnMessageReceived ?e (to_ushort (be16 hi lo)))], c')"
    using len by (auto simp: handleMessage_def message_signals_def)
  then have "node_net w now (Mqtt_message (Some \<lparr>msg_topic = t', payload = Some ?e, payloadlen = int (length ?e)\<rparr>)) d =
      Inr (dispatch now [Emit (OnMessageReceived ?e (to_ushort (be16 hi lo)))] (d\<lparr>radio_client := Some (Mqtt c')\<rparr>))"
    using assms(8) by (simp add: node_net_def)
  with out assms(7,10,11) show ?thesis by (auto simp: dispatch_received simp del: dispatch.simps)
qed

theorem mqtt_round_trip_witness:
  "\<exists>h t s' d'.
    onOutboundMessage 0 any_answers \<lparr>stamp = 0, frame_id = [], message_type = ''TIM'', content = message_frame 0 31 [1]\<rparr>
      (mqtt_node (connected_client deployed_ids deployed_psids)) =
        Inr ([Radio (Mosq_publish h t (message_frame 0 31 [1]) 0 False)], s') \<and>
    node_net (deployed_world ''w'') 0
      (Mqtt_message (Some \<lparr>msg_topic = ''Ettifos/V2X/ind/J2735/131'', payload = Some (message_frame 0 31 [1]), payloadlen = 4\<rparr>))
      (mqtt_node (connected_client deployed_ids deployed_psids)) =
        Inr ([Radio (Emit (OnMessageReceived (message_frame 0 31 [1]) (to_ushort 31))),
          Published \<lparr>stamp = 0, frame_id = [], message_type = ''TIM'', content = message_frame 0 31 [1]\<rparr>], d')"
proof -
  let ?m = "\<lparr>stamp = 0, frame_id = [], message_type = ''TIM'', content = message_frame 0 31 [1]\<rparr>"
  have e: "be16 0 31 = 31" "length (message_frame 0 31 [1]) = 4"
    by (simp_all add: be16_eq length_message_frame)
  from mqtt_round_trip [OF mqtt_node_fields(1) wf_mqtt_connected_client connected_client_fields(4)
      connected_client_deployed mqtt_node_fields(3,2) _ mqtt_node_fields(1) connected_client_deployed
      mqtt_node_fields(5,4), where m = ?m and hi = 0 and lo = 31 and p = "[1]" and now = 0 and a = any_answers
      and w = "deployed_world ''w''" and t' = "''Ettifos/V2X/ind/J2735/131''"]
  show ?thesis by (simp add: e deployed_id_numbers_def deployed_name_def)
qed

text \<open>
  C4: from ROS to the UDP radio. A message the node accepts while its UDP client runs with nothing queued leaves,
  after one turn of the I/O thread, as exactly one datagram to the configured endpoint, whose payload
  field reads back as the message's content.
\<close>

theorem outbound_udp:
  assumes "radio_client nd = Some (Udp c)" "wf_udp c" "udp_running c" "io_tasks c = []"
    "send_msg_queue nd = []" "protocol (config nd) \<noteq> ''mqtt''"
    "packMessage (wave_cfg_items nd) m = Inr bs"
  shows "\<exists>nd1 nd2. onOutboundMessage now any_answers m nd = Inr ([], nd1) \<and>
    node_net w now (Udp_net (Ev_turn (Value ()))) nd1 = Inr ([Radio (Send_to bs (remote_udp_ep c))], nd2) \<and>
    radio_client nd2 = radio_client nd \<and> unhex (last_field (of_bytes bs)) = Some (content m)"
proof -
  let ?c1 = "c\<lparr>io_tasks := [Transmit bs]\<rparr>"
  have "radio_send any_answers bs (Udp c) = Inr (True, [], Udp ?c1)"
    using assms(2,3,4) by (simp add: udp_sendf_def udp_send_total any_answers_def)
  with onOutboundMessage_eq [OF assms(1) _ assms(5), of m bs any_answers True "[]" "Udp ?c1" now] assms(2,3,6,7)
  have out: "onOutboundMessage now any_answers m nd = Inr ([], nd\<lparr>radio_client := Some (Udp ?c1)\<rparr>)"
    by (simp add: outbound_content_def)
  have "?c1\<lparr>io_tasks := []\<rparr> = c" using assms(4) by (cases c) simp
  then have "io_turn w (Value ()) ?c1 = Inr ([Send_to bs (remote_udp_ep c)], c)"
    using io_turn_transmit [of ?c1 bs "[]" w "Value ()"] assms(2,3) by simp
  then have "node_net w now (Udp_net (Ev_turn (Value ()))) (nd\<lparr>radio_client := Some (Udp ?c1)\<rparr>) =
      Inr ([Radio (Send_to bs (remote_udp_ep c))], nd\<lparr>radio_client := Some (Udp c)\<rparr>)"
    using assms(3) by (simp add: node_net_def)
  moreover have "unhex (last_field (of_bytes bs)) = Some (content m)"
    using assms(7) by (auto simp: packMessage_def bind_res_eq_Inr last_field_pack)
  ultimately show ?thesis using out assms(1) by auto
qed

theorem outbound_udp_witness:
  "\<exists>bs nd1 nd2. onOutboundMessage 0 any_answers bsm_out (udp_node (up_client udp_init 1)) = Inr ([], nd1) \<and>
    node_net (deployed_world ''w'') 0 (Udp_net (Ev_turn (Value ()))) nd1 =
      Inr ([Radio (Send_to bs (Endpoint V4 ''obu'' 1516))], nd2) \<and>
    unhex (last_field (of_bytes bs)) = Some [0, 20, 1, 255]"
proof -
  have "pack_item deployed_items bsm_out = Inr (item ''BSM'' ''0020'' ''20'' ''183'' ''6'')"
    by (simp add: pack_item_def item_by_name_def deployed_items_def bsm_out_def)
  then obtain bs where "packMessage (wave_cfg_items (udp_node (up_client udp_init 1))) bsm_out = Inr bs"
    by (simp add: packMessage_def)
  from outbound_udp [OF udp_node_fields(1) up_init_wf up_client_running up_client_fields(1) udp_node_fields(2) _ this,
      of 0 "deployed_world ''w''"]
  show ?thesis by (auto simp: bsm_out_def)
qed

end
